(* ===== verification/Rust_Prelude.thy ===== *)
theory Rust_Prelude
  imports Main "HOL-Library.Word" "HOL-Library.Multiset" "HOL-Library.Sublist"
begin

text \<open>
  Shared vocabulary of the development: the value a Rust call ends with, checked
  indexing of a vector, overwriting a range of a buffer, and the generic facts on
  lists, options and machine words that the component theories use.
\<close>

section \<open>Outcomes of a Rust call\<close>

text \<open>
  A fallible Rust function returns \<open>Ok\<close> or \<open>Err\<close>; an \<open>unwrap\<close>, \<open>expect\<close>, \<open>assert\<close>,
  out-of-range index or arithmetic underflow ends it with a panic, which no caller in
  the modelled code catches.
\<close>

datatype ('e, 'a) res = Ok 'a | Err 'e | Panic

type_synonym byte = "8 word"
type_synonym u32 = "32 word"
type_synonym u64 = "64 word"
type_synonym Fd = "32 word"

fun bind_res :: "('e, 'a) res \<Rightarrow> ('a \<Rightarrow> ('e, 'b) res) \<Rightarrow> ('e, 'b) res" where
  "bind_res (Ok a) f = f a"
| "bind_res (Err e) f = Err e"
| "bind_res Panic f = Panic"

fun map_err :: "('e \<Rightarrow> 'g) \<Rightarrow> ('e, 'a) res \<Rightarrow> ('g, 'a) res" where
  "map_err f (Ok a) = Ok a"
| "map_err f (Err e) = Err (f e)"
| "map_err f Panic = Panic"

fun map_ok :: "('a \<Rightarrow> 'b) \<Rightarrow> ('e, 'a) res \<Rightarrow> ('e, 'b) res" where
  "map_ok f (Ok a) = Ok (f a)"
| "map_ok f (Err e) = Err e"
| "map_ok f Panic = Panic"

fun is_ok :: "('e, 'a) res \<Rightarrow> bool" where
  "is_ok (Ok a) = True"
| "is_ok (Err e) = False"
| "is_ok Panic = False"

text \<open>\<open>Option::ok_or\<close> and \<open>Option::unwrap\<close>.\<close>

fun ok_or :: "'e \<Rightarrow> 'a option \<Rightarrow> ('e, 'a) res" where
  "ok_or e (Some a) = Ok a"
| "ok_or e None = Err e"

fun unwrap_opt :: "'a option \<Rightarrow> ('e, 'a) res" where
  "unwrap_opt (Some a) = Ok a"
| "unwrap_opt None = Panic"

named_theorems res_simps \<open>case analysis of outcomes\<close>

lemma bind_res_Ok [res_simps]: "bind_res r f = Ok b \<longleftrightarrow> (\<exists>a. r = Ok a \<and> f a = Ok b)"
  by (cases r) auto

lemma bind_res_Panic [res_simps]:
  "bind_res r f = Panic \<longleftrightarrow> r = Panic \<or> (\<exists>a. r = Ok a \<and> f a = Panic)"
  by (cases r) auto

lemma map_err_Ok [res_simps]: "map_err f r = Ok a \<longleftrightarrow> r = Ok a"
  by (cases r) auto

lemma map_err_Err [res_simps]: "map_err f r = Err e \<longleftrightarrow> (\<exists>e'. r = Err e' \<and> e = f e')"
  by (cases r) auto

lemma map_err_Panic [res_simps]: "map_err f r = Panic \<longleftrightarrow> r = Panic"
  by (cases r) auto

lemma map_ok_Panic [res_simps]: "map_ok f r = Panic \<longleftrightarrow> r = Panic"
  by (cases r) auto

lemma map_ok_Ok [res_simps]: "map_ok f r = Ok b \<longleftrightarrow> (\<exists>a. r = Ok a \<and> b = f a)"
  by (cases r) auto

lemma ok_or_not_Panic [simp]: "ok_or e x \<noteq> Panic"
  by (cases x) auto

section \<open>Vectors\<close>

text \<open>\<open>Vec::get\<close>: \<open>None\<close> out of range.\<close>

definition vec_get :: "'a list \<Rightarrow> nat \<Rightarrow> 'a option" where
  "vec_get xs i = (if i < length xs then Some (xs ! i) else None)"

lemma vec_get_in [simp]: "i < length xs \<Longrightarrow> vec_get xs i = Some (xs ! i)"
  by (simp add: vec_get_def)

lemma vec_get_out [simp]: "length xs \<le> i \<Longrightarrow> vec_get xs i = None"
  by (simp add: vec_get_def)

lemma vec_get_update: "vec_get (xs[i := v]) j = (if i = j \<and> i < length xs then Some v else vec_get xs j)"
  by (auto simp: vec_get_def nth_list_update)

lemma vec_get_append_one: "vec_get (xs @ [v]) j = (if j = length xs then Some v else vec_get xs j)"
  by (auto simp: vec_get_def nth_append less_Suc_eq)

lemma vec_get_Some_less: "vec_get xs i = Some v \<Longrightarrow> i < length xs"
  by (simp add: vec_get_def split: if_splits)

text \<open>The index of the first element of a vector that satisfies a predicate.\<close>

fun first_index :: "('a \<Rightarrow> bool) \<Rightarrow> 'a list \<Rightarrow> nat option" where
  "first_index P [] = None"
| "first_index P (x # xs) = (if P x then Some 0 else map_option Suc (first_index P xs))"

lemma first_index_Some:
  "first_index P xs = Some i \<Longrightarrow> i < length xs \<and> P (xs ! i) \<and> (\<forall>j < i. \<not> P (xs ! j))"
proof (induction xs arbitrary: i)
  case (Cons x xs)
  then show ?case
    by (auto split: if_splits simp: less_Suc_eq_0_disj)
qed simp

lemma first_index_None: "first_index P xs = None \<longleftrightarrow> (\<forall>x \<in> set xs. \<not> P x)"
  by (induction xs) auto

section \<open>Byte ranges of a buffer\<close>

text \<open>\<open>vslice i n xs\<close> is \<open>&xs[i..i+n]\<close>; \<open>overwrite i ys xs\<close> is
  \<open>xs[i..i+ys.len()].copy_from_slice(ys)\<close>, both for a range inside the buffer.\<close>

definition vslice :: "nat \<Rightarrow> nat \<Rightarrow> 'a list \<Rightarrow> 'a list" where
  "vslice i n xs = take n (drop i xs)"

definition overwrite :: "nat \<Rightarrow> 'a list \<Rightarrow> 'a list \<Rightarrow> 'a list" where
  "overwrite i ys xs = take i xs @ ys @ drop (i + length ys) xs"

lemma length_vslice [simp]: "length (vslice i n xs) = min n (length xs - i)"
  by (simp add: vslice_def)

lemma length_overwrite [simp]:
  "i + length ys \<le> length xs \<Longrightarrow> length (overwrite i ys xs) = length xs"
  by (simp add: overwrite_def)

lemma nth_vslice: "k < n \<Longrightarrow> i + k < length xs \<Longrightarrow> vslice i n xs ! k = xs ! (i + k)"
  by (simp add: vslice_def)

lemma nth_overwrite:
  assumes "i + length ys \<le> length xs" "k < length xs"
  shows "overwrite i ys xs ! k = (if i \<le> k \<and> k < i + length ys then ys ! (k - i) else xs ! k)"
proof -
  have "\<not> k < i \<Longrightarrow> \<not> k < i + length ys \<Longrightarrow> i + length ys + (k - i - length ys) = k"
    by simp
  with assms show ?thesis
    by (auto simp: overwrite_def nth_append)
qed

lemma overwrite_Nil [simp]: "overwrite i [] xs = xs"
  by (simp add: overwrite_def)

lemma vslice_overwrite_same:
  assumes "i + length ys \<le> length xs"
  shows "vslice i (length ys) (overwrite i ys xs) = ys"
  using assms by (simp add: vslice_def overwrite_def)

lemma vslice_overwrite_disjoint:
  assumes "i + length ys \<le> length xs" "j + n \<le> i \<or> i + length ys \<le> j" "j + n \<le> length xs"
  shows "vslice j n (overwrite i ys xs) = vslice j n xs"
  using assms by (intro nth_equalityI) (auto simp: nth_vslice nth_overwrite)

lemma overwrite_overwrite_adjacent:
  assumes "i + length ys + length zs \<le> length xs"
  shows "overwrite (i + length ys) zs (overwrite i ys xs) = overwrite i (ys @ zs) xs"
  using assms by (intro nth_equalityI) (auto simp: nth_overwrite nth_append)

lemma vslice_append_adjacent:
  "vslice i (m + n) xs = vslice i m xs @ vslice (i + m) n xs"
  by (simp add: vslice_def take_add add.commute)

lemma vslice_slice: "i + n \<le> m \<Longrightarrow> vslice i n (vslice j m xs) = vslice (j + i) n xs"
  by (simp add: vslice_def take_drop add.commute min_def)

lemma vslice_all [simp]: "vslice 0 (length xs) xs = xs"
  by (simp add: vslice_def)

lemma vslice_zero [simp]: "vslice i 0 xs = []"
  by (simp add: vslice_def)

section \<open>Machine words\<close>

lemma unat_word_of_nat_lt [simp]:
  "n < 2 ^ LENGTH('a::len) \<Longrightarrow> unat (word_of_nat n :: 'a word) = n"
  by (simp add: unat_of_nat take_bit_nat_eq_self)

lemma word_of_nat_inject:
  "m < 2 ^ LENGTH('a::len) \<Longrightarrow> n < 2 ^ LENGTH('a) \<Longrightarrow>
   (word_of_nat m :: 'a word) = word_of_nat n \<longleftrightarrow> m = n"
  by (metis unat_word_of_nat_lt)

end
