(* ===== verification/Hostcall.thy ===== *)
theory Hostcall
  imports Rust_Prelude
begin

text \<open>
  The host call interface between a user function, the LibOS services and the visor:
  the call identifiers and the service each belongs to (\<open>as_hostcall/src/lib.rs\<close>), the
  per-service isolation context (\<open>as_std/src/init_context.rs\<close>, \<open>heap_alloc.rs\<close>) and the
  table of resolved entry addresses (\<open>as_std/src/libos/mod.rs\<close>).
\<close>

section \<open>Identifiers of host calls\<close>

datatype CommonHostCall =
    Metric | FsImage | SpawnFaultThread | Write | Read | Open | Close | Lseek | Stat
    | ReadDir | Connect | Socket | Bind | Accept | Stdout | FatfsOpen | FatfsWrite
    | FatfsRead | FatfsClose | FatfsSeek | FatfsStat | SmoltcpAddrInfo | SmoltcpConnect
    | SmoltcpSend | SmoltcpRecv | SmoltcpBind | SmoltcpAccept | SmoltcpClose | BufferAlloc
    | AccessBuffer | BufferDealloc | Mmap | Munmap | Mprotect | RegisterFileBackend
    | UnregisterFileBackend | FilePageFaultHandler | GetTime | NanoSleep | SigAction

text \<open>\<open>Display\<close> gives the symbol that is looked up in the service library.\<close>

fun display_hostcall :: "CommonHostCall \<Rightarrow> string" where
  "display_hostcall Metric = ''metric''"
| "display_hostcall FsImage = ''fs_image''"
| "display_hostcall SpawnFaultThread = ''spawn_fault_thread''"
| "display_hostcall Write = ''write''"
| "display_hostcall Read = ''read''"
| "display_hostcall Open = ''open''"
| "display_hostcall Close = ''close''"
| "display_hostcall Lseek = ''lseek''"
| "display_hostcall Stat = ''stat''"
| "display_hostcall ReadDir = ''readdir''"
| "display_hostcall Connect = ''connect''"
| "display_hostcall Socket = ''socket''"
| "display_hostcall Bind = ''bind''"
| "display_hostcall Accept = ''accept''"
| "display_hostcall Stdout = ''host_stdout''"
| "display_hostcall FatfsOpen = ''fatfs_open''"
| "display_hostcall FatfsWrite = ''fatfs_write''"
| "display_hostcall FatfsRead = ''fatfs_read''"
| "display_hostcall FatfsClose = ''fatfs_close''"
| "display_hostcall FatfsSeek = ''fatfs_seek''"
| "display_hostcall FatfsStat = ''fatfs_stat''"
| "display_hostcall SmoltcpAddrInfo = ''addrinfo''"
| "display_hostcall SmoltcpConnect = ''smol_connect''"
| "display_hostcall SmoltcpSend = ''smol_send''"
| "display_hostcall SmoltcpRecv = ''smol_recv''"
| "display_hostcall SmoltcpBind = ''smol_bind''"
| "display_hostcall SmoltcpAccept = ''smol_accept''"
| "display_hostcall SmoltcpClose = ''smol_close''"
| "display_hostcall BufferAlloc = ''buffer_alloc''"
| "display_hostcall AccessBuffer = ''access_buffer''"
| "display_hostcall BufferDealloc = ''buffer_dealloc''"
| "display_hostcall Mmap = ''libos_mmap''"
| "display_hostcall Munmap = ''libos_munmap''"
| "display_hostcall Mprotect = ''libos_mprotect''"
| "display_hostcall RegisterFileBackend = ''register_file_backend''"
| "display_hostcall UnregisterFileBackend = ''unregister_file_backend''"
| "display_hostcall FilePageFaultHandler = ''file_page_fault_handler''"
| "display_hostcall GetTime = ''get_time''"
| "display_hostcall NanoSleep = ''host_nanosleep''"
| "display_hostcall SigAction = ''libos_sigaction''"

datatype HostCallID = Common CommonHostCall | Custom string

fun common_belong_to :: "CommonHostCall \<Rightarrow> string" where
  "common_belong_to Metric = ''''"
| "common_belong_to FsImage = ''''"
| "common_belong_to SpawnFaultThread = ''''"
| "common_belong_to Write = ''fdtab''"
| "common_belong_to Read = ''fdtab''"
| "common_belong_to Open = ''fdtab''"
| "common_belong_to Close = ''fdtab''"
| "common_belong_to Lseek = ''fdtab''"
| "common_belong_to Stat = ''fdtab''"
| "common_belong_to ReadDir = ''fdtab''"
| "common_belong_to Connect = ''fdtab''"
| "common_belong_to Socket = ''fdtab''"
| "common_belong_to Bind = ''fdtab''"
| "common_belong_to Accept = ''fdtab''"
| "common_belong_to Stdout = ''stdio''"
| "common_belong_to FatfsOpen = ''fatfs''"
| "common_belong_to FatfsWrite = ''fatfs''"
| "common_belong_to FatfsRead = ''fatfs''"
| "common_belong_to FatfsClose = ''fatfs''"
| "common_belong_to FatfsSeek = ''fatfs''"
| "common_belong_to FatfsStat = ''fatfs''"
| "common_belong_to SmoltcpAddrInfo = ''socket''"
| "common_belong_to SmoltcpConnect = ''socket''"
| "common_belong_to SmoltcpSend = ''socket''"
| "common_belong_to SmoltcpRecv = ''socket''"
| "common_belong_to SmoltcpBind = ''socket''"
| "common_belong_to SmoltcpAccept = ''socket''"
| "common_belong_to SmoltcpClose = ''socket''"
| "common_belong_to BufferAlloc = ''mm''"
| "common_belong_to AccessBuffer = ''mm''"
| "common_belong_to BufferDealloc = ''mm''"
| "common_belong_to Mmap = ''mm''"
| "common_belong_to Munmap = ''mm''"
| "common_belong_to Mprotect = ''mm''"
| "common_belong_to RegisterFileBackend = ''mmap_file_backend''"
| "common_belong_to UnregisterFileBackend = ''mmap_file_backend''"
| "common_belong_to FilePageFaultHandler = ''mmap_file_backend''"
| "common_belong_to GetTime = ''time''"
| "common_belong_to NanoSleep = ''time''"
| "common_belong_to SigAction = ''signal''"

text \<open>\<open>belong_to\<close> of a custom call is \<open>todo!()\<close>, a panic.\<close>

fun belong_to :: "HostCallID \<Rightarrow> (unit, string) res" where
  "belong_to (Common c) = Ok (common_belong_to c)"
| "belong_to (Custom s) = Panic"

definition all_hostcalls :: "CommonHostCall list" where
  "all_hostcalls =
    [Metric, FsImage, SpawnFaultThread, Write, Read, Open, Close, Lseek, Stat, ReadDir
     , Connect, Socket, Bind, Accept, Stdout, FatfsOpen, FatfsWrite, FatfsRead, FatfsClose
     , FatfsSeek, FatfsStat, SmoltcpAddrInfo, SmoltcpConnect, SmoltcpSend, SmoltcpRecv
     , SmoltcpBind, SmoltcpAccept, SmoltcpClose, BufferAlloc, AccessBuffer, BufferDealloc
     , Mmap, Munmap, Mprotect, RegisterFileBackend, UnregisterFileBackend
     , FilePageFaultHandler, GetTime, NanoSleep, SigAction]"

section \<open>The isolation context of a service\<close>

record IsolationContext =
  isol_id :: u64
  find_handler :: u64
  panic_handler :: u64
  heap_range :: "u64 \<times> u64"

definition uninit :: IsolationContext where
  "uninit = \<lparr>isol_id = 0, find_handler = 0, panic_handler = 0, heap_range = (0, 0)\<rparr>"

definition SERVICE_HEAP_SIZE :: u64 where
  "SERVICE_HEAP_SIZE = 4 * 1024 * 1024 * 1024"

definition SERVICE_STACK_SIZE :: u64 where
  "SERVICE_STACK_SIZE = 8 * 1024 * 1024"

text \<open>The statics of one loaded service library: \<open>ISOLATION_CTX\<close> and the range
  (start and size) that \<open>HEAP_ALLOCATOR\<close> manages, \<open>None\<close> while it is empty.\<close>

record ServiceStatics =
  ISOLATION_CTX :: IsolationContext
  HEAP_ALLOCATOR :: "(u64 \<times> u64) option"

definition fresh_statics :: ServiceStatics where
  "fresh_statics = \<lparr>ISOLATION_CTX = uninit, HEAP_ALLOCATOR = None\<rparr>"

definition isolation_ctx :: "ServiceStatics \<Rightarrow> (string, IsolationContext) res" where
  "isolation_ctx s = (if find_handler (ISOLATION_CTX s) = 0 then Panic else Ok (ISOLATION_CTX s))"

definition init_heap :: "u64 \<Rightarrow> ServiceStatics \<Rightarrow> ServiceStatics" where
  "init_heap heap_start s = s\<lparr>HEAP_ALLOCATOR := Some (heap_start, SERVICE_HEAP_SIZE)\<rparr>"

text \<open>\<open>alloc_def\<close> is the cargo feature that makes a service define its own allocator.\<close>

definition set_handler_addr ::
  "bool \<Rightarrow> IsolationContext \<Rightarrow> ServiceStatics \<Rightarrow> (unit, unit) res \<times> ServiceStatics" where
  "set_handler_addr alloc_def ctx s =
    (let old = find_handler (ISOLATION_CTX s) in
     if old \<noteq> 0 \<and> old \<noteq> find_handler ctx then (Panic, s)
     else
       (let s' = s\<lparr>ISOLATION_CTX := ctx\<rparr> in
        (Ok (), if alloc_def then init_heap (fst (heap_range ctx)) s' else s')))"

definition get_handler_addr :: "ServiceStatics \<Rightarrow> (string, u64) res" where
  "get_handler_addr s = map_ok find_handler (isolation_ctx s)"

section \<open>The table of resolved entry addresses\<close>

text \<open>The fields of the struct \<open>UserHostCall\<close>; a table value gives each field its
  \<open>Option<usize>\<close>.\<close>

datatype UserHostCallField =
    metric_addr | fs_image_addr | spawn_thread | write_addr | open_addr | read_addr
    | close_addr | lseek_addr | stat_addr | readdir_addr | connect_addr | socket_addr
    | bind_addr | accept_addr | stdout_addr | fatfs_open_addr | fatfs_write_addr
    | fatfs_read_addr | fatfs_close_addr | fatfs_seek_addr | fatfs_stat_addr
    | smoltcp_addrinfo_addr | smoltcp_connect_addr | smoltcp_send_addr | smoltcp_recv_addr
    | smoltcp_bind_addr | smoltcp_accept_addr | smoltcp_close_addr | alloc_buffer_addr
    | access_buffer_addr | dealloc_buffer_addr | mmap_addr | munmap_addr | mprotect_addr
    | pf_handler_addr | register_file_backend_addr | unregister_file_backend_addr
    | get_time_addr | nanosleep_addr | sigaction_addr

type_synonym UserHostCall = "UserHostCallField \<Rightarrow> u64 option"

definition UserHostCall_new :: UserHostCall where
  "UserHostCall_new = (\<lambda>_. None)"

fun entry_addr :: "CommonHostCall \<Rightarrow> UserHostCallField" where
  "entry_addr Metric = metric_addr"
| "entry_addr FsImage = fs_image_addr"
| "entry_addr SpawnFaultThread = spawn_thread"
| "entry_addr Write = write_addr"
| "entry_addr Open = open_addr"
| "entry_addr Read = read_addr"
| "entry_addr Close = close_addr"
| "entry_addr Lseek = lseek_addr"
| "entry_addr Stat = stat_addr"
| "entry_addr ReadDir = readdir_addr"
| "entry_addr Connect = connect_addr"
| "entry_addr Socket = socket_addr"
| "entry_addr Bind = bind_addr"
| "entry_addr Accept = accept_addr"
| "entry_addr Stdout = stdout_addr"
| "entry_addr FatfsOpen = fatfs_open_addr"
| "entry_addr FatfsWrite = fatfs_write_addr"
| "entry_addr FatfsRead = fatfs_read_addr"
| "entry_addr FatfsClose = fatfs_close_addr"
| "entry_addr FatfsSeek = fatfs_seek_addr"
| "entry_addr FatfsStat = fatfs_stat_addr"
| "entry_addr SmoltcpAddrInfo = smoltcp_addrinfo_addr"
| "entry_addr SmoltcpConnect = smoltcp_connect_addr"
| "entry_addr SmoltcpSend = smoltcp_send_addr"
| "entry_addr SmoltcpRecv = smoltcp_recv_addr"
| "entry_addr SmoltcpBind = smoltcp_bind_addr"
| "entry_addr SmoltcpAccept = smoltcp_accept_addr"
| "entry_addr SmoltcpClose = smoltcp_close_addr"
| "entry_addr BufferAlloc = alloc_buffer_addr"
| "entry_addr AccessBuffer = access_buffer_addr"
| "entry_addr BufferDealloc = dealloc_buffer_addr"
| "entry_addr Mmap = mmap_addr"
| "entry_addr Munmap = munmap_addr"
| "entry_addr Mprotect = mprotect_addr"
| "entry_addr RegisterFileBackend = register_file_backend_addr"
| "entry_addr UnregisterFileBackend = unregister_file_backend_addr"
| "entry_addr FilePageFaultHandler = pf_handler_addr"
| "entry_addr GetTime = get_time_addr"
| "entry_addr NanoSleep = nanosleep_addr"
| "entry_addr SigAction = sigaction_addr"

text \<open>\<open>get_or_find\<close>: \<open>find_hc\<close> is the visor function at \<open>find_handler\<close>, run on the visor's
  state \<open>w\<close>. The address is stored in the entry of the call.\<close>

definition get_or_find ::
  "(u64 \<Rightarrow> HostCallID \<Rightarrow> 'w \<Rightarrow> (string, u64) res \<times> 'w) \<Rightarrow> ServiceStatics \<Rightarrow> CommonHostCall \<Rightarrow>
   UserHostCall \<times> 'w \<Rightarrow> (string, u64) res \<times> UserHostCall \<times> 'w" where
  "get_or_find find_hc s chc_id = (\<lambda>(table, w).
    case table (entry_addr chc_id) of
      Some addr \<Rightarrow> (Ok addr, table, w)
    | None \<Rightarrow>
        (case isolation_ctx s of
           Ok ctx \<Rightarrow>
             (case find_hc (isol_id ctx) (Common chc_id) w of
                (Ok addr, w') \<Rightarrow> (Ok addr, table(entry_addr chc_id \<mapsto> addr), w')
              | (Err e, w') \<Rightarrow> (Err e, table, w')
              | (Panic, w') \<Rightarrow> (Panic, table, w'))
         | Err e \<Rightarrow> (Err e, table, w)
         | Panic \<Rightarrow> (Panic, table, w)))"


text \<open>A run of several calls from one service, in order.\<close>

fun resolve_all ::
  "(u64 \<Rightarrow> HostCallID \<Rightarrow> 'w \<Rightarrow> (string, u64) res \<times> 'w) \<Rightarrow> ServiceStatics \<Rightarrow> CommonHostCall list \<Rightarrow>
   UserHostCall \<times> 'w \<Rightarrow> (string, u64) res list \<times> UserHostCall \<times> 'w" where
  "resolve_all find_hc s [] tw = ([], tw)"
| "resolve_all find_hc s (c # cs) tw =
    (case get_or_find find_hc s c tw of
       (r, tw') \<Rightarrow> (case resolve_all find_hc s cs tw' of (rs, tw'') \<Rightarrow> (r # rs, tw'')))"

text \<open>Every cached address is the one the visor has for that call.\<close>

definition cache_agrees ::
  "(u64 \<Rightarrow> CommonHostCall \<Rightarrow> 'w \<Rightarrow> u64 option) \<Rightarrow> u64 \<Rightarrow> UserHostCall \<times> 'w \<Rightarrow> bool" where
  "cache_agrees resolved i tw =
    (\<forall>c a. fst tw (entry_addr c) = Some a \<longrightarrow> resolved i c (snd tw) = Some a)"

section \<open>Identifiers are told apart\<close>

lemma all_hostcalls_complete: "c \<in> set all_hostcalls"
  by (cases c) (simp_all add: all_hostcalls_def)

lemma inj_via_all_hostcalls:
  assumes "distinct (map f all_hostcalls)"
  shows "f c = f d \<longleftrightarrow> c = d"
  using assms all_hostcalls_complete by (auto simp: distinct_map inj_on_def)

lemma entry_addr_inj [simp]: "entry_addr c = entry_addr d \<longleftrightarrow> c = d"
  by (rule inj_via_all_hostcalls) (simp add: all_hostcalls_def)

lemma display_hostcall_inj [simp]: "display_hostcall c = display_hostcall d \<longleftrightarrow> c = d"
  by (rule inj_via_all_hostcalls) (simp add: all_hostcalls_def)

section \<open>The contract of a resolver\<close>

text \<open>
  What \<open>get_or_find\<close> relies on: the visor's answer to a call is the address it holds
  for that call from then on, whatever it is asked afterwards.
\<close>

locale hostcall_resolver =
  fixes find_hc :: "u64 \<Rightarrow> HostCallID \<Rightarrow> 'w \<Rightarrow> (string, u64) res \<times> 'w"
    and resolved :: "u64 \<Rightarrow> CommonHostCall \<Rightarrow> 'w \<Rightarrow> u64 option"
  assumes find_resolves: "find_hc i (Common c) w = (Ok a, w') \<Longrightarrow> resolved i c w' = Some a"
    and find_keeps: "find_hc j h w = (r, w') \<Longrightarrow> resolved i c w = Some a \<Longrightarrow> resolved i c w' = Some a"
begin

lemma new_table_agrees: "cache_agrees resolved i (UserHostCall_new, w)"
  by (simp add: cache_agrees_def UserHostCall_new_def)

lemma other_find_keeps_agreement:
  "cache_agrees resolved i (t, w) \<Longrightarrow> find_hc j h w = (r, w') \<Longrightarrow> cache_agrees resolved i (t, w')"
  by (auto simp: cache_agrees_def dest: find_keeps)

lemma get_or_find_agrees:
  assumes "cache_agrees resolved (isol_id (ISOLATION_CTX s)) tw"
    and "get_or_find find_hc s c tw = (r, tw')"
  shows "cache_agrees resolved (isol_id (ISOLATION_CTX s)) tw'"
  using assms
  by (cases tw)
    (auto simp: get_or_find_def isolation_ctx_def cache_agrees_def
      split: option.splits if_splits res.splits prod.splits;
     metis find_keeps find_resolves)

lemma get_or_find_answer:
  assumes "cache_agrees resolved (isol_id (ISOLATION_CTX s)) tw"
    and "get_or_find find_hc s c tw = (Ok a, tw')"
  shows "resolved (isol_id (ISOLATION_CTX s)) c (snd tw') = Some a"
  using assms
  by (cases tw)
    (auto simp: get_or_find_def isolation_ctx_def cache_agrees_def
      split: option.splits if_splits res.splits prod.splits
      intro: find_resolves)

lemma get_or_find_keeps_resolved:
  assumes "get_or_find find_hc s c tw = (r, tw')" and "resolved i d (snd tw) = Some a"
  shows "resolved i d (snd tw') = Some a"
  using assms
  by (cases tw)
    (auto simp: get_or_find_def split: option.splits res.splits prod.splits dest: find_keeps)

lemma resolve_all_keeps_resolved:
  assumes "resolve_all find_hc s cs tw = (rs, tw')" and "resolved i d (snd tw) = Some a"
  shows "resolved i d (snd tw') = Some a"
  using assms
proof (induction cs arbitrary: tw rs)
  case (Cons c cs)
  from Cons.prems show ?case
    by (auto split: prod.splits dest: get_or_find_keeps_resolved intro: Cons.IH)
qed simp

text \<open>All the answers of a run agree with what the visor holds when it ends.\<close>

lemma resolve_all_answers:
  assumes "cache_agrees resolved (isol_id (ISOLATION_CTX s)) tw"
    and "resolve_all find_hc s cs tw = (rs, tw')"
    and "k < length cs" and "rs ! k = Ok a"
  shows "resolved (isol_id (ISOLATION_CTX s)) (cs ! k) (snd tw') = Some a"
  using assms
proof (induction cs arbitrary: tw rs tw' k)
  case (Cons c cs)
  obtain r tw1 where one: "get_or_find find_hc s c tw = (r, tw1)"
    by (cases "get_or_find find_hc s c tw") auto
  obtain rs1 tw2 where rest: "resolve_all find_hc s cs tw1 = (rs1, tw2)"
    by (cases "resolve_all find_hc s cs tw1") auto
  have eqs: "rs = r # rs1" "tw' = tw2" using Cons.prems(2) one rest by auto
  show ?case
  proof (cases k)
    case 0
    with Cons.prems eqs get_or_find_answer[OF Cons.prems(1)] one
    have "resolved (isol_id (ISOLATION_CTX s)) c (snd tw1) = Some a" by simp
    with rest eqs 0 show ?thesis by (simp add: resolve_all_keeps_resolved)
  next
    case (Suc j)
    with Cons.prems eqs Cons.IH[OF get_or_find_agrees[OF Cons.prems(1) one] rest, of j]
    show ?thesis by simp
  qed
qed simp

end

section \<open>Caching\<close>

text \<open>A second lookup of a call answers from the table and does not enter the visor.\<close>

lemma get_or_find_hit:
  assumes "get_or_find find_hc s c tw = (Ok a, tw')"
  shows "get_or_find find_hc' s' c tw' = (Ok a, tw')"
  using assms
  by (cases tw)
    (auto simp: get_or_find_def split: option.splits res.splits prod.splits)

text \<open>Resolving one call leaves the entry of every other call alone.\<close>

lemma get_or_find_frame:
  assumes "get_or_find find_hc s c tw = (r, tw')" and "d \<noteq> c"
  shows "fst tw' (entry_addr d) = fst tw (entry_addr d)"
  using assms
  by (cases tw)
    (auto simp: get_or_find_def split: option.splits res.splits prod.splits)

section \<open>The isolation context\<close>

lemma set_handler_then_ctx:
  assumes "find_handler ctx \<noteq> 0"
    and "set_handler_addr alloc_def ctx s = (Ok (), s')"
  shows "isolation_ctx s' = Ok ctx \<and> get_handler_addr s' = Ok (find_handler ctx)"
  using assms
  by (auto simp: set_handler_addr_def Let_def isolation_ctx_def get_handler_addr_def init_heap_def
      split: if_splits)

lemma set_handler_other_visor:
  assumes "find_handler (ISOLATION_CTX s) \<noteq> 0" and "find_handler ctx \<noteq> find_handler (ISOLATION_CTX s)"
  shows "set_handler_addr alloc_def ctx s = (Panic, s)"
  using assms by (simp add: set_handler_addr_def)

end
