(* ===== verification/Mpk.thy ===== *)
theory Mpk
  imports Hostcall
begin

text \<open>
  Memory protection keys: allocation of keys and the PKRU values of the visor
  (\<open>libasvisor/src/mpk.rs\<close>, \<open>invoke_elf_symbol\<close> of \<open>service/elf_service.rs\<close>), and the
  PKRU switching around a LibOS call (\<open>as_std/src/mpk.rs\<close>, \<open>libos_with_switch_mpk\<close> of
  \<open>as_std/src/libos/utils.rs\<close>). PKRU has two bits per key, access disable and write
  disable; a key is open when both are clear.
\<close>

unbundle bit_operations_syntax

definition LIBOS_PKEY :: nat where
  "LIBOS_PKEY = 15"

section \<open>Allocation of keys\<close>

text \<open>\<open>must_init_all_pkeys\<close> asks the kernel for keys until it gets \<open>LIBOS_PKEY\<close>;
  \<open>pkey_alloc i\<close> is the kernel's answer to the \<open>i\<close>-th request.\<close>

fun init_pkeys_from :: "(nat \<Rightarrow> int) \<Rightarrow> nat list \<Rightarrow> (unit, unit) res" where
  "init_pkeys_from pkey_alloc [] = Ok ()"
| "init_pkeys_from pkey_alloc (i # is) =
    (if pkey_alloc i < 0 then Panic
     else if pkey_alloc i = int LIBOS_PKEY then Ok ()
     else init_pkeys_from pkey_alloc is)"

definition must_init_all_pkeys :: "(nat \<Rightarrow> int) \<Rightarrow> (unit, unit) res" where
  "must_init_all_pkeys pkey_alloc = init_pkeys_from pkey_alloc [0..<16]"

text \<open>\<open>must_pkey_alloc\<close> on the value of \<open>PKEY_COUNTER\<close>; \<open>pkey_per_func\<close> is the cargo
  feature. \<open>fetch_add\<close> has already moved the counter when the panic is raised.\<close>

definition must_pkey_alloc :: "bool \<Rightarrow> u64 \<Rightarrow> (unit, nat) res \<times> u64" where
  "must_pkey_alloc pkey_per_func counter =
    (if pkey_per_func then
       (if counter = 13 then (Panic, counter + 1) else (Ok (unat (counter + 1)), counter + 1))
     else (Ok 1, counter))"

fun pkey_allocs :: "bool \<Rightarrow> nat \<Rightarrow> u64 \<Rightarrow> (unit, nat) res list \<times> u64" where
  "pkey_allocs f 0 counter = ([], counter)"
| "pkey_allocs f (Suc n) counter =
    (case must_pkey_alloc f counter of
       (r, c) \<Rightarrow> (case pkey_allocs f n c of (rs, c') \<Rightarrow> (r # rs, c')))"

section \<open>PKRU values\<close>

definition pkey_mask :: "nat \<Rightarrow> u32" where
  "pkey_mask pkey = push_bit (2 * pkey) 3"

text \<open>\<open>grant_func_perm\<close>: the key has to be one of the sixteen.\<close>

definition grant_func_perm :: "u32 \<Rightarrow> int \<Rightarrow> (string, u32) res" where
  "grant_func_perm pkru pkey =
    (if 0 \<le> pkey \<and> pkey < 16 then Ok (pkru AND NOT (pkey_mask (nat pkey)))
     else Err ''Invalid pkey'')"

definition grant_libos_perm :: "u32 \<Rightarrow> u32" where
  "grant_libos_perm pkru = pkru AND NOT (pkey_mask LIBOS_PKEY)"

definition drop_libos_perm :: "u32 \<Rightarrow> u32" where
  "drop_libos_perm pkru = pkru OR pkey_mask LIBOS_PKEY"

text \<open>The PKRU value a user function is entered with.\<close>

definition user_pkru :: "int \<Rightarrow> (string, u32) res" where
  "user_pkru pkey = grant_func_perm 0xCFFFFFFC pkey"

definition key_open :: "u32 \<Rightarrow> nat \<Rightarrow> bool" where
  "key_open pkru k = (\<not> bit pkru (2 * k) \<and> \<not> bit pkru (2 * k + 1))"

definition key_closed :: "u32 \<Rightarrow> nat \<Rightarrow> bool" where
  "key_closed pkru k = (bit pkru (2 * k) \<and> bit pkru (2 * k + 1))"

section \<open>The switch around a LibOS call\<close>

text \<open>
  \<open>libos_with_switch_mpk\<close>: the machine state is the PKRU register and the state the
  called function works on. The register is written by \<open>wrpkru\<close> before the call; the
  second assembly block, after the call, loads the dropped value into \<open>rax\<close> and clears
  \<open>rcx\<close> and \<open>rdx\<close>, but holds no \<open>wrpkru\<close>.
\<close>

record MpkCpu =
  PKRU :: u32
  RAX :: u32

definition wrpkru :: "MpkCpu \<Rightarrow> MpkCpu" where
  "wrpkru cpu = cpu\<lparr>PKRU := RAX cpu\<rparr>"

definition libos_with_switch_mpk ::
  "(MpkCpu \<times> 'w \<Rightarrow> 'a \<times> MpkCpu \<times> 'w) \<Rightarrow> MpkCpu \<times> 'w \<Rightarrow> 'a \<times> MpkCpu \<times> 'w" where
  "libos_with_switch_mpk call = (\<lambda>(cpu, w).
    let pkru = PKRU cpu;
        is_privilege_level = (drop_bit 30 pkru = 0);
        pkru' = grant_libos_perm pkru;
        cpu1 = wrpkru (cpu\<lparr>RAX := pkru'\<rparr>)
    in (case call (cpu1, w) of
          (r, cpu2, w') \<Rightarrow>
            (r, if \<not> is_privilege_level then cpu2\<lparr>RAX := drop_libos_perm pkru'\<rparr> else cpu2, w')))"

section \<open>Bits of the masks\<close>

lemma bit_three: "bit (3 :: int) n \<longleftrightarrow> n = 0 \<or> n = 1"
proof -
  have "(3 :: int) = mask 2" by (simp add: mask_eq_exp_minus_1)
  moreover have "bit (mask 2 :: int) n \<longleftrightarrow> n < 2" by (rule bit_mask_iff [where 'a = int, simplified])
  ultimately show ?thesis by auto
qed

lemma bit_pkey_mask [simp]:
  "bit (pkey_mask k) n \<longleftrightarrow> n < 32 \<and> (n = 2 * k \<or> n = 2 * k + 1)"
  by (auto simp: pkey_mask_def bit_push_bit_iff bit_three)

lemma key_bounds: "k < 16 \<Longrightarrow> 2 * k < 32 \<and> 2 * k + 1 < (32 :: nat)"
  by auto

lemma clear_mask_opens: "k < 16 \<Longrightarrow> key_open (pkru AND NOT (pkey_mask k)) k"
  by (simp add: key_open_def bit_and_iff bit_not_iff)

lemma clear_mask_frame:
  assumes "j < 16" "j \<noteq> k"
  shows "key_open (pkru AND NOT (pkey_mask k)) j = key_open pkru j"
    and "key_closed (pkru AND NOT (pkey_mask k)) j = key_closed pkru j"
proof -
  have "2 * j + 1 \<noteq> 2 * k" "2 * j \<noteq> Suc (2 * k)" by presburger+
  with assms show "key_open (pkru AND NOT (pkey_mask k)) j = key_open pkru j"
    and "key_closed (pkru AND NOT (pkey_mask k)) j = key_closed pkru j"
    by (auto simp: key_open_def key_closed_def bit_and_iff bit_not_iff)
qed

lemma set_mask_closes: "k < 16 \<Longrightarrow> key_closed (pkru OR pkey_mask k) k"
  by (simp add: key_closed_def bit_or_iff)

lemma closed_not_open: "key_closed p k \<Longrightarrow> \<not> key_open p k"
  by (simp add: key_open_def key_closed_def)

text \<open>Dropping after granting restores a register in which the LibOS key was closed.\<close>

lemma drop_after_grant:
  assumes "key_closed p LIBOS_PKEY"
  shows "drop_libos_perm (grant_libos_perm p) = p"
proof (rule bit_word_eqI)
  fix n assume "n < LENGTH(32)"
  with assms show "bit (drop_libos_perm (grant_libos_perm p)) n = bit p n"
    by (auto simp: drop_libos_perm_def grant_libos_perm_def key_closed_def LIBOS_PKEY_def
        bit_or_iff bit_and_iff bit_not_iff)
qed


section \<open>Keys handed out\<close>

lemma pkey_allocs_first_keys:
  "c + n \<le> 13 \<Longrightarrow>
   pkey_allocs True n (word_of_nat c) = (map Ok [Suc c..<Suc (c + n)], word_of_nat (c + n))"
proof (induction n arbitrary: c)
  case (Suc n)
  have ne: "(word_of_nat c :: u64) \<noteq> 13"
    using Suc.prems word_of_nat_inject [of c 13, where 'a = 64] by auto
  have succ: "(word_of_nat c + 1 :: u64) = word_of_nat (Suc c)" by simp
  have "unat (word_of_nat (Suc c) :: u64) = Suc c"
    using Suc.prems by (intro unat_word_of_nat_lt) simp
  with ne succ Suc.IH [of "Suc c"] Suc.prems show ?case
    by (simp add: must_pkey_alloc_def upt_conv_Cons del: of_nat_Suc)
qed simp

lemma init_pkeys_from_ok:
  "init_pkeys_from f is = Ok () \<longleftrightarrow>
   (\<forall>k < length is. f (is ! k) < 0 \<longrightarrow> (\<exists>j < k. f (is ! j) = int LIBOS_PKEY))"
proof (induction "is")
  case (Cons i "is")
  show ?case
  proof (cases "f i < 0 \<or> f i = int LIBOS_PKEY")
    case True
    then show ?thesis by (auto simp: LIBOS_PKEY_def nth_Cons' intro!: exI [of _ 0])
  next
    case False
    with Cons.IH show ?thesis
      by (auto simp: All_less_Suc2 Ex_less_Suc2)
  qed
qed simp

section \<open>Properties\<close>

text \<open>C26: A user function with protection key k is entered with a PKRU value in which
  exactly the default key 0, the data buffer key 14 and its own key k are open; every
  other key, that of the LibOS among them, is closed.\<close>

theorem user_pkru_opens_own_keys:
  assumes "k < 16"
  shows "\<exists>p. user_pkru (int k) = Ok p \<and>
    (\<forall>j. j < 16 \<longrightarrow> (if j = 0 \<or> j = 14 \<or> j = k then key_open p j else key_closed p j))"
proof -
  let ?p = "(0xCFFFFFFC :: u32) AND NOT (pkey_mask k)"
  have base: "j < 16 \<Longrightarrow> (if j = 0 \<or> j = 14 then key_open 0xCFFFFFFC j else key_closed 0xCFFFFFFC j)" for j
  proof -
    have "\<forall>j \<in> set [0..<16]. if j = 0 \<or> j = 14 then key_open 0xCFFFFFFC j else key_closed 0xCFFFFFFC j"
      by code_simp
    then show "j < 16 \<Longrightarrow> (if j = 0 \<or> j = 14 then key_open 0xCFFFFFFC j else key_closed 0xCFFFFFFC j)"
      by simp
  qed
  have "if j = 0 \<or> j = 14 \<or> j = k then key_open ?p j else key_closed ?p j" if "j < 16" for j
    using base [OF that] clear_mask_opens [OF assms] clear_mask_frame [OF that, of k]
    by (cases "j = k") (auto split: if_splits)
  with assms show ?thesis by (simp add: user_pkru_def grant_func_perm_def)
qed

theorem user_pkru_opens_own_keys_witness:
  "(3 :: nat) < 16 \<and> (\<exists>p. user_pkru (int 3) = Ok p \<and>
    (\<forall>j. j < 16 \<longrightarrow> (if j = 0 \<or> j = 14 \<or> j = 3 then key_open p j else key_closed p j)))"
  using user_pkru_opens_own_keys [of 3] by simp

text \<open>C29: A LibOS call through the switching macro runs with the LibOS key open and every
  other key as the caller had it, and since the block after the call does not execute
  \<open>wrpkru\<close>, a caller that had the LibOS key closed has it open when the call returns.\<close>

theorem switch_leaves_libos_open:
  assumes "\<And>c w. PKRU (fst (snd (call (c, w)))) = PKRU c"
  shows "\<exists>seen. libos_with_switch_mpk call (cpu, w) =
        (fst (call (seen, w)), fst (snd (libos_with_switch_mpk call (cpu, w))), snd (snd (call (seen, w))))
      \<and> key_open (PKRU seen) LIBOS_PKEY
      \<and> (\<forall>j < 15. key_open (PKRU seen) j = key_open (PKRU cpu) j)
      \<and> key_open (PKRU (fst (snd (libos_with_switch_mpk call (cpu, w))))) LIBOS_PKEY"
proof -
  let ?seen = "wrpkru (cpu\<lparr>RAX := grant_libos_perm (PKRU cpu)\<rparr>)"
  obtain r cpu2 w2 where call: "call (?seen, w) = (r, cpu2, w2)" by (cases "call (?seen, w)") auto
  have kept: "PKRU cpu2 = PKRU ?seen" using assms [of ?seen w] call by simp
  have opened: "key_open (PKRU ?seen) LIBOS_PKEY"
    by (simp add: wrpkru_def grant_libos_perm_def clear_mask_opens LIBOS_PKEY_def)
  have frame: "\<forall>j < 15. key_open (PKRU ?seen) j = key_open (PKRU cpu) j"
    by (simp add: wrpkru_def grant_libos_perm_def clear_mask_frame LIBOS_PKEY_def)
  from call kept opened frame show ?thesis
    by (intro exI [of _ ?seen]) (simp add: libos_with_switch_mpk_def Let_def)
qed

theorem switch_leaves_libos_open_witness:
  "key_closed (PKRU \<lparr>PKRU = 0xCFFFFFF0, RAX = 0\<rparr>) LIBOS_PKEY \<and>
   key_open (PKRU (fst (snd (libos_with_switch_mpk (\<lambda>(c, w). (w + 1, c, w + 1))
      (\<lparr>PKRU = 0xCFFFFFF0, RAX = 0\<rparr>, 7 :: nat))))) LIBOS_PKEY"
proof
  show "key_closed (PKRU \<lparr>PKRU = 0xCFFFFFF0, RAX = 0\<rparr>) LIBOS_PKEY" by code_simp
  show "key_open (PKRU (fst (snd (libos_with_switch_mpk (\<lambda>(c, w). (w + 1, c, w + 1))
      (\<lparr>PKRU = 0xCFFFFFF0, RAX = 0\<rparr>, 7 :: nat))))) LIBOS_PKEY"
    using switch_leaves_libos_open [of "\<lambda>(c, w). (w + 1, c, w + 1 :: nat)"
        "\<lparr>PKRU = 0xCFFFFFF0, RAX = 0\<rparr>" 7] by auto
qed

text \<open>With a key per function, the first n \<open>\<le>\<close> 13 functions get the distinct keys 1 to n
  in order, so never the key of the data buffer or of the LibOS; the fourteenth request
  panics, and the fifteenth is answered with 15, the key of the LibOS.\<close>

theorem pkey_per_func_keys:
  shows "(n \<le> 13 \<longrightarrow> fst (pkey_allocs True n 0) = map Ok [1..<Suc n])
    \<and> fst (pkey_allocs True 15 0) = map Ok [1..<14] @ [Panic, Ok LIBOS_PKEY]"
proof
  show "n \<le> 13 \<longrightarrow> fst (pkey_allocs True n 0) = map Ok [1..<Suc n]"
    using pkey_allocs_first_keys [of 0 n] by simp
  show "fst (pkey_allocs True 15 0) = map Ok [1..<14] @ [Panic, Ok LIBOS_PKEY]"
    by code_simp
qed

theorem pkey_per_func_keys_witness:
  "(3 :: nat) \<le> 13 \<and> fst (pkey_allocs True 3 0) = map Ok [1..<Suc 3]"
  using pkey_per_func_keys [of 3] by simp

end
