(* ===== verification/Metric.thy ===== *)
theory Metric
  imports Rust_Prelude
begin

text \<open>
  The metric buckets of an isolation and of its services (\<open>libasvisor/src/metric.rs\<close>).
  A time stamp is the value the clock returned, a natural number of micro- or
  milliseconds (\<open>u128\<close> in the code); a subtraction below zero is the panic it is in Rust.
  The JSON text is not modelled, the values put into it are; the average is kept as the
  pair of the sum and the count it is the quotient of.
\<close>

datatype MetricEvent = IsolBegin | LoadService | IsolEnd | SvcInit | SvcRun | SvcEnd | Mem

record SvcMetricBucket =
  svc_name :: string
  svc_path :: string
  init_t :: nat
  run_t :: "nat list"
  svc_end_t :: "nat list"

record MetricBucket =
  svc_metrics :: "SvcMetricBucket list"
  begin_t :: nat
  end_t :: nat
  load_service_num :: u32
  mem_metrics :: "(nat \<times> nat) list"

definition MetricBucket_new :: MetricBucket where
  "MetricBucket_new =
    \<lparr>svc_metrics = [], begin_t = 0, end_t = 0, load_service_num = 0, mem_metrics = []\<rparr>"

definition SvcMetricBucket_new :: "string \<Rightarrow> string \<Rightarrow> SvcMetricBucket" where
  "SvcMetricBucket_new name path =
    \<lparr>svc_name = name, svc_path = path, init_t = 0, run_t = [], svc_end_t = []\<rparr>"

text \<open>\<open>new_svc_metric\<close> returns a shared bucket: its index in \<open>svc_metrics\<close>.\<close>

definition new_svc_metric :: "string \<Rightarrow> string \<Rightarrow> MetricBucket \<Rightarrow> nat \<times> MetricBucket" where
  "new_svc_metric name path b =
    (length (svc_metrics b), b\<lparr>svc_metrics := svc_metrics b @ [SvcMetricBucket_new name path]\<rparr>)"

fun metric_mark :: "MetricEvent \<Rightarrow> nat \<Rightarrow> MetricBucket \<Rightarrow> (unit, MetricBucket) res" where
  "metric_mark LoadService now b =
    (if load_service_num b = - 1 then Panic
     else Ok (b\<lparr>load_service_num := load_service_num b + 1\<rparr>))"
| "metric_mark Mem now b = Ok (b\<lparr>mem_metrics := mem_metrics b @ [(now, 0)]\<rparr>)"
| "metric_mark IsolBegin now b = (if begin_t b \<noteq> 0 then Panic else Ok (b\<lparr>begin_t := now\<rparr>))"
| "metric_mark IsolEnd now b = (if end_t b \<noteq> 0 then Panic else Ok (b\<lparr>end_t := now\<rparr>))"
| "metric_mark SvcInit now b = Panic"
| "metric_mark SvcRun now b = Panic"
| "metric_mark SvcEnd now b = Panic"

fun svc_mark :: "MetricEvent \<Rightarrow> nat \<Rightarrow> SvcMetricBucket \<Rightarrow> (unit, SvcMetricBucket) res" where
  "svc_mark SvcInit now m = Ok (if init_t m = 0 then m\<lparr>init_t := now\<rparr> else m)"
| "svc_mark SvcRun now m = Ok (m\<lparr>run_t := run_t m @ [now]\<rparr>)"
| "svc_mark SvcEnd now m = Ok (m\<lparr>svc_end_t := svc_end_t m @ [now]\<rparr>)"
| "svc_mark IsolBegin now m = Panic"
| "svc_mark LoadService now m = Panic"
| "svc_mark IsolEnd now m = Panic"
| "svc_mark Mem now m = Panic"

definition mark_svc :: "nat \<Rightarrow> MetricEvent \<Rightarrow> nat \<Rightarrow> MetricBucket \<Rightarrow> (unit, MetricBucket) res" where
  "mark_svc i ev now b =
    bind_res (unwrap_opt (vec_get (svc_metrics b) i)) (\<lambda>m.
    map_ok (\<lambda>m'. b\<lparr>svc_metrics := (svc_metrics b)[i := m']\<rparr>) (svc_mark ev now m))"

section \<open>Reports\<close>

definition checked_sub :: "nat \<Rightarrow> nat \<Rightarrow> (unit, nat) res" where
  "checked_sub a b = (if b \<le> a then Ok (a - b) else Panic)"

text \<open>One entry \<open>thread_idx\<close> of the service report: index, \<open>run_dur\<close> and \<open>init_dur\<close>.\<close>

fun thread_entries ::
  "nat \<Rightarrow> nat \<Rightarrow> (nat \<times> nat) list \<Rightarrow> (unit, (nat \<times> nat \<times> nat) list) res" where
  "thread_entries ini idx [] = Ok []"
| "thread_entries ini idx ((run, fin) # rest) =
    (if fin > 0 then
       bind_res (checked_sub fin run) (\<lambda>run_dur.
       bind_res (checked_sub run ini) (\<lambda>init_dur.
       map_ok (\<lambda>es. (idx, run_dur, init_dur) # es) (thread_entries ini (Suc idx) rest)))
     else thread_entries ini (Suc idx) rest)"

record SvcReport =
  rep_init :: nat
  rep_threads :: "(nat \<times> nat \<times> nat) list"
  rep_avg :: "(nat \<times> nat) option"

definition svc_to_json :: "SvcMetricBucket \<Rightarrow> (unit, SvcReport) res" where
  "svc_to_json m =
    map_ok (\<lambda>es.
      let durs = map (\<lambda>(_, d, _). d) es in
      \<lparr>rep_init = init_t m, rep_threads = es,
       rep_avg = (if durs \<noteq> [] then Some (sum_list durs, length durs) else None)\<rparr>)
    (thread_entries (init_t m) 0 (zip (run_t m) (svc_end_t m)))"

definition total_dur :: "MetricBucket \<Rightarrow> (unit, nat) res" where
  "total_dur b = checked_sub (end_t b) (begin_t b)"

datatype MetricOpt = MNone | MAll | MTotalDur | MMem

datatype MetricReport =
    ReportNone
  | ReportAll "SvcReport list" nat
  | ReportMem "(nat \<times> nat) list"
  | ReportTotalDur nat

fun collect_reports :: "SvcMetricBucket list \<Rightarrow> (unit, SvcReport list) res" where
  "collect_reports [] = Ok []"
| "collect_reports (m # ms) =
    bind_res (svc_to_json m) (\<lambda>r. map_ok (\<lambda>rs. r # rs) (collect_reports ms))"

fun analyze :: "MetricOpt \<Rightarrow> MetricBucket \<Rightarrow> (unit, MetricReport) res" where
  "analyze MNone b = Ok ReportNone"
| "analyze MAll b =
    bind_res (collect_reports (svc_metrics b)) (\<lambda>rs. map_ok (ReportAll rs) (total_dur b))"
| "analyze MMem b = Ok (ReportMem (mem_metrics b))"
| "analyze MTotalDur b = map_ok ReportTotalDur (total_dur b)"

section \<open>Events of a bucket\<close>

lemma mark_svc_Ok:
  assumes "mark_svc i ev now b = Ok b'"
  shows "\<exists>m'. i < length (svc_metrics b) \<and> svc_mark ev now (svc_metrics b ! i) = Ok m' \<and>
    b' = b\<lparr>svc_metrics := (svc_metrics b)[i := m']\<rparr>"
  using assms by (cases "i < length (svc_metrics b)") (auto simp: mark_svc_def res_simps)

lemma mark_svc_frame:
  assumes "mark_svc i ev now b = Ok b'"
  shows "length (svc_metrics b') = length (svc_metrics b)" "begin_t b' = begin_t b"
    "end_t b' = end_t b" "load_service_num b' = load_service_num b"
  using mark_svc_Ok [OF assms] by auto

lemma mark_svc_ok:
  "i < length (svc_metrics b) \<Longrightarrow> ev \<in> {SvcInit, SvcRun, SvcEnd} \<Longrightarrow> \<exists>b'. mark_svc i ev now b = Ok b'"
  by (auto simp: mark_svc_def)

text \<open>A service that always ends after it began, and began after its initialisation, is
  reported without a panic; the durations are the ones measured.\<close>

lemma thread_entries_ok:
  assumes "\<forall>(run, fin) \<in> set rs. ini \<le> run \<and> run \<le> fin \<and> 0 < fin"
  shows "thread_entries ini idx rs =
    Ok (map (\<lambda>(i, run, fin). (i, fin - run, run - ini)) (List.enumerate idx rs))"
  using assms by (induction rs arbitrary: idx) (auto simp: checked_sub_def)

end
