(* ===== verification/Btree_Map.thy ===== *)
theory Btree_Map
  imports Rust_Prelude "HOL-Library.List_Lexorder" "HOL-Library.Char_ord"
begin

text \<open>
  The ordered maps of the Rust standard library: a \<open>BTreeMap\<close> is the list of its entries
  in the order its iterator visits them, by strictly increasing key. \<open>BTreeMap::insert\<close>,
  \<open>get\<close>, \<open>remove\<close> and \<open>extend\<close> are given on that list, and a locale states what the code
  relies on, so that any other map representation can be used in the same way.
\<close>

type_synonym ('k, 'v) btree = "('k \<times> 'v) list"

fun btree_insert :: "'k::linorder \<Rightarrow> 'v \<Rightarrow> ('k, 'v) btree \<Rightarrow> ('k, 'v) btree" where
  "btree_insert k v [] = [(k, v)]"
| "btree_insert k v ((a, b) # m) =
    (if k < a then (k, v) # (a, b) # m
     else if k = a then (a, v) # m
     else (a, b) # btree_insert k v m)"

fun btree_remove :: "'k::linorder \<Rightarrow> ('k, 'v) btree \<Rightarrow> ('k, 'v) btree" where
  "btree_remove k [] = []"
| "btree_remove k ((a, b) # m) = (if k = a then m else (a, b) # btree_remove k m)"

definition btree_get :: "('k, 'v) btree \<Rightarrow> 'k \<Rightarrow> 'v option" where
  "btree_get m k = map_of m k"

fun btree_extend :: "('k::linorder, 'v) btree \<Rightarrow> ('k, 'v) btree \<Rightarrow> ('k, 'v) btree" where
  "btree_extend m [] = m"
| "btree_extend m ((k, v) # n) = btree_extend (btree_insert k v m) n"

definition btree_ok :: "('k::linorder, 'v) btree \<Rightarrow> bool" where
  "btree_ok m = sorted_wrt (<) (map fst m)"

section \<open>What clients rely on\<close>

locale ordered_map =
  fixes get :: "'m \<Rightarrow> 'k \<Rightarrow> 'v option"
    and insert_entry :: "'k \<Rightarrow> 'v \<Rightarrow> 'm \<Rightarrow> 'm"
    and remove_entry :: "'k \<Rightarrow> 'm \<Rightarrow> 'm"
    and ok :: "'m \<Rightarrow> bool"
  assumes get_insert: "ok m \<Longrightarrow> get (insert_entry k v m) k' = (if k' = k then Some v else get m k')"
    and get_remove: "ok m \<Longrightarrow> get (remove_entry k m) k' = (if k' = k then None else get m k')"
    and ok_insert: "ok m \<Longrightarrow> ok (insert_entry k v m)"
    and ok_remove: "ok m \<Longrightarrow> ok (remove_entry k m)"
begin

lemma remove_after_insert:
  "ok m \<Longrightarrow> get m k = None \<Longrightarrow> get (remove_entry k (insert_entry k v m)) = get m"
  by (rule ext) (simp add: get_insert get_remove ok_insert)

lemma insert_absorbs:
  "ok m \<Longrightarrow> get (insert_entry k v (insert_entry k u m)) = get (insert_entry k v m)"
  by (rule ext) (simp add: get_insert ok_insert)

lemma insert_commutes:
  "ok m \<Longrightarrow> k \<noteq> l \<Longrightarrow>
   get (insert_entry k v (insert_entry l u m)) = get (insert_entry l u (insert_entry k v m))"
  by (rule ext) (simp add: get_insert ok_insert)

end

section \<open>The sorted list provides it\<close>

lemma set_keys_btree_insert: "fst ` set (btree_insert k v m) = insert k (fst ` set m)"
  by (induction k v m rule: btree_insert.induct) auto

lemma set_keys_btree_remove: "fst ` set (btree_remove k m) \<subseteq> fst ` set m"
  by (induction k m rule: btree_remove.induct) auto

lemma btree_ok_Cons [simp]:
  "btree_ok ((a, b) # m) \<longleftrightarrow> (\<forall>k \<in> fst ` set m. a < k) \<and> btree_ok m"
  by (simp add: btree_ok_def)

lemma btree_ok_Nil [simp]: "btree_ok []"
  by (simp add: btree_ok_def)

lemma btree_ok_insert [simp]: "btree_ok m \<Longrightarrow> btree_ok (btree_insert k v m)"
  by (induction k v m rule: btree_insert.induct)
    (auto simp: set_keys_btree_insert)

lemma btree_ok_remove [simp]: "btree_ok m \<Longrightarrow> btree_ok (btree_remove k m)"
  by (induction k m rule: btree_remove.induct)
    (use set_keys_btree_remove in fastforce)+

lemma btree_get_insert:
  "btree_ok m \<Longrightarrow> btree_get (btree_insert k v m) k' = (if k' = k then Some v else btree_get m k')"
  by (induction k v m rule: btree_insert.induct) (auto simp: btree_get_def)

lemma map_of_None_less: "(\<forall>k \<in> fst ` set m. a < k) \<Longrightarrow> map_of m (a :: 'k::linorder) = None"
  by (auto simp: map_of_eq_None_iff)

lemma btree_get_remove:
  "btree_ok m \<Longrightarrow> btree_get (btree_remove k m) k' = (if k' = k then None else btree_get m k')"
  by (induction k m rule: btree_remove.induct) (auto simp: btree_get_def map_of_None_less)

interpretation btree: ordered_map btree_get btree_insert btree_remove btree_ok
  by unfold_locales (simp_all add: btree_get_insert btree_get_remove)

lemma btree_ok_extend [simp]: "btree_ok m \<Longrightarrow> btree_ok (btree_extend m n)"
  by (induction m n rule: btree_extend.induct) auto

lemma btree_get_extend:
  "btree_ok m \<Longrightarrow> btree_ok n \<Longrightarrow>
   btree_get (btree_extend m n) k = (case btree_get n k of Some v \<Rightarrow> Some v | None \<Rightarrow> btree_get m k)"
proof (induction m n rule: btree_extend.induct)
  case (2 m a b n)
  then have "btree_get n a = None" by (auto simp: btree_get_def map_of_None_less)
  with 2 show ?case
    by (auto simp: btree_get_insert split: option.splits) (simp_all add: btree_get_def)
qed (simp add: btree_get_def)

lemma btree_distinct_keys: "btree_ok m \<Longrightarrow> distinct (map fst m)"
  by (simp add: btree_ok_def strict_sorted_iff)

lemma btree_get_Some_iff: "btree_ok m \<Longrightarrow> btree_get m k = Some v \<longleftrightarrow> (k, v) \<in> set m"
  by (simp add: btree_get_def btree_distinct_keys)

end
