(* ===== verification/Paging.thy ===== *)
theory Paging
  imports Rust_Prelude
begin

text \<open>
  Page rounding on 64-bit addresses, as the macros \<open>round_up\<close> and \<open>round_down\<close> of
  \<open>libasvisor/src/utils.rs\<close> and \<open>args::get\<close> of \<open>as_std/src/args.rs\<close> compute it, with the
  wrap-around of \<open>usize\<close> kept.
\<close>

unbundle bit_operations_syntax

definition PAGE_SIZE :: u64 where
  "PAGE_SIZE = 0x1000"

definition round_up :: "u64 \<Rightarrow> u64" where
  "round_up x = (x + PAGE_SIZE - 1) AND (NOT PAGE_SIZE + 1)"

definition round_down :: "u64 \<Rightarrow> u64" where
  "round_down x = x AND (NOT PAGE_SIZE + 1)"

lemma page_mask: "(NOT PAGE_SIZE + 1 :: u64) = NOT (mask 12)"
  by (simp add: PAGE_SIZE_def mask_eq_exp_minus_1)

lemma unat_take_bit_12: "unat (take_bit 12 x :: u64) = unat x mod 4096"
  by (simp add: take_bit_eq_mod unat_mod)

lemma unat_and_page_mask: "unat (x AND (NOT PAGE_SIZE + 1)) = unat x - unat x mod 4096"
proof -
  have "x AND NOT (mask 12) = push_bit 12 (drop_bit 12 x)"
    by (rule bit_word_eqI) (auto simp: bit_and_iff bit_not_iff bit_mask_iff bit_push_bit_iff bit_drop_bit_eq)
  then have "x AND NOT (mask 12) = x - take_bit 12 x"
    using bits_ident [of 12 x] by (simp add: algebra_simps)
  moreover have "take_bit 12 x \<le> x"
    by (simp add: word_le_nat_alt unat_take_bit_12)
  ultimately show ?thesis
    by (simp add: page_mask unat_sub unat_take_bit_12)
qed

lemma unat_round_down: "unat (round_down x) = 4096 * (unat x div 4096)"
  by (simp add: round_down_def unat_and_page_mask minus_mod_eq_mult_div)

text \<open>Away from the last page of the address space, rounding up gives the least page
  boundary that is not below the address.\<close>

lemma unat_round_up:
  assumes "unat x \<le> 2 ^ 64 - 4096"
  shows "unat (round_up x) = 4096 * ((unat x + 4095) div 4096)"
proof -
  have "x + PAGE_SIZE - 1 = x + 4095" by (simp add: PAGE_SIZE_def)
  moreover have "unat (x + 4095) = unat x + 4095"
    using assms by (simp add: unat_word_ariths)
  ultimately show ?thesis
    by (simp only: round_up_def unat_and_page_mask minus_mod_eq_mult_div)
qed

lemma round_down_bounds: "unat (round_down x) \<le> unat x \<and> unat x < unat (round_down x) + 4096"
proof -
  have "unat x mod 4096 < 4096" by simp
  moreover have "unat x = 4096 * (unat x div 4096) + unat x mod 4096" by simp
  ultimately show ?thesis by (simp only: unat_round_down) linarith
qed

text \<open>Rounding up from an address reaches a page boundary exactly from the page below it.\<close>

lemma round_up_reaches_iff:
  assumes "unat x \<le> 2 ^ 64 - 4096" "unat page = 4096 * k"
  shows "round_up x = page \<longleftrightarrow> unat x \<le> unat page \<and> unat page < unat x + 4096"
proof -
  have "round_up x = page \<longleftrightarrow> (unat x + 4095) div 4096 = k"
    using assms unat_round_up [OF assms(1)] by (auto simp: word_unat_eq_iff)
  then show ?thesis using assms(2) by auto
qed

end
