(* ===== verification/Rust_Fmt.thy ===== *)
theory Rust_Fmt
  imports Rust_Prelude
begin

text \<open>
  Decimal printing of unsigned integers (\<open>to_string\<close>, \<open>format!\<close>) and parsing
  (\<open>str::parse\<close> to an unsigned type of \<open>w\<close> bits), which the code uses for the ids of the
  functions of a group and for the names of buffer slots.
\<close>

definition digit_char :: "nat \<Rightarrow> char" where
  "digit_char d = char_of (48 + d)"

fun to_string :: "nat \<Rightarrow> string" where
  "to_string n = (if n < 10 then [digit_char n] else to_string (n div 10) @ [digit_char (n mod 10)])"

declare to_string.simps [simp del]

definition is_ascii_digit :: "char \<Rightarrow> bool" where
  "is_ascii_digit c = (48 \<le> (of_char c :: nat) \<and> (of_char c :: nat) \<le> 57)"

definition digit_val :: "char \<Rightarrow> nat" where
  "digit_val c = of_char c - 48"

text \<open>The loop of \<open>from_str_radix\<close>: an empty string, a character that is no digit and a
  value that does not fit are errors; one leading plus sign is accepted.\<close>

fun parse_digits :: "nat \<Rightarrow> nat \<Rightarrow> string \<Rightarrow> nat option" where
  "parse_digits w acc [] = Some acc"
| "parse_digits w acc (c # cs) =
    (if is_ascii_digit c \<and> acc * 10 + digit_val c < 2 ^ w
     then parse_digits w (acc * 10 + digit_val c) cs else None)"

definition parse_uint :: "nat \<Rightarrow> string \<Rightarrow> nat option" where
  "parse_uint w s =
    (case s of
       [] \<Rightarrow> None
     | c # cs \<Rightarrow>
        if c = CHR ''+'' then (if cs = [] then None else parse_digits w 0 cs)
        else parse_digits w 0 s)"

lemma of_char_digit_char: "d < 10 \<Longrightarrow> (of_char (digit_char d) :: nat) = 48 + d"
  by (simp add: digit_char_def)

lemma digit_char_digit [simp]:
  "d < 10 \<Longrightarrow> is_ascii_digit (digit_char d)" "d < 10 \<Longrightarrow> digit_val (digit_char d) = d"
  by (simp_all add: is_ascii_digit_def digit_val_def of_char_digit_char)

lemma parse_digits_append:
  "parse_digits w acc (xs @ ys) = Option.bind (parse_digits w acc xs) (\<lambda>a. parse_digits w a ys)"
  by (induction xs arbitrary: acc) auto

lemma to_string_not_Nil [simp]: "to_string n \<noteq> []"
  by (subst to_string.simps) simp

lemma parse_digits_to_string: "n < 2 ^ w \<Longrightarrow> parse_digits w 0 (to_string n) = Some n"
proof (induction n rule: to_string.induct)
  case (1 n)
  show ?case
  proof (cases "n < 10")
    case True
    with 1 show ?thesis by (subst to_string.simps) simp
  next
    case False
    have "n div 10 \<le> n" by simp
    with 1 False have "parse_digits w 0 (to_string (n div 10)) = Some (n div 10)" by simp
    with 1 False show ?thesis
      by (subst to_string.simps) (simp add: parse_digits_append)
  qed
qed

lemma to_string_digits: "c \<in> set (to_string n) \<Longrightarrow> is_ascii_digit c"
proof (induction n rule: to_string.induct)
  case (1 n)
  then show ?case by (cases "n < 10") (auto simp: to_string.simps [of n])
qed

lemma parse_uint_to_string: "n < 2 ^ w \<Longrightarrow> parse_uint w (to_string n) = Some n"
proof -
  assume "n < 2 ^ w"
  moreover have "hd (to_string n) \<noteq> CHR ''+''"
    using to_string_digits [of "hd (to_string n)" n] by (auto simp: is_ascii_digit_def)
  ultimately show ?thesis
    by (cases "to_string n") (auto simp: parse_uint_def parse_digits_to_string [symmetric])
qed

lemma to_string_inject [simp]: "to_string m = to_string n \<longleftrightarrow> m = n"
proof
  assume eq: "to_string m = to_string n"
  have "m + n < 2 ^ (m + n)" by (rule less_exp)
  then have "m < 2 ^ (m + n)" "n < 2 ^ (m + n)"
    using le_add1 [of m n] le_add2 [of n m] by linarith+
  then have "Some m = Some n"
    using eq parse_digits_to_string by metis
  then show "m = n" by simp
qed simp

text \<open>A delimiter that does not occur before it cuts a string in one way only.\<close>

lemma delimiter_cut:
  assumes "c \<notin> set xs" "c \<notin> set ys" "xs @ c # u = ys @ c # v"
  shows "xs = ys \<and> u = v"
  using assms
proof (induction xs arbitrary: ys)
  case Nil
  then show ?case by (cases ys) auto
next
  case (Cons x xs)
  then show ?case by (cases ys) auto
qed

section \<open>Splitting\<close>

text \<open>\<open>str::split\<close> at a character.\<close>

fun split_on :: "'a \<Rightarrow> 'a list \<Rightarrow> 'a list list" where
  "split_on c [] = [[]]"
| "split_on c (x # xs) =
    (if x = c then [] # split_on c xs
     else case split_on c xs of y # ys \<Rightarrow> (x # y) # ys | [] \<Rightarrow> [[x]])"

lemma split_on_not_Nil [simp]: "split_on c xs \<noteq> []"
  by (cases xs) (auto split: list.splits)

lemma split_on_whole: "c \<notin> set xs \<Longrightarrow> split_on c xs = [xs]"
  by (induction xs) auto

lemma split_on_first: "c \<notin> set xs \<Longrightarrow> split_on c (xs @ c # ys) = xs # split_on c ys"
  by (induction xs) auto

text \<open>\<open>join\<close> of a slice of strings, and splitting the result again.\<close>

fun join_with :: "string \<Rightarrow> string list \<Rightarrow> string" where
  "join_with sep [] = []"
| "join_with sep [x] = x"
| "join_with sep (x # xs) = x @ sep @ join_with sep xs"

lemma split_on_join:
  assumes "xs \<noteq> []" "\<forall>x \<in> set xs. c \<notin> set x"
  shows "split_on c (join_with [c] xs) = xs"
  using assms
proof (induction "[c]" xs rule: join_with.induct)
  case (2 x)
  then show ?case by (simp add: split_on_whole)
next
  case (3 x y ys)
  then show ?case using split_on_first [of c x "join_with [c] (y # ys)"] by simp
qed simp

text \<open>\<open>char::is_whitespace\<close> on ASCII, and \<open>str::split_whitespace\<close>: the non-empty pieces.\<close>

definition is_ws :: "char \<Rightarrow> bool" where
  "is_ws c = (c = CHR '' '' \<or> (9 \<le> (of_char c :: nat) \<and> (of_char c :: nat) \<le> 13))"

definition split_whitespace :: "string \<Rightarrow> string list" where
  "split_whitespace s =
    filter (\<lambda>w. w \<noteq> []) (split_on CHR '' '' (map (\<lambda>c. if is_ws c then CHR '' '' else c) s))"

lemma map_no_ws: "\<forall>c \<in> set s. \<not> is_ws c \<Longrightarrow> map (\<lambda>c. if is_ws c then CHR '' '' else c) s = s"
  by (induction s) auto

lemma map_join_with:
  "map f (join_with sep xs) = join_with (map f sep) (map (map f) xs)"
  by (induction sep xs rule: join_with.induct) simp_all

lemma split_whitespace_join:
  assumes "\<forall>w \<in> set ws. w \<noteq> [] \<and> (\<forall>c \<in> set w. \<not> is_ws c)"
  shows "split_whitespace (join_with '' '' ws) = ws"
proof (cases "ws = []")
  case True
  then show ?thesis by (simp add: split_whitespace_def)
next
  case False
  let ?f = "\<lambda>c. if is_ws c then CHR '' '' else c"
  have "map (map ?f) ws = ws" using assms by (intro map_idI) (simp add: map_no_ws)
  then have "map ?f (join_with '' '' ws) = join_with '' '' ws"
    by (simp add: map_join_with is_ws_def)
  moreover have "split_on CHR '' '' (join_with '' '' ws) = ws"
    using assms False by (intro split_on_join) (auto simp: is_ws_def)
  moreover have "filter (\<lambda>w. w \<noteq> []) ws = ws" using assms by (intro filter_True) auto
  ultimately show ?thesis by (simp add: split_whitespace_def)
qed

end
