(* ===== verification/Isol_Config.thy ===== *)
theory Isol_Config
  imports Btree_Map Rust_Fmt
begin

text \<open>
  The workflow description (\<open>libasvisor/src/isolation/config.rs\<close>): units to load, groups
  of functions that run in parallel, and how a group is turned into the list of functions
  with their arguments.
\<close>

type_synonym args = "(string, string) btree"

record App =
  app_name :: string
  app_args :: args

datatype IsolationGroupApp = Name string | Detailed App

record IsolationGroup =
  group_list :: "IsolationGroupApp list"
  group_args :: args

datatype LoadableUnit = LoadableUnit (unit_name: string) (unit_path: string)

record IsolationConfig =
  services :: "LoadableUnit list"
  apps :: "LoadableUnit list"
  fs_image :: "string option"
  with_libos :: "bool option"
  groups :: "IsolationGroup list"

fun app_to_isolation :: "IsolationGroupApp \<Rightarrow> string \<Rightarrow> App" where
  "app_to_isolation (Name name) i =
    \<lparr>app_name = name, app_args = btree_insert ''id'' i []\<rparr>"
| "app_to_isolation (Detailed app) i = app\<lparr>app_args := btree_insert ''id'' i (app_args app)\<rparr>"

definition group_to_isolation :: "IsolationGroup \<Rightarrow> App list" where
  "group_to_isolation g =
    map (\<lambda>(idx, app).
          let app' = app_to_isolation app (to_string idx)
          in app'\<lparr>app_args := btree_extend (group_args g) (app_args app')\<rparr>)
      (List.enumerate 0 (group_list g))"

text \<open>\<open>from_file\<close> after the JSON has been parsed: \<open>join\<close> is \<open>PathBuf::join\<close>, \<open>debug\<close> tells
  whether debug assertions are on, \<open>namespace\<close> is the cargo feature.\<close>

definition config_from_parsed ::
  "(string \<Rightarrow> string \<Rightarrow> string) \<Rightarrow> bool \<Rightarrow> bool \<Rightarrow> IsolationConfig \<Rightarrow> IsolationConfig" where
  "config_from_parsed join debug namespace config =
    (let prefix = join ''target'' (if debug then ''debug'' else ''release'');
         fix_path = (\<lambda>u. LoadableUnit (unit_name u) (join prefix (unit_path u)));
         svcs = map fix_path (services config);
         config' = config\<lparr>services := svcs, apps := map fix_path (apps config)\<rparr>
     in if namespace
        then config'\<lparr>services :=
               LoadableUnit ''libc'' ''/usr/lib/x86_64-linux-gnu/libc.so.6'' # svcs\<rparr>
        else config')"

definition all_modules :: "IsolationConfig \<Rightarrow> LoadableUnit list" where
  "all_modules config = services config @ apps config"

text \<open>Argument maps in a configuration are real maps.\<close>

fun group_app_ok :: "IsolationGroupApp \<Rightarrow> bool" where
  "group_app_ok (Name name) = True"
| "group_app_ok (Detailed app) = btree_ok (app_args app)"

definition group_ok :: "IsolationGroup \<Rightarrow> bool" where
  "group_ok g = (btree_ok (group_args g) \<and> list_all group_app_ok (group_list g))"

fun own_args :: "IsolationGroupApp \<Rightarrow> args" where
  "own_args (Name name) = []"
| "own_args (Detailed app) = app_args app"

fun group_app_name :: "IsolationGroupApp \<Rightarrow> string" where
  "group_app_name (Name name) = name"
| "group_app_name (Detailed app) = app_name app"

lemma app_to_isolation_args:
  "group_app_ok a \<Longrightarrow> btree_ok (app_args (app_to_isolation a i))"
  "group_app_ok a \<Longrightarrow> btree_get (app_args (app_to_isolation a i)) k =
     (if k = ''id'' then Some i else btree_get (own_args a) k)"
  by (cases a; simp add: btree.get_insert; simp add: btree_get_def)+

lemma app_to_isolation_name: "app_name (app_to_isolation a i) = group_app_name a"
  by (cases a) simp_all

text \<open>In a parallel group, the k-th function keeps its name, is given its own index as
  argument \<open>id\<close> whatever the configuration says, sees its own arguments first and the
  group's arguments where it has none of its own.\<close>

theorem group_to_isolation_args:
  assumes "group_ok g" and "k < length (group_list g)"
  shows "length (group_to_isolation g) = length (group_list g) \<and>
    app_name (group_to_isolation g ! k) = group_app_name (group_list g ! k) \<and>
    btree_ok (app_args (group_to_isolation g ! k)) \<and>
    btree_get (app_args (group_to_isolation g ! k)) key =
      (if key = ''id'' then Some (to_string k)
       else case btree_get (own_args (group_list g ! k)) key of
              Some v \<Rightarrow> Some v
            | None \<Rightarrow> btree_get (group_args g) key)"
proof -
  have ok: "btree_ok (group_args g)" "group_app_ok (group_list g ! k)"
    using assms by (auto simp: group_ok_def list_all_length)
  with assms show ?thesis
    by (auto simp: group_to_isolation_def nth_enumerate_eq Let_def app_to_isolation_name
        btree_get_extend app_to_isolation_args split: option.splits)
qed

theorem group_to_isolation_args_witness:
  "let g = \<lparr>group_list = [Name ''mapper'', Detailed \<lparr>app_name = ''mapper'', app_args = [(''id'', ''7'')]\<rparr>],
            group_args = [(''reducer_num'', ''4'')]\<rparr>
   in group_ok g \<and> btree_get (app_args (group_to_isolation g ! 1)) ''id'' = Some (to_string 1)"
  using group_to_isolation_args [of
      "\<lparr>group_list = [Name ''mapper'', Detailed \<lparr>app_name = ''mapper'', app_args = [(''id'', ''7'')]\<rparr>],
        group_args = [(''reducer_num'', ''4'')]\<rparr>" 1 "''id''"]
  by (simp add: group_ok_def)

end
