(* ===== verification/User_Stack.thy ===== *)
theory User_Stack
  imports Hostcall Btree_Map Paging Isol_Config
begin

text \<open>
  How a function gets its arguments: the visor writes them as a fixed-capacity vector at
  the start of the last page of the user stack (\<open>ArgsItem\<close> and \<open>UserStack\<close> of
  \<open>libasvisor/src/service/elf_service.rs\<close>), and \<open>args::get\<close> of \<open>as_std/src/args.rs\<close> finds
  that page again by rounding the stack pointer up. Memory is seen as the argument vector
  that a given address holds when read at that type.
\<close>

record ArgsItem =
  item_key :: string
  item_val :: string

type_synonym args_mem = "u64 \<Rightarrow> ArgsItem list"

text \<open>\<open>heapless::String<32>::from_str(..).unwrap()\<close>.\<close>

definition heapless_string :: "string \<Rightarrow> (unit, string) res" where
  "heapless_string s = (if length s \<le> 32 then Ok s else Panic)"

definition from_kv :: "string \<Rightarrow> string \<Rightarrow> (unit, ArgsItem) res" where
  "from_kv k v =
    bind_res (heapless_string k) (\<lambda>k'.
    map_ok (\<lambda>v'. \<lparr>item_key = k', item_val = v'\<rparr>) (heapless_string v))"

definition stack_top :: "u64 \<Rightarrow> u64" where
  "stack_top base = base + SERVICE_STACK_SIZE - PAGE_SIZE"

text \<open>The loop of \<open>write_args\<close>: each entry is pushed in key order; the vector holds 16.\<close>

fun push_args :: "args \<Rightarrow> ArgsItem list \<Rightarrow> (unit, ArgsItem list) res" where
  "push_args [] items = Ok items"
| "push_args ((k, v) # rest) items =
    bind_res (from_kv k v) (\<lambda>item.
      if length items < 16 then push_args rest (items @ [item]) else Panic)"

definition write_args :: "u64 \<Rightarrow> args \<Rightarrow> args_mem \<Rightarrow> (unit, args_mem) res" where
  "write_args base a mem = map_ok (\<lambda>items. mem(stack_top base := items)) (push_args a [])"

fun find_item :: "string \<Rightarrow> ArgsItem list \<Rightarrow> string option" where
  "find_item name [] = None"
| "find_item name (item # items) =
    (if item_key item = name then Some (item_val item) else find_item name items)"

text \<open>\<open>args::get\<close> with the value \<open>rsp\<close> of the stack pointer inside \<open>get\<close>.\<close>

definition args_get :: "u64 \<Rightarrow> string \<Rightarrow> args_mem \<Rightarrow> string option" where
  "args_get rsp name mem = find_item name (mem (round_up rsp))"

definition args_fit :: "args \<Rightarrow> bool" where
  "args_fit a = (length a \<le> 16 \<and> list_all (\<lambda>(k, v). length k \<le> 32 \<and> length v \<le> 32) a)"

definition items_of :: "args \<Rightarrow> ArgsItem list" where
  "items_of a = map (\<lambda>(k, v). \<lparr>item_key = k, item_val = v\<rparr>) a"

lemma from_kv_ok [simp]:
  "from_kv k v = (if length k \<le> 32 \<and> length v \<le> 32 then Ok \<lparr>item_key = k, item_val = v\<rparr> else Panic)"
  by (simp add: from_kv_def heapless_string_def)

lemma push_args_result:
  "push_args a items =
    (if length items + length a \<le> 16 \<or> a = [] then
       (if list_all (\<lambda>(k, v). length k \<le> 32 \<and> length v \<le> 32) a
        then Ok (items @ items_of a) else Panic)
     else Panic)"
proof (induction a items rule: push_args.induct)
  case (2 k v rest items)
  then show ?case by (cases rest) (auto simp: items_of_def)
qed (simp add: items_of_def)

lemma find_item_items_of: "find_item name (items_of a) = btree_get a name"
  by (induction a) (auto simp: items_of_def btree_get_def)

lemma unat_stack_top:
  "unat base + 8388608 < 2 ^ 64 \<Longrightarrow> unat (stack_top base) = unat base + 8384512"
  by (simp add: stack_top_def SERVICE_STACK_SIZE_def PAGE_SIZE_def unat_word_ariths
      unat_sub_if_size word_size)

lemma stack_top_aligned:
  assumes "unat base mod 4096 = 0" "unat base + 8388608 < 2 ^ 64"
  shows "unat (stack_top base) = 4096 * (unat base div 4096 + 2047)"
  using assms(1) by (simp add: unat_stack_top [OF assms(2)]) (metis minus_mod_eq_mult_div minus_nat.diff_0)

text \<open>Writing the arguments succeeds exactly when there are at most 16 of them and every
  key and value has at most 32 bytes, and panics otherwise.\<close>

theorem write_args_panics_iff:
  shows "write_args base a mem =
    (if args_fit a then Ok (mem(stack_top base := items_of a)) else Panic)"
  by (auto simp: write_args_def push_args_result args_fit_def items_of_def)

text \<open>C11: While the user stack is less than one page deep, every argument the visor wrote is
  read back by \<open>args::get\<close>, and a name that was not passed is absent.\<close>

theorem args_round_trip:
  assumes "args_fit a"
    and "unat base mod 4096 = 0" and "unat base + 8388608 < 2 ^ 64"
    and "unat rsp \<le> unat (stack_top base)" and "unat (stack_top base) < unat rsp + 4096"
  shows "\<exists>mem'. write_args base a mem = Ok mem' \<and> args_get rsp name mem' = btree_get a name"
proof -
  note top = unat_stack_top [OF assms(3)] and aligned = stack_top_aligned [OF assms(2,3)]
  have "round_up rsp = stack_top base"
    using round_up_reaches_iff [OF _ aligned, of rsp] assms(3-5) by (simp add: top)
  moreover have "write_args base a mem = Ok (mem(stack_top base := items_of a))"
    using assms(1) by (auto simp: write_args_def push_args_result args_fit_def)
  ultimately show ?thesis
    by (simp add: args_get_def find_item_items_of)
qed

theorem args_round_trip_witness:
  "args_fit [(''id'', ''0'')] \<and>
   (\<exists>mem'. write_args 0x10000 [(''id'', ''0'')] (\<lambda>_. []) = Ok mem' \<and>
     args_get (stack_top 0x10000 - 64) ''id'' mem' = Some ''0'')"
proof -
  have "unat (stack_top 0x10000) = 8450048" "unat (stack_top 0x10000 - 64) = 8449984"
    by (simp_all add: stack_top_def SERVICE_STACK_SIZE_def PAGE_SIZE_def)
  then show ?thesis
    using args_round_trip [of "[(''id'', ''0'')]" "0x10000" "stack_top 0x10000 - 64" "\<lambda>_. []" "''id''"]
    by (simp add: args_fit_def btree_get_def)
qed

text \<open>Once the stack is a page or more deep, \<open>args::get\<close> does not look at the page the
  arguments are on: whatever the page it rounds to holds is searched instead.\<close>

theorem args_get_deep_stack:
  assumes "unat base mod 4096 = 0" and "unat base + 8388608 < 2 ^ 64"
    and "unat rsp + 4096 \<le> unat (stack_top base)"
  shows "round_up rsp \<noteq> stack_top base \<and>
    args_get rsp name (mem(stack_top base := items)) = find_item name (mem (round_up rsp))"
proof -
  note top = unat_stack_top [OF assms(2)] and aligned = stack_top_aligned [OF assms(1,2)]
  have "round_up rsp \<noteq> stack_top base"
    using round_up_reaches_iff [OF _ aligned, of rsp] assms(2,3) by (simp add: top)
  then show ?thesis by (simp add: args_get_def)
qed

theorem args_get_deep_stack_witness:
  "round_up (stack_top 0x10000 - 0x1000) \<noteq> stack_top 0x10000"
proof -
  have "unat (stack_top 0x10000) = 8450048" "unat (stack_top 0x10000 - 0x1000) = 8445952"
    by (simp_all add: stack_top_def SERVICE_STACK_SIZE_def PAGE_SIZE_def)
  then show ?thesis
    using args_get_deep_stack [of "0x10000" "stack_top 0x10000 - 0x1000"] by simp
qed

end
