(* ===== verification/Effects.thy ===== *)
theory Effects
  imports Rust_Prelude
begin

text \<open>
  Stateful Rust code as functions from a state to an outcome and the state it leaves:
  sequencing stops at an error or a panic and keeps the state reached. A property of
  whole runs is given as a relation between the state before and after; the locale
  \<open>step_relation\<close> carries it through the combinators.
\<close>

type_synonym ('s, 'e, 'a) act = "'s \<Rightarrow> ('e, 'a) res \<times> 's"

definition act_ret :: "'a \<Rightarrow> ('s, 'e, 'a) act" where
  "act_ret a = (\<lambda>s. (Ok a, s))"

definition act_err :: "'e \<Rightarrow> ('s, 'e, 'a) act" where
  "act_err e = (\<lambda>s. (Err e, s))"

definition act_panic :: "('s, 'e, 'a) act" where
  "act_panic = (\<lambda>s. (Panic, s))"

definition act_lift :: "('e, 'a) res \<Rightarrow> ('s, 'e, 'a) act" where
  "act_lift r = (\<lambda>s. (r, s))"

definition act_get :: "('s \<Rightarrow> 'a) \<Rightarrow> ('s, 'e, 'a) act" where
  "act_get f = (\<lambda>s. (Ok (f s), s))"

definition act_modify :: "('s \<Rightarrow> 's) \<Rightarrow> ('s, 'e, unit) act" where
  "act_modify f = (\<lambda>s. (Ok (), f s))"

definition act_bind :: "('s, 'e, 'a) act \<Rightarrow> ('a \<Rightarrow> ('s, 'e, 'b) act) \<Rightarrow> ('s, 'e, 'b) act" where
  "act_bind m f = (\<lambda>s.
    case m s of (r, s') \<Rightarrow>
      (case r of Ok a \<Rightarrow> f a s' | Err e \<Rightarrow> (Err e, s') | Panic \<Rightarrow> (Panic, s')))"

definition act_map_err :: "('e \<Rightarrow> 'g) \<Rightarrow> ('s, 'e, 'a) act \<Rightarrow> ('s, 'g, 'a) act" where
  "act_map_err f m = (\<lambda>s. case m s of (r, s') \<Rightarrow> (map_err f r, s'))"

text \<open>\<open>unwrap\<close> or \<open>expect\<close> of a result.\<close>

definition act_unwrap :: "('s, 'e, 'a) act \<Rightarrow> ('s, 'g, 'a) act" where
  "act_unwrap m = (\<lambda>s. case m s of (r, s') \<Rightarrow> (case r of Ok a \<Rightarrow> (Ok a, s') | _ \<Rightarrow> (Panic, s')))"

fun act_each :: "('x \<Rightarrow> ('s, 'e, unit) act) \<Rightarrow> 'x list \<Rightarrow> ('s, 'e, unit) act" where
  "act_each f [] = act_ret ()"
| "act_each f (x # xs) = act_bind (f x) (\<lambda>_. act_each f xs)"

fun act_collect :: "('x \<Rightarrow> ('s, 'e, 'a) act) \<Rightarrow> 'x list \<Rightarrow> ('s, 'e, 'a list) act" where
  "act_collect f [] = act_ret []"
| "act_collect f (x # xs) =
    act_bind (f x) (\<lambda>a. act_bind (act_collect f xs) (\<lambda>as. act_ret (a # as)))"

named_theorems act_simps \<open>results of the combinators\<close>

lemma act_ret_apply [act_simps]: "act_ret a s = (r, s') \<longleftrightarrow> r = Ok a \<and> s' = s"
  by (auto simp: act_ret_def)

lemma act_err_apply [act_simps]: "act_err e s = (r, s') \<longleftrightarrow> r = Err e \<and> s' = s"
  by (auto simp: act_err_def)

lemma act_panic_apply [act_simps]: "act_panic s = (r, s') \<longleftrightarrow> r = Panic \<and> s' = s"
  by (auto simp: act_panic_def)

lemma act_lift_apply [act_simps]: "act_lift x s = (r, s') \<longleftrightarrow> r = x \<and> s' = s"
  by (auto simp: act_lift_def)

lemma act_get_apply [act_simps]: "act_get f s = (r, s') \<longleftrightarrow> r = Ok (f s) \<and> s' = s"
  by (auto simp: act_get_def)

lemma act_modify_apply [act_simps]: "act_modify f s = (r, s') \<longleftrightarrow> r = Ok () \<and> s' = f s"
  by (auto simp: act_modify_def)

lemma act_bind_apply [act_simps]:
  "act_bind m f s = (r, s') \<longleftrightarrow>
    (\<exists>a s1. m s = (Ok a, s1) \<and> f a s1 = (r, s')) \<or>
    (\<exists>e. m s = (Err e, s') \<and> r = Err e) \<or> (m s = (Panic, s') \<and> r = Panic)"
  by (auto simp: act_bind_def split: prod.splits res.splits)

lemma act_map_err_apply [act_simps]:
  "act_map_err f m s = (r, s') \<longleftrightarrow> (\<exists>r0. m s = (r0, s') \<and> r = map_err f r0)"
  by (auto simp: act_map_err_def split: prod.splits)

lemma act_unwrap_apply [act_simps]:
  "act_unwrap m s = (r, s') \<longleftrightarrow>
    (\<exists>a. m s = (Ok a, s') \<and> r = Ok a) \<or> ((\<exists>e. m s = (Err e, s')) \<and> r = Panic) \<or>
    (m s = (Panic, s') \<and> r = Panic)"
  by (auto simp: act_unwrap_def split: prod.splits res.splits)

text \<open>A loop that ends with an error ended in the iteration that raised it.\<close>

lemma act_each_Err:
  "act_each f xs s = (Err e, s') \<Longrightarrow>
   \<exists>ys x zs s1. xs = ys @ x # zs \<and> act_each f ys s = (Ok (), s1) \<and> f x s1 = (Err e, s')"
proof (induction xs arbitrary: s)
  case (Cons x xs)
  then consider (first) "f x s = (Err e, s')"
    | (later) s1 where "f x s = (Ok (), s1)" "act_each f xs s1 = (Err e, s')"
    by (auto simp: act_simps)
  then show ?case
  proof cases
    case first
    then have "x # xs = [] @ x # xs \<and> act_each f [] s = (Ok (), s) \<and> f x s = (Err e, s')"
      by (simp add: act_ret_def)
    then show ?thesis by blast
  next
    case later
    from Cons.IH [OF later(2)] obtain ys y zs s2 where
      "xs = ys @ y # zs" "act_each f ys s1 = (Ok (), s2)" "f y s2 = (Err e, s')" by blast
    with later(1) have "x # xs = (x # ys) @ y # zs \<and> act_each f (x # ys) s = (Ok (), s2) \<and> f y s2 = (Err e, s')"
      by (simp add: act_bind_def)
    then show ?thesis by blast
  qed
qed (simp add: act_simps)

text \<open>A loop whose every iteration succeeds, with an invariant on the elements it has done.\<close>

lemma act_each_invariant:
  assumes "I [] s"
    and "\<And>ys x zs s. xs = ys @ x # zs \<Longrightarrow> I ys s \<Longrightarrow> \<exists>s'. f x s = (Ok (), s') \<and> I (ys @ [x]) s'"
  shows "\<exists>s'. act_each f xs s = (Ok (), s') \<and> I xs s'"
proof -
  have run: "\<exists>s'. act_each f zs s = (Ok (), s') \<and> I xs s'" if "xs = ys @ zs" "I ys s" for ys zs s
    using that
  proof (induction zs arbitrary: ys s)
    case (Cons x zs)
    from assms(2) [OF Cons.prems] obtain s1 where s1: "f x s = (Ok (), s1)" "I (ys @ [x]) s1" by blast
    with Cons.IH [of "ys @ [x]" s1] Cons.prems(1) show ?case by (simp add: act_bind_def)
  qed (simp add: act_ret_def)
  show ?thesis using run [of "[]" xs s] assms(1) by simp
qed

lemmas act_defs = act_ret_def act_err_def act_panic_def act_lift_def act_get_def
  act_modify_def act_bind_def act_map_err_def act_unwrap_def

section \<open>Relations kept by a run\<close>

definition within :: "('s \<Rightarrow> 's \<Rightarrow> bool) \<Rightarrow> ('s, 'e, 'a) act \<Rightarrow> bool" where
  "within R m = (\<forall>s r s'. m s = (r, s') \<longrightarrow> R s s')"

lemma withinD: "within R m \<Longrightarrow> m s = (r, s') \<Longrightarrow> R s s'"
  by (auto simp: within_def)

lemma withinI: "(\<And>s r s'. m s = (r, s') \<Longrightarrow> R s s') \<Longrightarrow> within R m"
  by (auto simp: within_def)

lemma within_if: "(b \<Longrightarrow> within R m) \<Longrightarrow> (\<not> b \<Longrightarrow> within R n) \<Longrightarrow> within R (if b then m else n)"
  by simp

lemma within_option:
  "(x = None \<Longrightarrow> within R m) \<Longrightarrow> (\<And>a. x = Some a \<Longrightarrow> within R (f a)) \<Longrightarrow>
   within R (case x of None \<Rightarrow> m | Some a \<Rightarrow> f a)"
  by (cases x) auto

lemma within_res:
  "(\<And>a. x = Ok a \<Longrightarrow> within R (f a)) \<Longrightarrow> (\<And>e. x = Err e \<Longrightarrow> within R (g e)) \<Longrightarrow>
   (x = Panic \<Longrightarrow> within R h) \<Longrightarrow> within R (case x of Ok a \<Rightarrow> f a | Err e \<Rightarrow> g e | Panic \<Rightarrow> h)"
  by (cases x) auto

locale step_relation =
  fixes R :: "'s \<Rightarrow> 's \<Rightarrow> bool"
  assumes R_refl: "R s s"
    and R_trans: "R s s' \<Longrightarrow> R s' s'' \<Longrightarrow> R s s''"
begin

lemma within_pure:
  "within R (act_ret a)" "within R (act_err e)" "within R act_panic" "within R (act_lift x)"
  "within R (act_get f)"
  by (auto simp: within_def act_simps R_refl)

lemma within_modify: "(\<And>s. R s (f s)) \<Longrightarrow> within R (act_modify f)"
  by (auto simp: within_def act_simps)

lemma within_bind: "within R m \<Longrightarrow> (\<And>a. within R (f a)) \<Longrightarrow> within R (act_bind m f)"
  unfolding within_def act_simps by (meson R_trans)

lemma within_map_err: "within R m \<Longrightarrow> within R (act_map_err f m)"
  by (rule withinI) (auto simp: act_simps dest: withinD)

lemma within_unwrap: "within R m \<Longrightarrow> within R (act_unwrap m)"
  by (rule withinI) (auto simp: act_simps dest: withinD)

lemma within_each: "(\<And>x. x \<in> set xs \<Longrightarrow> within R (f x)) \<Longrightarrow> within R (act_each f xs)"
  by (induction xs) (auto intro!: within_pure within_bind)

lemma within_collect: "(\<And>x. x \<in> set xs \<Longrightarrow> within R (f x)) \<Longrightarrow> within R (act_collect f xs)"
  by (induction xs) (auto intro!: within_pure within_bind)

lemmas within_intros = within_pure within_bind within_map_err within_unwrap within_each
  within_collect within_if within_option within_res

end

section \<open>Code that does not panic\<close>

definition returns :: "('s, 'e, 'a) act \<Rightarrow> bool" where
  "returns m = (\<forall>s. fst (m s) \<noteq> Panic)"

named_theorems returns_rules \<open>closure of \<open>returns\<close> under the combinators\<close>

lemma returns_basic [returns_rules]:
  "returns (act_ret a)" "returns (act_err e)" "returns (act_get g)" "returns (act_modify f)"
  by (simp_all add: returns_def act_ret_def act_err_def act_get_def act_modify_def)

lemma returns_bind [returns_rules]:
  "returns m \<Longrightarrow> (\<And>a. returns (f a)) \<Longrightarrow> returns (act_bind m f)"
  by (auto simp: returns_def act_bind_def split: prod.split res.split) (metis fst_conv)

lemma returns_map_err [returns_rules]: "returns m \<Longrightarrow> returns (act_map_err f m)"
  unfolding returns_def
proof
  fix s
  assume "\<forall>s. fst (m s) \<noteq> Panic"
  then have "fst (m s) \<noteq> Panic" by blast
  then show "fst (act_map_err f m s) \<noteq> Panic"
    by (cases "fst (m s)") (auto simp: act_map_err_def split: prod.splits)
qed

lemma returns_if [returns_rules]: "(P \<Longrightarrow> returns m) \<Longrightarrow> (\<not> P \<Longrightarrow> returns n) \<Longrightarrow> returns (if P then m else n)"
  by simp

end
