(* ===== verification/Visor_Model.thy ===== *)
theory Visor_Model
  imports Mpk Metric User_Stack Effects
begin

text \<open>
  The visor: loading services and functions into an isolation, resolving host calls, and
  running a workflow (\<open>libasvisor/src/isolation/mod.rs\<close>, \<open>isolation/handler.rs\<close>,
  \<open>service/loader.rs\<close>, \<open>service/elf_service.rs\<close>, \<open>service/mod.rs\<close>, \<open>utils.rs\<close>).

  An \<open>Arc<Isolation>\<close> is named by the id the isolation was created with; \<open>isols\<close> maps the
  ids whose strong count is not zero to their contents, and the table of weak references
  is the list of those names. A loaded library is a handle of type \<open>'l\<close>; its statics
  live once per handle, as they do once per \<open>dlopen\<close> instance. The dynamic linker, the
  kernel, the clock, the memory allocator and the compiled functions are the fields of
  \<open>Env\<close>; the effects of functions on anything but the visor are the component
  \<open>user_world\<close>. Arithmetic panics as in a build with overflow checks.
\<close>

section \<open>State\<close>

record 'l ElfService =
  elf_name :: string
  elf_path :: string
  elf_lib :: 'l
  elf_metric :: nat
  elf_pkey :: nat

datatype 'l Service = ELFService "'l ElfService" | WithLibOSService "'l ElfService" u64

record ServiceLoader =
  loader_isol_id :: u64
  registered :: "string \<rightharpoonup> string"
  loader_namespace :: "int option"
  loader_with_libos :: bool

record 'l Isolation =
  isol_ident :: u64
  loader :: ServiceLoader
  metric :: MetricBucket
  app_names :: "string list"
  isol_groups :: "App list list"
  isol_fs_image :: "string option"
  modules :: "string \<rightharpoonup> 'l Service"

record ('l, 'u) Visor =
  ID_KEEPER :: u64
  ISOL_TABLE :: "u64 list"
  table_poisoned :: bool
  isols :: "u64 \<rightharpoonup> 'l Isolation"
  lib_statics :: "'l \<Rightarrow> ServiceStatics"
  PKEY_COUNTER :: u64
  heap_count :: nat
  clock_reads :: nat
  user_world :: 'u

record MemorySegment =
  start_addr :: u64
  seg_length :: u64
  seg_perm :: nat
  seg_path :: "string option"

text \<open>Everything outside the sources. \<open>dl_open\<close>, \<open>dl_mopen\<close> and \<open>dl_sym\<close> are \<open>dlopen\<close>,
  \<open>dlmopen\<close> (without a namespace: a new one) and \<open>dlsym\<close>; \<open>now k\<close> is the k-th reading of the clock; \<open>run_symbol a args\<close> is what entering
  the function at address \<open>a\<close> with the argument vector \<open>args\<close> on its stack does;
  \<open>schedule\<close> runs a list of thread bodies and returns what each of them ended with.\<close>

record ('l, 'u) Env =
  env_is_file :: "string \<Rightarrow> bool"
  env_root_join :: "string \<Rightarrow> string"
  dl_open :: "string \<Rightarrow> (string, 'l) res"
  dl_mopen :: "string \<Rightarrow> int option \<Rightarrow> (string, 'l) res"
  dl_sym :: "'l \<Rightarrow> string \<Rightarrow> u64 option"
  dl_lmid :: "'l \<Rightarrow> int"
  lib_alloc_def :: "'l \<Rightarrow> bool"
  now :: "nat \<Rightarrow> nat"
  new_heap :: "nat \<Rightarrow> u64"
  new_stack :: "nat \<Rightarrow> u64"
  segments :: "nat \<Rightarrow> MemorySegment list"
  pkey_mprotect_ok :: "u64 \<Rightarrow> u64 \<Rightarrow> nat \<Rightarrow> nat \<Rightarrow> bool"
  path_contains :: "string \<Rightarrow> string \<Rightarrow> bool"
  run_symbol :: "u64 \<Rightarrow> ArgsItem list \<Rightarrow> (('l, 'u) Visor, string, unit) act"
  schedule :: "(('l, 'u) Visor, string, unit) act list \<Rightarrow> ('l, 'u) Visor \<Rightarrow>
    (string, unit) res list \<times> ('l, 'u) Visor"
  enable_mpk :: bool
  pkey_per_func :: bool
  feature_namespace :: bool
  this_proc_name :: string
  find_host_call_addr :: u64
  panic_handler_addr :: u64
  metric_handler_addr :: u64
  fs_image_handler_addr :: u64
  spawn_fault_thread_addr :: u64

section \<open>The table of isolations\<close>

definition gen_new_id :: "(('l, 'u) Visor, string, u64) act" where
  "gen_new_id = act_bind (act_get ID_KEEPER) (\<lambda>result.
    if result = - 1 then act_panic
    else act_bind (act_modify (\<lambda>v. v\<lparr>ID_KEEPER := result + 1\<rparr>)) (\<lambda>_. act_ret result))"

text \<open>\<open>get_isol\<close> holds the lock on the table while it computes the index: the underflow of
  handle 0 poisons it.\<close>

definition get_isol :: "u64 \<Rightarrow> (('l, 'u) Visor, string, u64) act" where
  "get_isol handle = (\<lambda>v.
    if table_poisoned v then (Panic, v)
    else if handle = 0 then (Panic, v\<lparr>table_poisoned := True\<rparr>)
    else
      (case vec_get (ISOL_TABLE v) (unat handle - 1) of
         None \<Rightarrow> (Err ''isol don't exsit'', v)
       | Some i \<Rightarrow>
          (case isols v i of
             None \<Rightarrow> (Err ''upgrade failed'', v)
           | Some _ \<Rightarrow> (Ok i, v))))"

text \<open>\<open>Drop for Isolation\<close>, run when the last \<open>Arc\<close> goes: no weak reference to it can be
  upgraded from here on, and \<open>Vec::remove\<close> takes out the element at index \<open>id - 1\<close>.\<close>

definition drop_isol :: "u64 \<Rightarrow> (('l, 'u) Visor, string, unit) act" where
  "drop_isol i = (\<lambda>v.
    let v' = v\<lparr>isols := (isols v)(i := None)\<rparr> in
    if table_poisoned v then (Panic, v')
    else if i = 0 \<or> length (ISOL_TABLE v) \<le> unat i - 1 then (Panic, v'\<lparr>table_poisoned := True\<rparr>)
    else (Ok (), v'\<lparr>ISOL_TABLE := take (unat i - 1) (ISOL_TABLE v) @ drop (unat i) (ISOL_TABLE v)\<rparr>))"

text \<open>Reading and writing the contents of an isolation an \<open>Arc\<close> is held to.\<close>

definition with_isol ::
  "u64 \<Rightarrow> ('l Isolation \<Rightarrow> (('l, 'u) Visor, string, 'a) act) \<Rightarrow> (('l, 'u) Visor, string, 'a) act" where
  "with_isol i f = (\<lambda>v. case isols v i of None \<Rightarrow> (Panic, v) | Some this_isol \<Rightarrow> f this_isol v)"

definition set_isol :: "u64 \<Rightarrow> ('l Isolation \<Rightarrow> 'l Isolation) \<Rightarrow> (('l, 'u) Visor, string, unit) act" where
  "set_isol i f = act_modify (\<lambda>v. v\<lparr>isols := (isols v)(i := map_option f (isols v i))\<rparr>)"

definition read_clock :: "('l, 'u) Env \<Rightarrow> (('l, 'u) Visor, string, nat) act" where
  "read_clock env = (\<lambda>v. (Ok (now env (clock_reads v)), v\<lparr>clock_reads := Suc (clock_reads v)\<rparr>))"

definition isol_mark :: "('l, 'u) Env \<Rightarrow> u64 \<Rightarrow> MetricEvent \<Rightarrow> (('l, 'u) Visor, string, unit) act" where
  "isol_mark env i ev = act_bind (read_clock env) (\<lambda>t. with_isol i (\<lambda>this_isol.
    case metric_mark ev t (metric this_isol) of
      Ok b \<Rightarrow> set_isol i (\<lambda>this_isol. this_isol\<lparr>metric := b\<rparr>)
    | _ \<Rightarrow> act_panic))"

definition service_mark ::
  "('l, 'u) Env \<Rightarrow> u64 \<Rightarrow> nat \<Rightarrow> MetricEvent \<Rightarrow> (('l, 'u) Visor, string, unit) act" where
  "service_mark env i m ev = act_bind (read_clock env) (\<lambda>t. with_isol i (\<lambda>this_isol.
    case mark_svc m ev t (metric this_isol) of
      Ok b \<Rightarrow> set_isol i (\<lambda>this_isol. this_isol\<lparr>metric := b\<rparr>)
    | _ \<Rightarrow> act_panic))"

section \<open>Protection of libraries\<close>

fun protect_segments ::
  "('l, 'u) Env \<Rightarrow> string list \<Rightarrow> nat \<Rightarrow> MemorySegment list \<Rightarrow> (string, unit) res" where
  "protect_segments env needs pkey [] = Ok ()"
| "protect_segments env needs pkey (seg # segs) =
    (case seg_path seg of
       None \<Rightarrow> protect_segments env needs pkey segs
     | Some path \<Rightarrow>
        if list_ex (path_contains env path) needs then
          (if pkey_mprotect_ok env (start_addr seg) (seg_length seg) (seg_perm seg) pkey
           then protect_segments env needs pkey segs else Err ''mprotect failed'')
        else protect_segments env needs pkey segs)"

definition set_libs_with_pkey ::
  "('l, 'u) Env \<Rightarrow> string list \<Rightarrow> nat \<Rightarrow> (('l, 'u) Visor, string, unit) act" where
  "set_libs_with_pkey env needs pkey =
    (\<lambda>v. (protect_segments env needs pkey (segments env (clock_reads v)), v))"

section \<open>Services\<close>

fun svc_elf :: "'l Service \<Rightarrow> 'l ElfService" where
  "svc_elf (ELFService e) = e"
| "svc_elf (WithLibOSService e h) = e"

definition svc_interface :: "('l, 'u) Env \<Rightarrow> 'l Service \<Rightarrow> string \<Rightarrow> u64 option" where
  "svc_interface env svc symbol = dl_sym env (elf_lib (svc_elf svc)) symbol"

definition SHOULD_NOT_SET_CONTEXT :: "bool \<Rightarrow> string set" where
  "SHOULD_NOT_SET_CONTEXT namespace =
    (if namespace then {''libc'', ''stdio'', ''time''} else {''stdio'', ''time''})"

text \<open>\<open>PROT_READ | PROT_WRITE\<close>.\<close>

definition PROT_RW :: nat where
  "PROT_RW = 3"

text \<open>\<open>Service::new\<close>: the LibOS variant gets a heap, protected with the key of the service;
  \<open>must_mprotect\<close> panics when the kernel refuses.\<close>

definition Service_new ::
  "('l, 'u) Env \<Rightarrow> u64 \<Rightarrow> string \<Rightarrow> string \<Rightarrow> 'l \<Rightarrow> nat \<Rightarrow> bool \<Rightarrow> nat \<Rightarrow>
   (('l, 'u) Visor, string, 'l Service) act" where
  "Service_new env i name path lib m libos pkey =
    act_bind (service_mark env i m SvcInit) (\<lambda>_.
    let elf = \<lparr>elf_name = name, elf_path = path, elf_lib = lib, elf_metric = m, elf_pkey = pkey\<rparr> in
    if libos then
      act_bind (act_get heap_count) (\<lambda>n.
      act_bind (act_modify (\<lambda>v. v\<lparr>heap_count := Suc n\<rparr>)) (\<lambda>_.
      if enable_mpk env \<and> \<not> pkey_mprotect_ok env (new_heap env n) SERVICE_HEAP_SIZE PROT_RW pkey
      then act_panic
      else act_ret (WithLibOSService elf (new_heap env n))))
    else act_ret (ELFService elf))"

definition heap_range_of :: "string \<Rightarrow> u64 \<Rightarrow> u64 \<times> u64" where
  "heap_range_of name heap_start =
    (let heap_size = (if name = ''mm'' then SERVICE_HEAP_SIZE div 2 else SERVICE_HEAP_SIZE)
     in (heap_start, heap_start + heap_size))"

text \<open>\<open>WithLibOSService::init\<close>: the calls of the two handler symbols run the functions of
  \<open>init_context.rs\<close> on the statics of the library.\<close>

definition libos_init ::
  "('l, 'u) Env \<Rightarrow> 'l ElfService \<Rightarrow> u64 \<Rightarrow> u64 \<Rightarrow> (('l, 'u) Visor, string, unit) act" where
  "libos_init env elf heap_start i =
    (if elf_name elf \<in> SHOULD_NOT_SET_CONTEXT (feature_namespace env) then act_ret ()
     else
       (let ctx = \<lparr>isol_id = i, find_handler = find_host_call_addr env,
                   panic_handler = panic_handler_addr env,
                   heap_range = heap_range_of (elf_name elf) heap_start\<rparr>;
            lib = elf_lib elf
        in (case dl_sym env lib ''set_handler_addr'' of
              None \<Rightarrow> act_err ''missing set_handler_addr?''
            | Some _ \<Rightarrow>
               act_bind (act_get lib_statics) (\<lambda>st.
               case set_handler_addr (lib_alloc_def env lib) ctx (st lib) of
                 (Ok _, s') \<Rightarrow>
                   act_bind (act_modify (\<lambda>v. v\<lparr>lib_statics := (lib_statics v)(lib := s')\<rparr>)) (\<lambda>_.
                   case dl_sym env lib ''get_handler_addr'' of
                     None \<Rightarrow> act_err ''missing get_handler_addr?''
                   | Some _ \<Rightarrow>
                      (case get_handler_addr s' of
                         Ok a \<Rightarrow> if a \<noteq> find_host_call_addr env then act_err ''check isol ctx failed.''
                                 else act_ret ()
                       | _ \<Rightarrow> act_panic))
               | (Err _, s') \<Rightarrow> act_err ''set isol context failed''
               | (Panic, s') \<Rightarrow> act_panic))))"

fun Service_init :: "('l, 'u) Env \<Rightarrow> 'l Service \<Rightarrow> u64 \<Rightarrow> (('l, 'u) Visor, string, unit) act" where
  "Service_init env (ELFService e) i = act_ret ()"
| "Service_init env (WithLibOSService e h) i = libos_init env e h i"

section \<open>The service loader\<close>

text \<open>\<open>cstr_cow_from_bytes\<close>: one trailing zero byte is accepted as the terminator, any
  other zero byte is an error.\<close>

definition cstr_cow_from_bytes :: "string \<Rightarrow> (string, string) res" where
  "cstr_cow_from_bytes b =
    (if b = [] then Ok []
     else if last b = CHR 0x00 then
       (if CHR 0x00 \<in> set (butlast b) then Err ''nul byte'' else Ok (butlast b))
     else if CHR 0x00 \<in> set b then Err ''nul byte'' else Ok b)"

definition do_dlmopen :: "('l, 'u) Env \<Rightarrow> string \<Rightarrow> int option \<Rightarrow> (string, 'l) res" where
  "do_dlmopen env filename lmid =
    bind_res (cstr_cow_from_bytes filename) (\<lambda>name.
    map_err (\<lambda>e. ''dlmopen error: '' @ e) (dl_mopen env name lmid))"

definition load_dynlib :: "('l, 'u) Env \<Rightarrow> string \<Rightarrow> int option \<Rightarrow> (string, 'l) res" where
  "load_dynlib env filename lmid =
    (let f = (if env_is_file env filename then filename else env_root_join env filename) in
     if \<not> env_is_file env f then Err ''load dynlib failed. filename is invaild''
     else if feature_namespace env then do_dlmopen env f lmid else dl_open env f)"

definition ServiceLoader_new :: "u64 \<Rightarrow> bool \<Rightarrow> ServiceLoader" where
  "ServiceLoader_new i libos =
    \<lparr>loader_isol_id = i, registered = Map.empty, loader_namespace = None, loader_with_libos = libos\<rparr>"

definition register_unit :: "LoadableUnit \<Rightarrow> ServiceLoader \<Rightarrow> ServiceLoader" where
  "register_unit u ld = ld\<lparr>registered := (registered ld)(unit_name u \<mapsto> unit_path u)\<rparr>"

definition register :: "IsolationConfig \<Rightarrow> ServiceLoader \<Rightarrow> ServiceLoader" where
  "register config ld = fold register_unit (services config) (fold register_unit (apps config) ld)"

definition load :: "('l, 'u) Env \<Rightarrow> u64 \<Rightarrow> string \<Rightarrow> nat \<Rightarrow> (('l, 'u) Visor, string, 'l Service) act" where
  "load env i name pkey = with_isol i (\<lambda>this_isol.
    case registered (loader this_isol) name of
      None \<Rightarrow> act_err ''unregistry library''
    | Some lib_path \<Rightarrow>
       (let m = fst (new_svc_metric name lib_path (metric this_isol)) in
        act_bind (set_isol i (\<lambda>this_isol. this_isol\<lparr>metric := snd (new_svc_metric name lib_path (metric this_isol))\<rparr>)) (\<lambda>_.
        act_bind (service_mark env i m SvcInit) (\<lambda>_.
        act_bind (act_map_err (\<lambda>e. ''load_dynlib faile: '' @ e)
                   (act_lift (load_dynlib env lib_path (loader_namespace (loader this_isol))))) (\<lambda>lib.
        act_bind (Service_new env i name lib_path lib m (loader_with_libos (loader this_isol)) pkey) (\<lambda>svc.
        act_bind (set_isol i (\<lambda>this_isol. this_isol\<lparr>loader := (loader this_isol)\<lparr>loader_namespace :=
                   (case loader_namespace (loader this_isol) of None \<Rightarrow> Some (dl_lmid env lib) | Some ns \<Rightarrow> Some ns)\<rparr>\<rparr>)) (\<lambda>_.
        act_bind (Service_init env svc (loader_isol_id (loader this_isol))) (\<lambda>_.
        act_ret svc))))))))"

definition load_app :: "('l, 'u) Env \<Rightarrow> u64 \<Rightarrow> string \<Rightarrow> (('l, 'u) Visor, string, 'l Service) act" where
  "load_app env i name =
    (if enable_mpk env then
       act_bind (act_get PKEY_COUNTER) (\<lambda>c.
       case must_pkey_alloc (pkey_per_func env) c of
         (r, c') \<Rightarrow>
           act_bind (act_modify (\<lambda>v. v\<lparr>PKEY_COUNTER := c'\<rparr>)) (\<lambda>_.
           case r of Ok pkey \<Rightarrow> load env i name pkey | _ \<Rightarrow> act_panic))
     else load env i name 0)"

definition load_service :: "('l, 'u) Env \<Rightarrow> u64 \<Rightarrow> string \<Rightarrow> (('l, 'u) Visor, string, 'l Service) act" where
  "load_service env i name =
    act_bind (isol_mark env i LoadService) (\<lambda>_.
    load env i name (if enable_mpk env then LIBOS_PKEY else 0))"

section \<open>Modules of an isolation\<close>

definition add_module :: "u64 \<Rightarrow> string \<Rightarrow> 'l Service \<Rightarrow> (('l, 'u) Visor, string, unit) act" where
  "add_module i name svc = set_isol i (\<lambda>this_isol. this_isol\<lparr>modules := (modules this_isol)(name \<mapsto> svc)\<rparr>)"

definition service_or_load :: "('l, 'u) Env \<Rightarrow> u64 \<Rightarrow> string \<Rightarrow> (('l, 'u) Visor, string, 'l Service) act" where
  "service_or_load env i name = with_isol i (\<lambda>this_isol.
    case modules this_isol name of
      Some svc \<Rightarrow> act_ret svc
    | None \<Rightarrow>
       act_bind (load_service env i name) (\<lambda>svc.
       act_bind (add_module i name svc) (\<lambda>_.
       act_bind (if enable_mpk env then set_libs_with_pkey env [elf_path (svc_elf svc)] LIBOS_PKEY
                 else act_ret ()) (\<lambda>_.
       act_ret svc))))"

definition app_or_load :: "('l, 'u) Env \<Rightarrow> u64 \<Rightarrow> string \<Rightarrow> (('l, 'u) Visor, string, 'l Service) act" where
  "app_or_load env i name = with_isol i (\<lambda>this_isol.
    case modules this_isol name of
      Some app \<Rightarrow> act_ret app
    | None \<Rightarrow>
       act_bind (load_app env i name) (\<lambda>app.
       act_bind (add_module i name app) (\<lambda>_.
       act_bind (if enable_mpk env
                 then set_libs_with_pkey env [elf_path (svc_elf app)] (elf_pkey (svc_elf app))
                 else act_ret ()) (\<lambda>_.
       act_ret app))))"

definition preload :: "('l, 'u) Env \<Rightarrow> u64 \<Rightarrow> IsolationConfig \<Rightarrow> (('l, 'u) Visor, string, unit) act" where
  "preload env i config = act_each (\<lambda>u. with_isol i (\<lambda>this_isol.
    if unit_name u \<in> set (app_names this_isol)
    then act_bind (app_or_load env i (unit_name u)) (\<lambda>_. act_ret ())
    else act_bind (service_or_load env i (unit_name u)) (\<lambda>_. act_ret ()))) (all_modules config)"

section \<open>Creating an isolation\<close>

text \<open>The kernel's answers to \<open>pkey_alloc\<close> come with the call. The two marks of the new
  metric bucket are made before the isolation is visible.\<close>

definition Isolation_new ::
  "('l, 'u) Env \<Rightarrow> (nat \<Rightarrow> int) \<Rightarrow> IsolationConfig \<Rightarrow> (('l, 'u) Visor, string, u64) act" where
  "Isolation_new env pkey_alloc config =
    act_bind gen_new_id (\<lambda>new_id.
    act_bind (if enable_mpk env
              then (case must_init_all_pkeys pkey_alloc of Ok _ \<Rightarrow> act_ret () | _ \<Rightarrow> act_panic)
              else act_ret ()) (\<lambda>_.
    act_bind (read_clock env) (\<lambda>t1.
    act_bind (read_clock env) (\<lambda>t2.
    case bind_res (metric_mark IsolBegin t1 MetricBucket_new) (metric_mark Mem t2) of
      Ok b \<Rightarrow>
        (let libos = (case with_libos config of None \<Rightarrow> True | Some x \<Rightarrow> x);
             this_isol = \<lparr>isol_ident = new_id,
                    loader = register config (ServiceLoader_new new_id libos),
                    metric = b,
                    app_names = map unit_name (apps config),
                    isol_groups = map group_to_isolation (groups config),
                    isol_fs_image = fs_image config,
                    modules = Map.empty\<rparr>
         in act_bind (act_modify (\<lambda>v. v\<lparr>isols := (isols v)(new_id \<mapsto> this_isol)\<rparr>)) (\<lambda>_.
            act_bind (act_get table_poisoned) (\<lambda>poisoned.
            if poisoned then act_panic
            else act_bind (act_modify (\<lambda>v. v\<lparr>ISOL_TABLE := ISOL_TABLE v @ [new_id]\<rparr>)) (\<lambda>_.
                 act_ret new_id))))
    | _ \<Rightarrow> act_panic))))"

section \<open>Host calls into the visor\<close>

definition is_visor_call :: "CommonHostCall \<Rightarrow> bool" where
  "is_visor_call c = (c = Metric \<or> c = FsImage \<or> c = SpawnFaultThread)"

fun visor_call_addr :: "('l, 'u) Env \<Rightarrow> CommonHostCall \<Rightarrow> u64" where
  "visor_call_addr env c =
    (if c = Metric then metric_handler_addr env
     else if c = FsImage then fs_image_handler_addr env
     else spawn_fault_thread_addr env)"

text \<open>The three calls of the visor itself, and those of the services.\<close>

definition find_common :: "('l, 'u) Env \<Rightarrow> u64 \<Rightarrow> CommonHostCall \<Rightarrow> (('l, 'u) Visor, string, u64) act" where
  "find_common env i c =
    (if is_visor_call c then act_ret (visor_call_addr env c)
     else
       act_bind (act_unwrap (service_or_load env i (common_belong_to c))) (\<lambda>service.
       case svc_interface env service (display_hostcall c) of
         None \<Rightarrow> act_panic
       | Some addr \<Rightarrow> act_ret addr))"

fun find_host_call :: "('l, 'u) Env \<Rightarrow> u64 \<Rightarrow> HostCallID \<Rightarrow> (('l, 'u) Visor, string, u64) act" where
  "find_host_call env isol (Common c) =
    act_bind (act_unwrap (get_isol isol)) (\<lambda>i. find_common env i c)"
| "find_host_call env isol (Custom s) =
    act_bind (act_unwrap (get_isol isol)) (\<lambda>i. act_panic)"

definition metric_handler :: "('l, 'u) Env \<Rightarrow> u64 \<Rightarrow> MetricEvent \<Rightarrow> (('l, 'u) Visor, string, unit) act" where
  "metric_handler env isol ev =
    act_bind (act_unwrap (get_isol isol)) (\<lambda>i. isol_mark env i ev)"

definition fs_image_handler :: "u64 \<Rightarrow> (('l, 'u) Visor, string, string option) act" where
  "fs_image_handler isol =
    act_bind (act_unwrap (get_isol isol)) (\<lambda>i. with_isol i (\<lambda>this_isol. act_ret (isol_fs_image this_isol)))"

text \<open>The handler thread itself runs in the file backend; here it is the address it is
  started at.\<close>

definition spwan_fault_thread_handler :: "('l, 'u) Env \<Rightarrow> u64 \<Rightarrow> (('l, 'u) Visor, string, u64) act" where
  "spwan_fault_thread_handler env isol =
    act_bind (act_unwrap (get_isol isol)) (\<lambda>i.
    act_bind (act_map_err (\<lambda>_. ''missing common_service: mmap_file_backend?'')
               (service_or_load env i ''mmap_file_backend'')) (\<lambda>svc.
    case svc_interface env svc (display_hostcall FilePageFaultHandler) of
      None \<Rightarrow> act_err ''missing inferface''
    | Some addr \<Rightarrow> act_ret addr))"

section \<open>Running\<close>

text \<open>With protection keys, the stack is given the key of the function
  (\<open>UserStack::mprotect\<close>) and the PKRU value is computed before the function is entered.\<close>

definition enter_protected :: "('l, 'u) Env \<Rightarrow> 'l ElfService \<Rightarrow> (('l, 'u) Visor, string, unit) act" where
  "enter_protected env elf =
    act_bind (act_get (\<lambda>v. new_stack env (clock_reads v))) (\<lambda>stack.
    if \<not> pkey_mprotect_ok env stack SERVICE_STACK_SIZE PROT_RW (elf_pkey elf)
    then act_err ''mprotect failed''
    else act_bind (act_lift (map_err (\<lambda>e. ''can't generate pkru: '' @ e)
           (user_pkru (int (elf_pkey elf))))) (\<lambda>_. act_ret ()))"

text \<open>\<open>ElfService::run\<close> with \<open>invoke_elf_symbol\<close>.\<close>

definition elf_run :: "('l, 'u) Env \<Rightarrow> u64 \<Rightarrow> 'l ElfService \<Rightarrow> args \<Rightarrow> (('l, 'u) Visor, string, unit) act" where
  "elf_run env i elf a =
    act_bind (service_mark env i (elf_metric elf) SvcRun) (\<lambda>_.
    case dl_sym env (elf_lib elf) ''rust_main'' of
      None \<Rightarrow> act_err ''missing main?''
    | Some rust_main \<Rightarrow>
       (case push_args a [] of
          Ok items \<Rightarrow>
            act_bind (if enable_mpk env then enter_protected env elf else act_ret ()) (\<lambda>_.
            act_bind (act_map_err (\<lambda>e. ''function '' @ elf_name elf @ '' run failed: '' @ e)
                       (run_symbol env rust_main items)) (\<lambda>_.
            service_mark env i (elf_metric elf) SvcEnd))
        | _ \<Rightarrow> act_panic))"

definition svc_run :: "('l, 'u) Env \<Rightarrow> u64 \<Rightarrow> 'l Service \<Rightarrow> args \<Rightarrow> (('l, 'u) Visor, string, unit) act" where
  "svc_run env i svc a = elf_run env i (svc_elf svc) a"

definition run_as_sequence :: "('l, 'u) Env \<Rightarrow> u64 \<Rightarrow> (('l, 'u) Visor, string, unit) act" where
  "run_as_sequence env i = with_isol i (\<lambda>this_isol.
    act_each (\<lambda>name.
      act_bind (act_map_err (\<lambda>e. ''load app failed: '' @ e) (app_or_load env i name)) (\<lambda>app.
      act_map_err (\<lambda>e. ''app_'' @ name @ '' run failed, reason: '' @ e)
        (svc_run env i app [(''id'', to_string 0)]))) (app_names this_isol))"

text \<open>What joining the scoped threads in order gives: \<open>join().expect\<close> panics on a panicked
  thread, the first error is returned, and the scope panics at its end if a thread that was
  not joined explicitly has panicked.\<close>

fun join_all :: "(string, unit) res list \<Rightarrow> (string, unit) res" where
  "join_all [] = Ok ()"
| "join_all (Ok _ # rs) = join_all rs"
| "join_all (Err e # rs) = (if Panic \<in> set rs then Panic else Err e)"
| "join_all (Panic # rs) = Panic"

definition run_group_in_parallel :: "('l, 'u) Env \<Rightarrow> u64 \<Rightarrow> App list \<Rightarrow> (('l, 'u) Visor, string, unit) act" where
  "run_group_in_parallel env i grp =
    act_bind (act_collect (\<lambda>a. app_or_load env i (app_name a)) grp) (\<lambda>loaded. \<lambda>v.
    (case schedule env
        (map (\<lambda>(app, cfg). act_map_err (\<lambda>e. ''app '' @ elf_name (svc_elf app) @ '' run failed. '' @ e)
               (svc_run env i app (app_args cfg))) (zip loaded grp)) v of
       (rs, v') \<Rightarrow> (join_all rs, v')))"

definition BLACKLIST :: "string list" where
  "BLACKLIST =
    [''/usr/lib/x86_64-linux-gnu/libc.so.6'', ''/usr/lib/x86_64-linux-gnu/ld-linux-x86-64.so.2'',
     ''/usr/lib/x86_64-linux-gnu/libgcc_s.so.1'', ''[heap]'', ''[stack]'', ''[vdso]'', ''[vvar]'']"

definition run_group_step :: "('l, 'u) Env \<Rightarrow> u64 \<Rightarrow> App list \<Rightarrow> (('l, 'u) Visor, string, unit) act" where
  "run_group_step env i g =
    act_map_err (\<lambda>e. ''run_group_in_parallel failed: '' @ e) (run_group_in_parallel env i g)"

definition isol_run :: "('l, 'u) Env \<Rightarrow> u64 \<Rightarrow> (('l, 'u) Visor, string, unit) act" where
  "isol_run env i =
    act_bind (isol_mark env i Mem) (\<lambda>_.
    act_bind (if enable_mpk env
              then set_libs_with_pkey env (BLACKLIST @ [this_proc_name env]) LIBOS_PKEY
              else act_ret ()) (\<lambda>_.
    act_bind (if feature_namespace env
              then act_bind (act_map_err (\<lambda>e. ''namespace feature, load libc failed: '' @ e)
                               (service_or_load env i ''libc'')) (\<lambda>_. act_ret ())
              else act_ret ()) (\<lambda>_.
    act_bind (with_isol i (\<lambda>this_isol.
                if isol_groups this_isol = []
                then act_map_err (\<lambda>e. ''run_as_sequence failed: '' @ e) (run_as_sequence env i)
                else act_each (run_group_step env i) (isol_groups this_isol))) (\<lambda>_.
    act_bind (isol_mark env i Mem) (\<lambda>_.
    isol_mark env i IsolEnd)))))"

end
