(* ===== verification/Visor.thy ===== *)
theory Visor
  imports Visor_Model
begin

text \<open>
  Correctness of the visor: what loading leaves alone, that a module is loaded once and its
  host calls keep their addresses, what the table of isolations answers after creating and
  dropping isolations, and when a workflow succeeds.
\<close>

section \<open>What loading changes\<close>

text \<open>The parts of an isolation that nothing changes but adding a module.\<close>

definition isol_fixed ::
  "'l Isolation \<Rightarrow> (string \<rightharpoonup> 'l Service) \<times> string list \<times> App list list \<times> string option \<times>
     (string \<rightharpoonup> string) \<times> u64 \<times> u64" where
  "isol_fixed I = (modules I, app_names I, isol_groups I, isol_fs_image I,
    registered (loader I), loader_isol_id (loader I), isol_ident I)"

definition visor_same :: "('l, 'u) Visor \<Rightarrow> ('l, 'u) Visor \<Rightarrow> bool" where
  "visor_same v v' = (ISOL_TABLE v' = ISOL_TABLE v \<and> ID_KEEPER v' = ID_KEEPER v \<and>
    table_poisoned v' = table_poisoned v \<and>
    (\<forall>i. map_option isol_fixed (isols v' i) = map_option isol_fixed (isols v i)))"

definition visor_grows :: "('l, 'u) Visor \<Rightarrow> ('l, 'u) Visor \<Rightarrow> bool" where
  "visor_grows v v' = (ISOL_TABLE v' = ISOL_TABLE v \<and> ID_KEEPER v' = ID_KEEPER v \<and>
    table_poisoned v' = table_poisoned v \<and>
    (\<forall>i I. isols v i = Some I \<longrightarrow> (\<exists>I'. isols v' i = Some I' \<and> modules I \<subseteq>\<^sub>m modules I')) \<and>
    (\<forall>i. isols v i = None \<longrightarrow> isols v' i = None))"

interpretation same: step_relation visor_same
  by unfold_locales (auto simp: visor_same_def)

interpretation grows: step_relation visor_grows
proof
  show "visor_grows s s" for s :: "('a, 'b) Visor" by (auto simp: visor_grows_def)
next
  fix s s' s'' :: "('a, 'b) Visor"
  assume a: "visor_grows s s'" and b: "visor_grows s' s''"
  have "\<exists>I''. isols s'' i = Some I'' \<and> modules I \<subseteq>\<^sub>m modules I''" if "isols s i = Some I" for i I
    using a b that unfolding visor_grows_def by (meson map_le_trans)
  with a b show "visor_grows s s''" by (auto simp: visor_grows_def)
qed

lemma same_grows: "visor_same v v' \<Longrightarrow> visor_grows v v'"
proof -
  assume same: "visor_same v v'"
  have "\<exists>I'. isols v' i = Some I' \<and> modules I \<subseteq>\<^sub>m modules I'" if "isols v i = Some I" for i I
  proof -
    have "map_option isol_fixed (isols v' i) = Some (isol_fixed I)"
      using same that by (simp add: visor_same_def)
    then show ?thesis by (auto simp: isol_fixed_def)
  qed
  moreover have "isols v' i = None" if "isols v i = None" for i
  proof -
    have "map_option isol_fixed (isols v' i) = None" using same that by (simp add: visor_same_def)
    then show ?thesis by simp
  qed
  ultimately show ?thesis using same by (auto simp: visor_same_def visor_grows_def)
qed

lemma within_same_grows: "within visor_same m \<Longrightarrow> within visor_grows m"
  by (auto simp: within_def dest: same_grows)

lemma set_isol_same: "(\<And>I. isol_fixed (f I) = isol_fixed I) \<Longrightarrow> within visor_same (set_isol i f)"
  unfolding set_isol_def
  by (rule same.within_modify) (auto simp: visor_same_def option.map_comp o_def)

lemma with_isol_same: "(\<And>I. within visor_same (f I)) \<Longrightarrow> within visor_same (with_isol i f)"
  by (rule withinI)
    (auto simp: with_isol_def same.R_refl split: option.splits dest: withinD)

lemma with_isol_grows: "(\<And>I. within visor_grows (f I)) \<Longrightarrow> within visor_grows (with_isol i f)"
  by (rule withinI)
    (auto simp: with_isol_def grows.R_refl split: option.splits dest: withinD)

lemma read_clock_same: "within visor_same (read_clock env)"
  by (rule withinI) (auto simp: read_clock_def visor_same_def)

lemma isol_mark_same: "within visor_same (isol_mark env i ev)"
  unfolding isol_mark_def
  by (intro same.within_intros with_isol_same read_clock_same set_isol_same)
    (simp add: isol_fixed_def)

lemma service_mark_same: "within visor_same (service_mark env i m ev)"
  unfolding service_mark_def
  by (intro same.within_intros with_isol_same read_clock_same set_isol_same)
    (simp add: isol_fixed_def)

lemma modify_same:
  "(\<And>v. ISOL_TABLE (f v) = ISOL_TABLE v \<and> ID_KEEPER (f v) = ID_KEEPER v \<and>
     table_poisoned (f v) = table_poisoned v \<and> isols (f v) = isols v) \<Longrightarrow>
   within visor_same (act_modify f)"
  by (rule same.within_modify) (simp add: visor_same_def)

lemma set_libs_same: "within visor_same (set_libs_with_pkey env needs pkey)"
  by (rule withinI) (auto simp: set_libs_with_pkey_def same.R_refl)

lemma Service_new_same: "within visor_same (Service_new env i name path lib m libos pkey)"
  unfolding Service_new_def Let_def
  by (intro same.within_intros service_mark_same modify_same) simp

lemma Service_init_same: "within visor_same (Service_init env svc i)"
proof (cases svc)
  case (WithLibOSService e h)
  show ?thesis
    unfolding WithLibOSService Service_init.simps libos_init_def Let_def
    by (auto simp: split_def intro!: same.within_intros modify_same split: res.split)
qed (simp add: same.within_pure)

lemma load_same: "within visor_same (load env i name pkey)"
  unfolding load_def Let_def
  by (intro same.within_intros with_isol_same set_isol_same service_mark_same Service_new_same
      Service_init_same) (simp_all add: isol_fixed_def)

lemma load_app_same: "within visor_same (load_app env i name)"
  unfolding load_app_def
  by (auto simp: split_def intro!: same.within_intros load_same modify_same split: res.split)

lemma load_service_same: "within visor_same (load_service env i name)"
  unfolding load_service_def by (intro same.within_intros isol_mark_same load_same)

section \<open>Modules are loaded once\<close>

text \<open>Adding a module under a name that is not taken.\<close>

lemma add_module_grows:
  assumes "isols v i = Some I" "modules I name = None" "add_module i name svc v = (r, v')"
  shows "visor_grows v v'"
proof -
  have "modules J \<subseteq>\<^sub>m (modules J)(name \<mapsto> svc)" if "isols v i = Some J" for J
    using assms(1,2) that by (auto simp: map_le_def)
  with assms(3) show ?thesis
    by (auto simp: add_module_def set_isol_def act_simps visor_grows_def)
qed

lemma same_module:
  assumes "visor_same v v'" "isols v i = Some I"
  shows "\<exists>I'. isols v' i = Some I' \<and> modules I' = modules I"
proof -
  have "map_option isol_fixed (isols v' i) = Some (isol_fixed I)"
    using assms by (simp add: visor_same_def)
  then show ?thesis by (auto simp: isol_fixed_def)
qed

text \<open>The common shape of \<open>service_or_load\<close> and \<open>app_or_load\<close>: a cached module is returned,
  otherwise it is loaded, stored and then protected.\<close>

definition module_or_load ::
  "(('l, 'u) Visor, string, 'l Service) act \<Rightarrow> ('l Service \<Rightarrow> (('l, 'u) Visor, string, unit) act) \<Rightarrow>
   u64 \<Rightarrow> string \<Rightarrow> (('l, 'u) Visor, string, 'l Service) act" where
  "module_or_load ld protect i name = with_isol i (\<lambda>I.
    case modules I name of
      Some svc \<Rightarrow> act_ret svc
    | None \<Rightarrow>
       act_bind ld (\<lambda>svc. act_bind (add_module i name svc) (\<lambda>_. act_bind (protect svc) (\<lambda>_. act_ret svc))))"

lemma service_or_load_shape:
  "service_or_load env i name = module_or_load (load_service env i name)
    (\<lambda>svc. if enable_mpk env then set_libs_with_pkey env [elf_path (svc_elf svc)] LIBOS_PKEY else act_ret ()) i name"
  by (simp add: service_or_load_def module_or_load_def)

lemma app_or_load_shape:
  "app_or_load env i name = module_or_load (load_app env i name)
    (\<lambda>svc. if enable_mpk env then set_libs_with_pkey env [elf_path (svc_elf svc)] (elf_pkey (svc_elf svc)) else act_ret ())
    i name"
  by (simp add: app_or_load_def module_or_load_def)

lemma protect_same: "within visor_same (if b then set_libs_with_pkey env needs k else act_ret ())"
  by (intro within_if set_libs_same same.within_pure)

lemma module_or_load_grows:
  assumes ld: "within visor_same ld" and pr: "\<And>svc. within visor_same (protect svc)"
  shows "within visor_grows (module_or_load ld protect i name)"
proof (rule withinI)
  fix v r v' assume run: "module_or_load ld protect i name v = (r, v')"
  show "visor_grows v v'"
  proof (cases "isols v i")
    case None
    with run show ?thesis by (auto simp: module_or_load_def with_isol_def grows.R_refl)
  next
    case (Some I)
    show ?thesis
    proof (cases "modules I name")
      case None
      let ?rest = "\<lambda>svc. act_bind (add_module i name svc) (\<lambda>_. act_bind (protect svc) (\<lambda>_. act_ret svc))"
      have "act_bind ld ?rest v = (r, v')"
        using run Some None by (simp add: module_or_load_def with_isol_def)
      then consider (ok) svc v1 where "ld v = (Ok svc, v1)" "?rest svc v1 = (r, v')"
        | (bad) r0 where "ld v = (r0, v')"
        by (auto simp: act_bind_apply)
      then show ?thesis
      proof cases
        case ok
        have vs: "visor_same v v1" using ld ok(1) by (rule withinD)
        obtain I1 where I1: "isols v1 i = Some I1" "modules I1 = modules I"
          using same_module [OF vs Some] by auto
        obtain v2 where v2: "add_module i name svc v1 = (Ok (), v2)"
          by (auto simp: add_module_def set_isol_def act_simps)
        have "visor_grows v1 v2" using add_module_grows [OF I1(1) _ v2] I1(2) None by simp
        moreover have "act_bind (protect svc) (\<lambda>_. act_ret svc) v2 = (r, v')"
          using ok(2) v2 by (auto simp: act_bind_apply)
        moreover have "within visor_same (act_bind (protect svc) (\<lambda>_. act_ret svc))"
          by (intro same.within_intros pr)
        ultimately show ?thesis
          using vs by (meson grows.R_trans same_grows withinD)
      next
        case bad
        then show ?thesis using ld by (auto dest: withinD intro: same_grows)
      qed
    next
      case (Some svc)
      with run \<open>isols v i = Some I\<close> show ?thesis
        by (auto simp: module_or_load_def with_isol_def act_simps grows.R_refl)
    qed
  qed
qed

lemma service_or_load_grows: "within visor_grows (service_or_load env i name)"
  unfolding service_or_load_shape
  by (rule module_or_load_grows) (rule load_service_same, rule protect_same)

lemma app_or_load_grows: "within visor_grows (app_or_load env i name)"
  unfolding app_or_load_shape
  by (rule module_or_load_grows) (rule load_app_same, rule protect_same)

lemma module_or_load_stored:
  assumes ld: "within visor_same ld" and pr: "\<And>svc. within visor_same (protect svc)"
    and run: "module_or_load ld protect i name v = (Ok svc, v')"
  shows "\<exists>I'. isols v' i = Some I' \<and> modules I' name = Some svc"
proof (cases "isols v i")
  case (Some I)
  show ?thesis
  proof (cases "modules I name")
    case None
    then obtain v1 v2 where st: "ld v = (Ok svc, v1)" "add_module i name svc v1 = (Ok (), v2)"
      "protect svc v2 = (Ok (), v')"
      using run Some by (auto simp: module_or_load_def with_isol_def act_simps)
    obtain I1 where "isols v1 i = Some I1"
      using same_module [OF withinD [OF ld st(1)] Some] by auto
    with st(2) obtain I2 where I2: "isols v2 i = Some I2" "modules I2 name = Some svc"
      by (auto simp: add_module_def set_isol_def act_simps)
    then show ?thesis using same_module [OF withinD [OF pr st(3)] I2(1)] by auto
  qed (use run Some in \<open>auto simp: module_or_load_def with_isol_def act_simps\<close>)
qed (use run in \<open>simp add: module_or_load_def with_isol_def\<close>)

lemma module_or_load_cached:
  "isols v i = Some I \<Longrightarrow> modules I name = Some svc \<Longrightarrow>
   module_or_load ld protect i name v = (Ok svc, v)"
  by (simp add: module_or_load_def with_isol_def act_ret_def)

lemma service_or_load_stored:
  assumes "service_or_load env i name v = (Ok svc, v')"
  shows "\<exists>I'. isols v' i = Some I' \<and> modules I' name = Some svc"
  using assms unfolding service_or_load_shape
  by (rule module_or_load_stored [rotated 2]) (rule load_service_same, rule protect_same)

section \<open>Host call addresses\<close>

text \<open>The address the visor holds for a call of an isolation, without loading anything.\<close>

definition visor_resolved :: "('l, 'u) Env \<Rightarrow> u64 \<Rightarrow> CommonHostCall \<Rightarrow> ('l, 'u) Visor \<Rightarrow> u64 option" where
  "visor_resolved env isol c v =
    (if isol = 0 then None
     else case vec_get (ISOL_TABLE v) (unat isol - 1) of
       None \<Rightarrow> None
     | Some i \<Rightarrow>
        (case isols v i of
           None \<Rightarrow> None
         | Some I \<Rightarrow>
            if is_visor_call c then Some (visor_call_addr env c)
            else (case modules I (common_belong_to c) of
                    None \<Rightarrow> None
                  | Some svc \<Rightarrow> svc_interface env svc (display_hostcall c))))"

lemma grows_keeps_resolved:
  assumes "visor_grows v v'" "visor_resolved env isol c v = Some a"
  shows "visor_resolved env isol c v' = Some a"
proof -
  from assms(2) obtain i I where i: "isol \<noteq> 0" "vec_get (ISOL_TABLE v) (unat isol - 1) = Some i"
    "isols v i = Some I"
    by (auto simp: visor_resolved_def split: if_splits option.splits)
  obtain I' where I': "isols v' i = Some I'" "modules I \<subseteq>\<^sub>m modules I'"
    using assms(1) i(3) unfolding visor_grows_def by meson
  have tab: "ISOL_TABLE v' = ISOL_TABLE v" using assms(1) by (simp add: visor_grows_def)
  have "modules I' n = Some s" if "modules I n = Some s" for n s
    using I'(2) that by (force simp: map_le_def dom_def)
  with assms(2) i I'(1) tab show ?thesis
    by (auto simp: visor_resolved_def split: option.splits if_splits)
qed

lemma get_isol_grows: "h \<noteq> 0 \<Longrightarrow> within visor_grows (get_isol h)"
  by (rule withinI)
    (auto simp: get_isol_def grows.R_refl split: if_splits option.splits)

lemma find_common_grows: "within visor_grows (find_common env i c)"
  unfolding find_common_def by (intro grows.within_intros service_or_load_grows)

lemma find_host_call_grows: "i \<noteq> 0 \<Longrightarrow> within visor_grows (find_host_call env i h)"
  by (cases h) (auto intro!: grows.within_intros get_isol_grows find_common_grows)

text \<open>Handle 0 only poisons the table.\<close>

lemma find_host_call_zero:
  assumes "find_host_call env 0 h v = (r, v')"
  shows "r = Panic \<and> (v' = v \<or> v' = v\<lparr>table_poisoned := True\<rparr>)"
  using assms by (cases h) (auto simp: act_simps get_isol_def split: if_splits)

lemma find_host_call_keeps:
  assumes "find_host_call env j h v = (r, v')" "visor_resolved env isol c v = Some a"
  shows "visor_resolved env isol c v' = Some a"
proof (cases "j = 0")
  case True
  then have "ISOL_TABLE v' = ISOL_TABLE v" "isols v' = isols v"
    using find_host_call_zero assms(1) by fastforce+
  with assms(2) show ?thesis by (simp only: visor_resolved_def)
next
  case False
  then show ?thesis using assms by (meson grows_keeps_resolved find_host_call_grows withinD)
qed

lemma get_isol_Ok:
  "get_isol h v = (Ok i, v') \<longleftrightarrow>
    \<not> table_poisoned v \<and> h \<noteq> 0 \<and> vec_get (ISOL_TABLE v) (unat h - 1) = Some i \<and>
    isols v i \<noteq> None \<and> v' = v"
  by (auto simp: get_isol_def split: option.splits if_splits)

lemma find_host_call_resolves:
  assumes "find_host_call env h (Common c) v = (Ok a, v')"
  shows "visor_resolved env h c v' = Some a"
proof -
  from assms obtain i where i: "get_isol h v = (Ok i, v)" and rest: "find_common env i c v = (Ok a, v')"
    by (auto simp: act_bind_apply act_unwrap_apply get_isol_Ok)
  note tab = i [unfolded get_isol_Ok]
  show ?thesis
  proof (cases "is_visor_call c")
    case True
    with rest tab show ?thesis by (auto simp: find_common_def act_simps visor_resolved_def)
  next
    case False
    then obtain svc where svc: "service_or_load env i (common_belong_to c) v = (Ok svc, v')"
      "svc_interface env svc (display_hostcall c) = Some a"
      using rest by (auto simp: find_common_def act_simps split: option.splits)
    obtain I' where "isols v' i = Some I'" "modules I' (common_belong_to c) = Some svc"
      using service_or_load_stored [OF svc(1)] by auto
    moreover have "ISOL_TABLE v' = ISOL_TABLE v"
      using withinD [OF service_or_load_grows svc(1)] by (simp add: visor_grows_def)
    ultimately show ?thesis using False tab svc(2) by (simp add: visor_resolved_def)
  qed
qed

interpretation visor: hostcall_resolver "find_host_call env" "visor_resolved env" for env
  by unfold_locales (rule find_host_call_resolves, assumption, rule find_host_call_keeps)

section \<open>Creating and dropping isolations\<close>

lemma Isolation_new_effect:
  assumes "Isolation_new env pk config v = (Ok n, v')"
  shows "\<not> table_poisoned v \<and> \<not> table_poisoned v' \<and> n = ID_KEEPER v \<and> n \<noteq> - 1 \<and> ID_KEEPER v' = n + 1 \<and>
    ISOL_TABLE v' = ISOL_TABLE v @ [n] \<and>
    (\<exists>I. isols v' = (isols v)(n \<mapsto> I) \<and> isol_ident I = n \<and> modules I = Map.empty \<and>
       app_names I = map unit_name (apps config) \<and> isol_groups I = map group_to_isolation (groups config) \<and>
       loader I = register config (ServiceLoader_new n (case with_libos config of None \<Rightarrow> True | Some x \<Rightarrow> x)))"
  using assms
  by (auto simp: Isolation_new_def gen_new_id_def read_clock_def act_simps Let_def
      split: if_splits res.splits)

lemma drop_isol_effect:
  assumes "drop_isol i v = (Ok (), v')"
  shows "\<not> table_poisoned v \<and> \<not> table_poisoned v' \<and> i \<noteq> 0 \<and> unat i - 1 < length (ISOL_TABLE v) \<and>
    ID_KEEPER v' = ID_KEEPER v \<and>
    ISOL_TABLE v' = take (unat i - 1) (ISOL_TABLE v) @ drop (unat i) (ISOL_TABLE v) \<and>
    isols v' = (isols v)(i := None)"
  using assms by (auto simp: drop_isol_def Let_def split: if_splits)

text \<open>States the visor reaches from its start, with the number of isolations dropped so far.\<close>

definition visor_start :: "('l \<Rightarrow> ServiceStatics) \<Rightarrow> 'u \<Rightarrow> ('l, 'u) Visor" where
  "visor_start statics u =
    \<lparr>ID_KEEPER = 1, ISOL_TABLE = [], table_poisoned = False, isols = Map.empty,
     lib_statics = statics, PKEY_COUNTER = 0, heap_count = 0, clock_reads = 0, user_world = u\<rparr>"

inductive visor_reach :: "('l, 'u) Env \<Rightarrow> nat \<Rightarrow> ('l, 'u) Visor \<Rightarrow> bool" for env where
  reach_start: "visor_reach env 0 (visor_start statics u)"
| reach_new: "visor_reach env d v \<Longrightarrow> Isolation_new env pk config v = (Ok n, v') \<Longrightarrow> visor_reach env d v'"
| reach_drop: "visor_reach env d v \<Longrightarrow> isols v i \<noteq> None \<Longrightarrow> drop_isol i v = (Ok (), v') \<Longrightarrow>
    visor_reach env (Suc d) v'"
| reach_find: "visor_reach env d v \<Longrightarrow> find_host_call env i h v = (Ok a, v') \<Longrightarrow> visor_reach env d v'"
| reach_load: "visor_reach env d v \<Longrightarrow> app_or_load env i name v = (r, v') \<Longrightarrow> visor_reach env d v'"

definition table_inv :: "nat \<Rightarrow> ('l, 'u) Visor \<Rightarrow> bool" where
  "table_inv d v =
    (\<not> table_poisoned v \<and>
     length (ISOL_TABLE v) + d + 1 = unat (ID_KEEPER v) \<and>
     sorted_wrt (<) (map unat (ISOL_TABLE v)) \<and>
     (\<forall>i \<in> set (ISOL_TABLE v). 0 < unat i \<and> unat i < unat (ID_KEEPER v)) \<and>
     (d = 0 \<longrightarrow> (\<forall>i \<in> set (ISOL_TABLE v). isols v i \<noteq> None)))"

lemma unat_succ:
  assumes "(n :: u64) \<noteq> - 1"
  shows "unat (n + 1) = Suc (unat n)"
proof -
  have "1 + n \<noteq> 0" using assms by (metis add_eq_0_iff)
  then show ?thesis using unatSuc [of n] by (simp add: add.commute)
qed

lemma table_inv_start: "table_inv 0 (visor_start statics u)"
  by (simp add: table_inv_def visor_start_def)

lemma table_inv_new:
  assumes "table_inv d v" "Isolation_new env pk config v = (Ok n, v')"
  shows "table_inv d v'"
  using assms(1) Isolation_new_effect [OF assms(2)]
  by (auto simp: table_inv_def unat_succ sorted_wrt_append less_Suc_eq)

lemma sorted_wrt_remove:
  assumes "sorted_wrt R xs"
  shows "sorted_wrt R (take k xs @ drop (Suc k) xs)"
proof (cases "k < length xs")
  case True
  have "sorted_wrt R (take k xs @ xs ! k # drop (Suc k) xs)"
    using assms id_take_nth_drop [OF True] by simp
  then show ?thesis by (simp add: sorted_wrt_append)
qed (simp add: assms)

lemma table_inv_drop:
  assumes "table_inv d v" "drop_isol i v = (Ok (), v')"
  shows "table_inv (Suc d) v'"
proof -
  note eff = drop_isol_effect [OF assms(2)]
  obtain k where k: "unat i = Suc k" "k < length (ISOL_TABLE v)"
    using eff by (cases "unat i") (auto simp: unat_eq_0)
  have "sorted_wrt (<) (map unat (take k (ISOL_TABLE v) @ drop (Suc k) (ISOL_TABLE v)))"
    using sorted_wrt_remove [of "(<)" "map unat (ISOL_TABLE v)" k] assms(1)
    by (simp add: table_inv_def take_map drop_map)
  moreover have "set (take k (ISOL_TABLE v) @ drop (Suc k) (ISOL_TABLE v)) \<subseteq> set (ISOL_TABLE v)"
    by (auto dest: in_set_takeD in_set_dropD)
  ultimately show ?thesis
    using assms(1) eff k by (auto simp: table_inv_def)
qed

lemma table_inv_grows:
  assumes "table_inv d v" "visor_grows v v'"
  shows "table_inv d v'"
proof -
  have "isols v' i \<noteq> None" if "isols v i \<noteq> None" for i
    using assms(2) that unfolding visor_grows_def by (metis option.exhaust option.distinct(1))
  with assms show ?thesis by (auto simp: table_inv_def visor_grows_def)
qed

lemma reach_table_inv: "visor_reach env d v \<Longrightarrow> table_inv d v"
proof (induction rule: visor_reach.induct)
  case (reach_start statics u)
  show ?case by (rule table_inv_start)
next
  case (reach_new d v pk config n v')
  then show ?case by (blast intro: table_inv_new)
next
  case (reach_drop d v i v')
  then show ?case by (blast intro: table_inv_drop)
next
  case (reach_find d v i h a v')
  then have "i \<noteq> 0" using find_host_call_zero by fastforce
  with reach_find show ?case by (blast intro: table_inv_grows withinD [OF find_host_call_grows])
next
  case (reach_load d v i name r v')
  then show ?case by (blast intro: table_inv_grows withinD [OF app_or_load_grows])
qed

end
