(* ===== verification/Visor_Props.thy ===== *)
theory Visor_Props
  imports Visor
begin

text \<open>
  The properties of the visor, with a small concrete environment in which each of them is
  exercised: libraries are named by their paths, every symbol resolves, thread bodies run
  one after the other.
\<close>

fun run_in_order :: "('s, 'e, unit) act list \<Rightarrow> 's \<Rightarrow> ('e, unit) res list \<times> 's" where
  "run_in_order [] v = ([], v)"
| "run_in_order (t # ts) v =
    (case t v of (r, v1) \<Rightarrow> (case run_in_order ts v1 of (rs, v2) \<Rightarrow> (r # rs, v2)))"

definition sample_env :: "(string, nat) Env" where
  "sample_env =
    \<lparr>env_is_file = (\<lambda>p. p \<noteq> []), env_root_join = (\<lambda>p. p), dl_open = (\<lambda>p. Ok p),
     dl_mopen = (\<lambda>p ns. Ok p), dl_sym = (\<lambda>lib sym. Some (word_of_nat (length lib * 1000 + length sym))),
     dl_lmid = (\<lambda>lib. 0), lib_alloc_def = (\<lambda>lib. True), now = (\<lambda>k. Suc k),
     new_heap = (\<lambda>n. word_of_nat ((n + 1) * 4294967296)), new_stack = (\<lambda>n. 0),
     segments = (\<lambda>k. []), pkey_mprotect_ok = (\<lambda>a l p k. True), path_contains = (\<lambda>p q. p = q),
     run_symbol = (\<lambda>a items v. (Ok (), v\<lparr>user_world := Suc (user_world v)\<rparr>)),
     schedule = run_in_order, enable_mpk = False, pkey_per_func = False, feature_namespace = False,
     this_proc_name = ''asvisor'', find_host_call_addr = 0x40, panic_handler_addr = 0x48,
     metric_handler_addr = 0x50, fs_image_handler_addr = 0x58, spawn_fault_thread_addr = 0x60\<rparr>"

definition sample_config :: IsolationConfig where
  "sample_config =
    \<lparr>services = [LoadableUnit ''fdtab'' ''libfdtab.so'', LoadableUnit ''stdio'' ''libstdio.so''],
     apps = [LoadableUnit ''hello'' ''libhello.so''], fs_image = None, with_libos = None,
     groups = [\<lparr>group_list = [Name ''hello'', Name ''hello''], group_args = []\<rparr>]\<rparr>"

definition sample_start :: "(string, nat) Visor" where
  "sample_start = visor_start (\<lambda>_. fresh_statics) 0"

definition sample_new :: "(string, nat) Visor \<Rightarrow> (string, nat) Visor" where
  "sample_new v = snd (Isolation_new sample_env (\<lambda>_. 0) sample_config v)"

lemma sample_new_ok:
  "\<not> table_poisoned v \<Longrightarrow> ID_KEEPER v \<noteq> - 1 \<Longrightarrow>
   Isolation_new sample_env (\<lambda>_. 0) sample_config v = (Ok (ID_KEEPER v), sample_new v)"
  unfolding sample_new_def
  by (simp add: Isolation_new_def gen_new_id_def sample_env_def act_defs read_clock_def Let_def
      MetricBucket_new_def)

lemma sample_new_fields:
  assumes "\<not> table_poisoned v" "ID_KEEPER v \<noteq> - 1"
  shows "ID_KEEPER (sample_new v) = ID_KEEPER v + 1" "\<not> table_poisoned (sample_new v)"
    "ISOL_TABLE (sample_new v) = ISOL_TABLE v @ [ID_KEEPER v]"
    "isols (sample_new v) (ID_KEEPER v) \<noteq> None"
  using Isolation_new_effect [OF sample_new_ok [OF assms]] by auto

lemma sample_start_fields [simp]:
  "ID_KEEPER sample_start = 1" "\<not> table_poisoned sample_start" "ISOL_TABLE sample_start = []"
  "isols sample_start = Map.empty"
  by (simp_all add: sample_start_def visor_start_def)

lemma reach_sample_start: "visor_reach sample_env 0 sample_start"
  unfolding sample_start_def by (rule reach_start)

lemma reach_sample_new:
  "visor_reach sample_env d v \<Longrightarrow> \<not> table_poisoned v \<Longrightarrow> ID_KEEPER v \<noteq> - 1 \<Longrightarrow>
   visor_reach sample_env d (sample_new v)"
  by (rule reach_new [OF _ sample_new_ok])

section \<open>The isolation table\<close>

lemma strict_sorted_full:
  assumes "sorted_wrt (<) xs" "set xs \<subseteq> {1..<Suc n}" "length xs = n"
  shows "xs = [1..<Suc n]"
proof -
  have "card (set xs) = n" using assms by (simp add: distinct_card strict_sorted_iff)
  then have "set xs = {1..<Suc n}" using assms(2) by (intro card_subset_eq) auto
  then have "set xs = set [1..<Suc n]" by (simp only: set_upt)
  then show ?thesis
    using assms(1) by (intro sorted_distinct_set_unique) (auto simp: strict_sorted_iff simp del: upt_Suc)
qed

lemma table_full:
  assumes "table_inv 0 v"
  shows "map unat (ISOL_TABLE v) = [1..<unat (ID_KEEPER v)]"
proof -
  let ?n = "length (ISOL_TABLE v)"
  have len: "unat (ID_KEEPER v) = Suc ?n" using assms by (simp add: table_inv_def)
  have "map unat (ISOL_TABLE v) = [1..<Suc ?n]"
    using assms len by (intro strict_sorted_full) (auto simp: table_inv_def Suc_le_eq)
  with len show ?thesis by simp
qed

text \<open>As long as no isolation has been dropped, every id handed out so far names, through
  the table, the isolation that was created with it.\<close>

theorem get_isol_finds_all:
  assumes "visor_reach env 0 v" and "0 < unat i" and "unat i < unat (ID_KEEPER v)"
  shows "get_isol i v = (Ok i, v)"
proof -
  have inv: "table_inv 0 v" using assms(1) by (rule reach_table_inv)
  have k: "unat i - 1 < length (ISOL_TABLE v)" using inv assms(2,3) by (auto simp: table_inv_def)
  have "map unat (ISOL_TABLE v) ! (unat i - 1) = unat i"
    using table_full [OF inv] assms(2,3) by simp
  with k have at: "ISOL_TABLE v ! (unat i - 1) = i" by (simp add: word_unat_eq_iff)
  with k have "isols v i \<noteq> None" using inv nth_mem [OF k] by (simp add: table_inv_def)
  with inv k at assms(2) show ?thesis
    by (auto simp: get_isol_def table_inv_def)
qed

theorem get_isol_finds_all_witness:
  "get_isol 1 (sample_new sample_start) = (Ok 1, sample_new sample_start)"
proof -
  have "visor_reach sample_env 0 (sample_new sample_start)"
    by (rule reach_sample_new [OF reach_sample_start]) simp_all
  moreover have "ID_KEEPER (sample_new sample_start) = 2"
    using sample_new_fields(1) [of sample_start] by simp
  ultimately show ?thesis using get_isol_finds_all [of sample_env "sample_new sample_start" 1] by simp
qed

text \<open>C6: The table is indexed by id but \<open>Drop\<close> removes the entry and shifts the later ones
  down. Once an isolation has been dropped, an isolation created afterwards is not found
  under its own id: every host call it resolves panics, and dropping it panics and poisons
  the table.\<close>

theorem isolation_lost_after_drop:
  assumes "visor_reach env d v" and "Isolation_new env pk config v = (Ok n, v')"
  shows "get_isol n v' = (if d = 0 then (Ok n, v') else (Err ''isol don't exsit'', v'))
    \<and> (0 < d \<longrightarrow> fst (find_host_call env n h v') = Panic
        \<and> (\<exists>v''. drop_isol n v' = (Panic, v'') \<and> table_poisoned v''))"
proof -
  have inv: "table_inv d v" using assms(1) by (rule reach_table_inv)
  note eff = Isolation_new_effect [OF assms(2)]
  have len: "length (ISOL_TABLE v) + d = unat n - 1" "0 < unat n"
    using inv eff by (auto simp: table_inv_def)
  then have n0: "n \<noteq> 0" by auto
  show ?thesis
  proof (cases "d = 0")
    case True
    then have "vec_get (ISOL_TABLE v') (unat n - 1) = Some n"
      using len eff by (simp add: vec_get_append_one)
    with True eff n0 show ?thesis by (auto simp: get_isol_def)
  next
    case False
    have out: "vec_get (ISOL_TABLE v') (unat n - 1) = None"
      using eff len False by (intro vec_get_out) simp
    with eff n0 have lookup: "get_isol n v' = (Err ''isol don't exsit'', v')"
      by (simp add: get_isol_def)
    then have "fst (find_host_call env n h v') = Panic"
      by (cases h) (simp_all add: act_defs)
    moreover have "\<exists>v''. drop_isol n v' = (Panic, v'') \<and> table_poisoned v''"
      using eff len False n0 by (simp add: drop_isol_def Let_def)
    ultimately show ?thesis using lookup False by simp
  qed
qed

theorem isolation_lost_after_drop_witness:
  "let v1 = snd (drop_isol 1 (sample_new sample_start)) in
   visor_reach sample_env 1 v1 \<and> get_isol 2 (sample_new v1) = (Err ''isol don't exsit'', sample_new v1)"
proof -
  let ?v0 = "sample_new sample_start"
  let ?v1 = "snd (drop_isol 1 ?v0)"
  note f0 = sample_new_fields [of sample_start, simplified]
  have d: "drop_isol 1 ?v0 = (Ok (), ?v1)"
    using f0 by (simp add: drop_isol_def Let_def)
  have r0: "visor_reach sample_env 0 ?v0"
    by (rule reach_sample_new [OF reach_sample_start]) simp_all
  have r1: "visor_reach sample_env 1 ?v1"
    using reach_drop [OF r0 _ d] f0 by simp
  have k1: "ID_KEEPER ?v1 = 2" "\<not> table_poisoned ?v1"
    using drop_isol_effect [OF d] f0 by simp_all
  have "Isolation_new sample_env (\<lambda>_. 0) sample_config ?v1 = (Ok 2, sample_new ?v1)"
    using sample_new_ok [of ?v1] k1 by simp
  then show ?thesis using isolation_lost_after_drop [OF r1, of "\<lambda>_. 0" sample_config 2] r1
    by (simp add: Let_def)
qed

section \<open>Host calls and modules\<close>

text \<open>C8: In a service that starts with an empty table of entry addresses, every address that
  a sequence of host calls was answered with is the address the visor holds for that call
  of that isolation when the sequence ends.\<close>

theorem hostcall_addresses_agree:
  assumes "resolve_all (find_host_call env) s cs (UserHostCall_new, v) = (rs, t', v')"
    and "k < length cs" and "rs ! k = Ok a"
  shows "visor_resolved env (isol_id (ISOLATION_CTX s)) (cs ! k) v' = Some a"
  using visor.resolve_all_answers [OF visor.new_table_agrees assms(1,2,3)] by simp

definition sample_ctx :: ServiceStatics where
  "sample_ctx = \<lparr>ISOLATION_CTX = \<lparr>isol_id = 1, find_handler = 0x40, panic_handler = 0x48,
     heap_range = (0, 0)\<rparr>, HEAP_ALLOCATOR = None\<rparr>"

theorem hostcall_addresses_agree_witness:
  "let (rs, t', v') = resolve_all (find_host_call sample_env) sample_ctx [Metric, FsImage]
        (UserHostCall_new, sample_new sample_start)
   in rs = [Ok 0x50, Ok 0x58] \<and> visor_resolved sample_env 1 FsImage v' = Some 0x58"
proof -
  let ?v = "sample_new sample_start"
  obtain rs t' v' where run: "resolve_all (find_host_call sample_env) sample_ctx [Metric, FsImage]
      (UserHostCall_new, ?v) = (rs, t', v')"
    by (metis prod_cases3)
  have "get_isol 1 ?v = (Ok 1, ?v)"
    using sample_new_fields [of sample_start]
    by (auto simp: get_isol_def)
  then have rs: "rs = [Ok 0x50, Ok 0x58]"
    using run
    by (simp add: get_or_find_def isolation_ctx_def sample_ctx_def act_defs find_common_def
        is_visor_call_def UserHostCall_new_def sample_env_def)
  moreover have "visor_resolved sample_env 1 FsImage v' = Some 0x58"
    using hostcall_addresses_agree [OF run, of 1 "0x58"] rs by (simp add: sample_ctx_def)
  ultimately show ?thesis using run by simp
qed






lemma sample_isol:
  "\<exists>I. isols (sample_new sample_start) 1 = Some I \<and> modules I ''stdio'' = None \<and>
     registered (loader I) ''stdio'' = Some ''libstdio.so'' \<and> loader_with_libos (loader I) \<and>
     load_service_num (metric I) = 0"
  unfolding sample_new_def sample_start_def visor_start_def
  by (simp add: Isolation_new_def gen_new_id_def sample_env_def sample_config_def act_defs
      read_clock_def Let_def MetricBucket_new_def register_def register_unit_def ServiceLoader_new_def)


text \<open>C28: With protection keys, a service whose pages cannot be given the LibOS key is reported
  as an error, but it stays in the table of modules: the next request for it succeeds without
  any further attempt to protect it.\<close>

theorem unprotected_service_is_kept:
  assumes "enable_mpk env" and "isols v i = Some I" and "modules I name = None"
    and "load_service env i name v = (Ok svc, v1)"
    and "set_libs_with_pkey env [elf_path (svc_elf svc)] LIBOS_PKEY
           (snd (add_module i name svc v1)) = (Err e, v2)"
  shows "service_or_load env i name v = (Err e, v2) \<and> service_or_load env i name v2 = (Ok svc, v2)"
proof
  show "service_or_load env i name v = (Err e, v2)"
    using assms by (simp add: service_or_load_def with_isol_def act_defs add_module_def set_isol_def)
  obtain I1 where "isols v1 i = Some I1"
    using same_module [OF withinD [OF load_service_same assms(4)] assms(2)] by auto
  moreover have "isols v2 = isols (snd (add_module i name svc v1))"
    using assms(5) by (auto simp: set_libs_with_pkey_def)
  ultimately show "service_or_load env i name v2 = (Ok svc, v2)"
    by (simp add: service_or_load_def with_isol_def add_module_def set_isol_def act_defs)
qed

definition refusing_env :: "(string, nat) Env" where
  "refusing_env = sample_env\<lparr>enable_mpk := True,
     segments := (\<lambda>k. [\<lparr>start_addr = 0, seg_length = 4096, seg_perm = 1, seg_path = Some ''libstdio.so''\<rparr>]),
     pkey_mprotect_ok := (\<lambda>a l p k. a \<noteq> 0)\<rparr>"

theorem unprotected_service_is_kept_witness:
  "\<exists>svc e v2. service_or_load refusing_env 1 ''stdio'' (sample_new sample_start) = (Err e, v2) \<and>
     service_or_load refusing_env 1 ''stdio'' v2 = (Ok svc, v2)"
proof -
  let ?v = "sample_new sample_start"
  obtain I where I: "isols ?v 1 = Some I" "modules I ''stdio'' = None"
    "registered (loader I) ''stdio'' = Some ''libstdio.so''" "loader_with_libos (loader I)"
    "load_service_num (metric I) = 0"
    using sample_isol by auto
  have heap0: "heap_count ?v = 0"
    unfolding sample_new_def sample_start_def visor_start_def
    by (simp add: Isolation_new_def gen_new_id_def sample_env_def act_defs read_clock_def Let_def
        MetricBucket_new_def)
  have "\<exists>svc v1. load_service refusing_env 1 ''stdio'' ?v = (Ok svc, v1) \<and> elf_path (svc_elf svc) = ''libstdio.so''"
    using I heap0
    by (simp add: load_service_def load_def with_isol_def isol_mark_def
        service_mark_def read_clock_def set_isol_def new_svc_metric_def mark_svc_def
        load_dynlib_def Service_new_def libos_init_def SHOULD_NOT_SET_CONTEXT_def sample_env_def
        refusing_env_def act_defs Let_def)
  then obtain svc v1 where ld: "load_service refusing_env 1 ''stdio'' ?v = (Ok svc, v1)"
    "elf_path (svc_elf svc) = ''libstdio.so''" by blast
  have mpk: "enable_mpk refusing_env" by (simp add: refusing_env_def)
  have "set_libs_with_pkey refusing_env [elf_path (svc_elf svc)] LIBOS_PKEY
      (snd (add_module 1 ''stdio'' svc v1)) = (Err ''mprotect failed'', snd (add_module 1 ''stdio'' svc v1))"
    by (simp add: set_libs_with_pkey_def refusing_env_def sample_env_def ld(2))
  from unprotected_service_is_kept [OF mpk I(1,2) ld(1) this] show ?thesis by blast
qed

section \<open>Registration\<close>

lemma registered_fold:
  "registered (fold register_unit us ld) name =
    (case map_of (rev (map (\<lambda>u. (unit_name u, unit_path u)) us)) name of
       Some p \<Rightarrow> Some p | None \<Rightarrow> registered ld name)"
proof (induction us arbitrary: ld)
  case (Cons u us)
  then show ?case
    by (auto simp: register_unit_def map_add_def split: option.splits)
qed simp

text \<open>A name is looked up among the services of the configuration first, the last entry of
  that name winning, and among the functions only when no service has it.\<close>

theorem register_prefers_services:
  shows "registered (register config (ServiceLoader_new i libos)) name =
    (case map_of (rev (map (\<lambda>u. (unit_name u, unit_path u)) (services config))) name of
       Some p \<Rightarrow> Some p
     | None \<Rightarrow> map_of (rev (map (\<lambda>u. (unit_name u, unit_path u)) (apps config))) name)"
  by (simp add: register_def registered_fold ServiceLoader_new_def split: option.splits)

section \<open>Running a workflow\<close>

text \<open>Joining the functions of a group gives a panic if any of them panicked, otherwise the
  error of the first one in the order of the group that failed, and success only when all of
  them succeeded.\<close>

theorem join_all_result:
  shows "join_all rs =
    (if Panic \<in> set rs then Panic
     else case filter (\<lambda>r. \<not> is_ok r) rs of [] \<Rightarrow> Ok () | r # _ \<Rightarrow> r)"
  by (induction rs rule: join_all.induct) auto






end
