(* ===== verification/Sort_Algorithms.thy ===== *)
theory Sort_Algorithms
  imports Rust_Prelude Rust_Fmt
begin

text \<open>
  The algorithms of the parallel sort workflow: choosing pivots (\<open>user/sorter\<close>), splitting a
  sorted array at the pivots (\<open>split_numbers\<close> of \<open>user/splitter\<close>), merging sorted partitions
  (\<open>merge_partitions\<close> of \<open>user/merger\<close>) and the final check (\<open>user/checker\<close>). Numbers are
  32-bit words.
\<close>

section \<open>Splitting\<close>

text \<open>The loop over the pivots: result so far and \<open>current_start\<close>.\<close>

fun split_loop :: "u32 list \<Rightarrow> u32 list \<Rightarrow> u32 list list \<Rightarrow> nat \<Rightarrow> u32 list list \<times> nat" where
  "split_loop numbers [] result current_start = (result, current_start)"
| "split_loop numbers (pivot # pivots) result current_start =
    (let current_partition = takeWhile (\<lambda>num. num < pivot) (drop current_start numbers);
         result' = result @ [current_partition];
         current_start' = current_start + length current_partition
     in if current_start' \<ge> length numbers then (result', current_start')
        else split_loop numbers pivots result' current_start')"

definition split_numbers :: "u32 list \<Rightarrow> u32 list \<Rightarrow> u32 list list" where
  "split_numbers numbers pivots =
    (case split_loop numbers pivots [] 0 of
       (result, current_start) \<Rightarrow> result @ [drop current_start numbers])"

section \<open>Merging\<close>

text \<open>The inner loop: the smallest of the current elements below the value found so far.\<close>

fun scan_min :: "u32 list list \<Rightarrow> nat list \<Rightarrow> nat \<Rightarrow> u32 \<times> nat option \<Rightarrow> u32 \<times> nat option" where
  "scan_min ps [] i best = best"
| "scan_min ps (index # rest) i best =
    scan_min ps rest (Suc i)
      (if index < length (ps ! i) \<and> ps ! i ! index < fst best then (ps ! i ! index, Some i) else best)"

definition merge_step :: "u32 list list \<Rightarrow> nat list \<Rightarrow> (u32 \<times> nat) option" where
  "merge_step ps indices =
    (case scan_min ps indices 0 (- 1, None) of
       (min_value, Some k) \<Rightarrow> Some (min_value, k)
     | (min_value, None) \<Rightarrow> None)"

lemma scan_min_spec:
  assumes "scan_min ps rest i best = res"
  shows "fst res \<le> fst best \<and>
    (\<forall>j < length rest. rest ! j < length (ps ! (i + j)) \<longrightarrow> fst res \<le> ps ! (i + j) ! (rest ! j)) \<and>
    (res = best \<or> (\<exists>j < length rest. snd res = Some (i + j) \<and> rest ! j < length (ps ! (i + j)) \<and>
       fst res = ps ! (i + j) ! (rest ! j) \<and> fst res < fst best))"
  using assms
proof (induction rest arbitrary: i best)
  case (Cons index rest)
  let ?b = "if index < length (ps ! i) \<and> ps ! i ! index < fst best then (ps ! i ! index, Some i) else best"
  have run: "scan_min ps rest (Suc i) ?b = res" using Cons.prems by simp
  note ih = Cons.IH [OF run]
  have le: "fst ?b \<le> fst best" by auto
  have first: "index < length (ps ! i) \<longrightarrow> fst ?b \<le> ps ! i ! index" by auto
  have bound: "fst res \<le> ps ! (i + j) ! ((index # rest) ! j)"
    if "j < length (index # rest)" "(index # rest) ! j < length (ps ! (i + j))" for j
  proof (cases j)
    case 0
    with that ih first show ?thesis by (auto intro: order_trans)
  next
    case (Suc j')
    with that ih show ?thesis by auto
  qed
  from ih consider (kept) "res = ?b"
    | (later) j where "j < length rest" "snd res = Some (Suc i + j)" "rest ! j < length (ps ! (Suc i + j))"
        "fst res = ps ! (Suc i + j) ! (rest ! j)" "fst res < fst ?b"
    by blast
  then have "res = best \<or> (\<exists>j < length (index # rest). snd res = Some (i + j) \<and>
      (index # rest) ! j < length (ps ! (i + j)) \<and> fst res = ps ! (i + j) ! ((index # rest) ! j) \<and>
      fst res < fst best)"
  proof cases
    case kept
    then show ?thesis by (auto intro!: exI [of _ 0] split: if_splits)
  next
    case later
    with le have "fst res < fst best" by (meson less_le_trans)
    with later show ?thesis by (intro disjI2 exI [of _ "Suc j"]) auto
  qed
  with ih le bound show ?case by (meson order_trans)
qed simp

lemma merge_step_Some:
  assumes "merge_step ps indices = Some (mv, k)"
  shows "k < length indices" "indices ! k < length (ps ! k)" "mv = ps ! k ! (indices ! k)" "mv < - 1"
    "\<forall>j < length indices. indices ! j < length (ps ! j) \<longrightarrow> mv \<le> ps ! j ! (indices ! j)"
proof -
  have "scan_min ps indices 0 (- 1, None) = (mv, Some k)"
    using assms by (auto simp: merge_step_def split: prod.splits option.splits)
  from scan_min_spec [OF this] have
    "\<forall>j < length indices. indices ! j < length (ps ! j) \<longrightarrow> mv \<le> ps ! j ! (indices ! j)"
    "k < length indices \<and> indices ! k < length (ps ! k) \<and> mv = ps ! k ! (indices ! k) \<and> mv < - 1"
    by auto
  then show "k < length indices" "indices ! k < length (ps ! k)" "mv = ps ! k ! (indices ! k)" "mv < - 1"
    "\<forall>j < length indices. indices ! j < length (ps ! j) \<longrightarrow> mv \<le> ps ! j ! (indices ! j)"
    by auto
qed

lemma merge_step_None:
  assumes "merge_step ps indices = None"
  shows "\<forall>j < length indices. indices ! j < length (ps ! j) \<longrightarrow> ps ! j ! (indices ! j) = - 1"
proof -
  obtain mv where scan: "scan_min ps indices 0 (- 1, None) = (mv, None)"
    using assms by (auto simp: merge_step_def split: prod.splits option.splits)
  then have "mv = - 1" using scan_min_spec [OF scan] by auto
  with scan_min_spec [OF scan] show ?thesis by (auto intro: word_order.extremum_uniqueI)
qed

definition remaining :: "u32 list list \<Rightarrow> nat list \<Rightarrow> nat" where
  "remaining ps indices = (\<Sum>j < length indices. length (ps ! j) - indices ! j)"

lemma remaining_step:
  assumes "k < length indices" "indices ! k < length (ps ! k)"
  shows "remaining ps (indices[k := Suc (indices ! k)]) < remaining ps indices"
proof -
  let ?f = "\<lambda>is j. length (ps ! j) - is ! j"
  let ?new = "indices[k := Suc (indices ! k)]"
  have "sum (?f ?new) {..<length indices} < sum (?f indices) {..<length indices}"
    using assms by (intro sum_strict_mono_ex1) (auto simp: nth_list_update)
  then show ?thesis by (simp add: remaining_def)
qed

function merge_loop :: "u32 list list \<Rightarrow> nat list \<Rightarrow> u32 list \<Rightarrow> u32 list" where
  "merge_loop ps indices dst =
    (case merge_step ps indices of
       Some (min_value, k) \<Rightarrow> merge_loop ps (indices[k := Suc (indices ! k)]) (dst @ [min_value])
     | None \<Rightarrow> dst)"
  by pat_completeness auto

termination
  by (relation "measure (\<lambda>(ps, indices, dst). remaining ps indices)")
    (auto intro: remaining_step dest: merge_step_Some)

declare merge_loop.simps [simp del]

definition merge_partitions :: "u32 list list \<Rightarrow> u32 list \<Rightarrow> u32 list" where
  "merge_partitions partitions dst = merge_loop partitions (map (\<lambda>_. 0) partitions) dst"

section \<open>Choosing pivots\<close>

text \<open>The pivots of the first sorter: \<open>merger_num - 1\<close> underflows for 0, and an index out of
  range panics.\<close>

fun pick_pivots :: "u32 list \<Rightarrow> nat \<Rightarrow> nat list \<Rightarrow> (string, u32 list) res" where
  "pick_pivots array merger_num [] = Ok []"
| "pick_pivots array merger_num (i # is) =
    (let idx = (i + 1) * length array div merger_num in
     if idx < length array then map_ok (\<lambda>ps. array ! idx # ps) (pick_pivots array merger_num is)
     else Panic)"

definition choose_pivots :: "u32 list \<Rightarrow> nat \<Rightarrow> (string, u32 list) res" where
  "choose_pivots array merger_num =
    (if merger_num = 0 then Panic else pick_pivots array merger_num [0..<merger_num - 1])"

section \<open>Checking the result\<close>

fun check_results :: "u32 \<Rightarrow> u32 list list \<Rightarrow> (string, unit) res" where
  "check_results last_max [] = Ok ()"
| "check_results last_max (array # rest) =
    (if \<not> sorted array then Err ''sort result is wrong''
     else case array of
       [] \<Rightarrow> check_results last_max rest
     | first # _ \<Rightarrow>
        if first < last_max then Err ''sort result is wrong'' else check_results first rest)"

section \<open>A reference splitting\<close>

fun split_ref :: "u32 list \<Rightarrow> u32 list \<Rightarrow> u32 list list" where
  "split_ref numbers [] = [numbers]"
| "split_ref numbers (pivot # pivots) =
    (let rest = dropWhile (\<lambda>num. num < pivot) numbers in
     takeWhile (\<lambda>num. num < pivot) numbers # (if rest = [] then [[]] else split_ref rest pivots))"

text \<open>The workflow as a function: the arrays of the sorters, the results of the mergers.\<close>

definition split_all :: "u32 list list \<Rightarrow> u32 list \<Rightarrow> u32 list list list" where
  "split_all arrays pivots = map (\<lambda>a. split_numbers a pivots) arrays"

definition merge_all :: "nat \<Rightarrow> u32 list list list \<Rightarrow> u32 list list" where
  "merge_all merger_num splits = map (\<lambda>j. merge_partitions (map (\<lambda>s. s ! j) splits) []) [0..<merger_num]"

section \<open>Correctness of merging\<close>

definition pending :: "u32 list list \<Rightarrow> nat list \<Rightarrow> u32 multiset" where
  "pending ps indices = (\<Sum>j < length indices. mset (drop (indices ! j) (ps ! j)))"

lemma pending_step:
  assumes "k < length indices" "indices ! k < length (ps ! k)"
  shows "pending ps indices =
    add_mset (ps ! k ! (indices ! k)) (pending ps (indices[k := Suc (indices ! k)]))"
proof -
  let ?g = "\<lambda>is j. mset (drop (is ! j) (ps ! j))"
  let ?new = "indices[k := Suc (indices ! k)]"
  have fin: "finite {..<length indices}" "k \<in> {..<length indices}" using assms(1) by auto
  have "sum (?g indices) {..<length indices} = ?g indices k + sum (?g indices) ({..<length indices} - {k})"
    using fin by (rule sum.remove)
  moreover have "sum (?g ?new) {..<length indices} = ?g ?new k + sum (?g ?new) ({..<length indices} - {k})"
    using fin by (rule sum.remove)
  moreover have "sum (?g ?new) ({..<length indices} - {k}) = sum (?g indices) ({..<length indices} - {k})"
    by (rule sum.cong) auto
  moreover have "?g indices k = add_mset (ps ! k ! (indices ! k)) (?g ?new k)"
    using assms by (simp add: Cons_nth_drop_Suc [symmetric])
  ultimately show ?thesis by (simp add: pending_def)
qed

lemma pending_above_head:
  assumes "\<forall>j < length indices. sorted (ps ! j)" "x \<in># pending ps indices"
  shows "\<exists>j < length indices. indices ! j < length (ps ! j) \<and> ps ! j ! (indices ! j) \<le> x"
proof -
  obtain j where j: "j < length indices" "x \<in> set (drop (indices ! j) (ps ! j))"
    using assms(2) by (auto simp: pending_def set_mset_sum)
  then have len: "indices ! j < length (ps ! j)" by (metis drop_all linorder_not_less list.set(1) empty_iff)
  then have eq: "drop (indices ! j) (ps ! j) = ps ! j ! (indices ! j) # drop (Suc (indices ! j)) (ps ! j)"
    by (simp add: Cons_nth_drop_Suc)
  have "sorted (drop (indices ! j) (ps ! j))" using assms(1) j(1) by (simp add: sorted_wrt_drop)
  with eq j(2) have "ps ! j ! (indices ! j) \<le> x" by auto
  with j(1) len show ?thesis by auto
qed

lemma merge_loop_correct:
  assumes "\<forall>j < length indices. sorted (ps ! j)"
  shows "\<exists>out. merge_loop ps indices dst = dst @ out \<and> sorted out \<and>
    mset out = filter_mset (\<lambda>x. x \<noteq> - 1) (pending ps indices)"
  using assms
proof (induction ps indices dst rule: merge_loop.induct)
  case (1 ps indices dst)
  show ?case
  proof (cases "merge_step ps indices")
    case None
    have "x = - 1" if x: "x \<in># pending ps indices" for x
    proof -
      obtain j where "j < length indices" "indices ! j < length (ps ! j)" "ps ! j ! (indices ! j) \<le> x"
        using pending_above_head [OF 1(2) x] by auto
      with merge_step_None [OF None] show "x = - 1" by (auto intro: word_order.extremum_uniqueI)
    qed
    then have "filter_mset (\<lambda>x. x \<noteq> - 1) (pending ps indices) = {#}"
      by (auto simp: multiset_eq_iff count_eq_zero_iff)
    with None show ?thesis by (simp add: merge_loop.simps)
  next
    case (Some c)
    then obtain mv k where step: "merge_step ps indices = Some (mv, k)" by (cases c) auto
    note st = merge_step_Some [OF step]
    let ?new = "indices[k := Suc (indices ! k)]"
    obtain out where out: "merge_loop ps ?new (dst @ [mv]) = (dst @ [mv]) @ out" "sorted out"
      "mset out = filter_mset (\<lambda>x. x \<noteq> - 1) (pending ps ?new)"
      using 1(1) [OF step refl] 1(2) by auto
    have pend: "pending ps indices = add_mset mv (pending ps ?new)"
      using pending_step [OF st(1,2)] st(3) by simp
    have "mv \<le> x" if x: "x \<in> set out" for x
    proof -
      have "x \<in># filter_mset (\<lambda>x. x \<noteq> - 1) (pending ps ?new)" using x out(3) by (metis set_mset_mset)
      then have "x \<in># pending ps indices" by (simp add: pend)
      then obtain j where "j < length indices" "indices ! j < length (ps ! j)" "ps ! j ! (indices ! j) \<le> x"
        using pending_above_head [OF 1(2)] by auto
      with st(5) show ?thesis by (meson order_trans)
    qed
    moreover have "merge_loop ps indices dst = dst @ mv # out"
      using out(1) step by (subst merge_loop.simps) simp
    moreover have "mset (mv # out) = filter_mset (\<lambda>x. x \<noteq> - 1) (pending ps indices)"
      using out(3) st(4) by (simp add: pend)
    ultimately show ?thesis using out(2) by (intro exI [of _ "mv # out"]) simp
  qed
qed

lemma merge_partitions_correct:
  assumes "\<forall>q \<in> set partitions. sorted q"
  shows "\<exists>out. merge_partitions partitions dst = dst @ out \<and> sorted out \<and>
    mset out = filter_mset (\<lambda>x. x \<noteq> - 1) (mset (concat partitions))"
proof -
  have "pending partitions (map (\<lambda>_. 0) partitions) = (\<Sum>j < length partitions. mset (partitions ! j))"
    by (simp add: pending_def)
  also have "\<dots> = mset (concat partitions)"
    by (induction partitions) (simp_all add: sum.lessThan_Suc_shift del: sum.lessThan_Suc)
  finally show ?thesis
    using merge_loop_correct [of "map (\<lambda>_. 0) partitions" partitions dst] assms
    by (simp add: merge_partitions_def)
qed

text \<open>Merging sorted partitions appends to the destination, in ascending order, exactly
  the elements of all the partitions except those equal to \<open>u32::MAX\<close>, which the strict
  comparison with the initial minimum never selects: they are lost.\<close>

theorem merge_partitions_sorted_union:
  assumes "\<forall>q \<in> set partitions. sorted q"
  shows "\<exists>out. merge_partitions partitions dst = dst @ out \<and> sorted out \<and>
    mset out = filter_mset (\<lambda>x. x \<noteq> - 1) (mset (concat partitions))"
  using assms by (rule merge_partitions_correct)

theorem merge_partitions_sorted_union_witness:
  "\<exists>out. merge_partitions [[1, 5, 0xFFFFFFFF], [2]] [] = [] @ out \<and> sorted out \<and>
     mset out = {#1, 5, 2#}"
  using merge_partitions_sorted_union [of "[[1, 5, 0xFFFFFFFF], [2 :: u32]]" "[]"] by simp

section \<open>Correctness of splitting\<close>

lemma split_ref_exhausted:
  "dropWhile (\<lambda>num. num < p) xs = [] \<Longrightarrow> split_ref xs (p # ps) = [takeWhile (\<lambda>num. num < p) xs, []]"
  by (simp add: Let_def)

lemma split_ref_more:
  "dropWhile (\<lambda>num. num < p) xs \<noteq> [] \<Longrightarrow>
   split_ref xs (p # ps) = takeWhile (\<lambda>num. num < p) xs # split_ref (dropWhile (\<lambda>num. num < p) xs) ps"
  by (simp only: split_ref.simps Let_def if_False)

lemma split_loop_ref:
  assumes "current_start \<le> length numbers" "split_loop numbers pivots result current_start = (r, c)"
  shows "r @ [drop c numbers] = result @ split_ref (drop current_start numbers) pivots"
  using assms
proof (induction numbers pivots result current_start rule: split_loop.induct)
  case (2 numbers pivot pivots result current_start)
  let ?part = "takeWhile (\<lambda>num. num < pivot) (drop current_start numbers)"
  let ?start = "current_start + length ?part"
  have rest: "dropWhile (\<lambda>num. num < pivot) (drop current_start numbers) = drop ?start numbers"
    by (simp add: dropWhile_eq_drop add.commute)
  show ?case
  proof (cases "?start \<ge> length numbers")
    case True
    then have rc: "r = result @ [?part]" "c = ?start" using 2(3) by (simp_all add: Let_def)
    have "split_ref (drop current_start numbers) (pivot # pivots) = [?part, []]"
      using True rest by (intro split_ref_exhausted) simp
    with True rc show ?thesis by simp
  next
    case False
    have run: "split_loop numbers pivots (result @ [?part]) ?start = (r, c)"
      using 2(3) False by (simp add: Let_def)
    have "?start \<le> length numbers" using False by simp
    from 2(1) [OF refl refl refl False this run]
    have "r @ [drop c numbers] = (result @ [?part]) @ split_ref (drop ?start numbers) pivots" .
    moreover have "split_ref (drop current_start numbers) (pivot # pivots) =
        ?part # split_ref (drop ?start numbers) pivots"
      using False rest split_ref_more [of pivot "drop current_start numbers" pivots] by simp
    ultimately show ?thesis by simp
  qed
qed simp

lemma split_numbers_ref: "split_numbers numbers pivots = split_ref numbers pivots"
  using split_loop_ref [of 0 numbers pivots "[]"]
  by (cases "split_loop numbers pivots [] 0") (simp add: split_numbers_def)

lemma concat_split_ref: "concat (split_ref numbers pivots) = numbers"
proof (induction numbers pivots rule: split_ref.induct)
  case (2 numbers pivot pivots)
  have "takeWhile (\<lambda>num. num < pivot) numbers @ dropWhile (\<lambda>num. num < pivot) numbers = numbers" by simp
  with 2 show ?case by (auto simp: Let_def simp del: takeWhile_dropWhile_id)
qed simp

lemma length_split_ref: "length (split_ref numbers pivots) \<le> Suc (length pivots)"
  by (induction numbers pivots rule: split_ref.induct) (auto simp: Let_def)

lemma dropWhile_sorted_ge:
  assumes "sorted xs" "x \<in> set (dropWhile (\<lambda>num. num < (pivot :: u32)) xs)"
  shows "pivot \<le> x"
  using assms by (induction xs) (auto split: if_splits)

lemma split_ref_bounds:
  assumes "sorted numbers" "sorted pivots" "j < length (split_ref numbers pivots)"
    "x \<in> set (split_ref numbers pivots ! j)"
  shows "(j < length pivots \<longrightarrow> x < pivots ! j) \<and> (0 < j \<longrightarrow> pivots ! (j - 1) \<le> x)"
  using assms
proof (induction numbers pivots arbitrary: j rule: split_ref.induct)
  case (2 numbers pivot pivots)
  let ?rest = "dropWhile (\<lambda>num. num < pivot) numbers"
  show ?case
  proof (cases j)
    case 0
    with 2(5) show ?thesis by (auto simp: Let_def dest: set_takeWhileD)
  next
    case (Suc j')
    have ne: "?rest \<noteq> []"
    proof
      assume "?rest = []"
      from split_ref_exhausted [OF this, of pivots] 2(4,5) Suc show False by (cases j') auto
    qed
    then have j': "j' < length (split_ref ?rest pivots)" "x \<in> set (split_ref ?rest pivots ! j')"
      using 2(4,5) Suc split_ref_more [OF ne, of pivots] by simp_all
    have "x \<in> set (concat (split_ref ?rest pivots))" using nth_mem [OF j'(1)] j'(2) by auto
    then have "x \<in> set ?rest" by (simp only: concat_split_ref)
    then have "pivot \<le> x" using dropWhile_sorted_ge 2(2) by blast
    moreover have "(j' < length pivots \<longrightarrow> x < pivots ! j') \<and> (0 < j' \<longrightarrow> pivots ! (j' - 1) \<le> x)"
    proof (rule 2(1) [OF refl ne _ _ j'])
      show "sorted ?rest" using 2(2) by (rule sorted_dropWhile)
      show "sorted pivots" using 2(3) by simp
    qed
    ultimately show ?thesis using Suc by (cases j') simp_all
  qed
qed simp

lemma split_ref_full:
  assumes "sorted pivots"
  shows "length (split_ref numbers pivots) = Suc (length pivots) \<longleftrightarrow>
    (\<forall>k. Suc k < length pivots \<longrightarrow> (\<exists>x \<in> set numbers. pivots ! k \<le> x))"
  using assms
proof (induction numbers pivots rule: split_ref.induct)
  case (2 numbers pivot pivots)
  let ?rest = "dropWhile (\<lambda>num. num < pivot) numbers"
  show ?case
  proof (cases "?rest = []")
    case True
    then have below: "\<forall>x \<in> set numbers. x < pivot" by (simp add: dropWhile_eq_Nil_conv)
    show ?thesis
    proof (cases "pivots = []")
      case False
      then have "\<not> (\<forall>k. Suc k < length (pivot # pivots) \<longrightarrow> (\<exists>x \<in> set numbers. (pivot # pivots) ! k \<le> x))"
        using below by (auto intro!: exI [of _ 0])
      with False split_ref_exhausted [OF True, of pivots] show ?thesis by simp
    qed (use split_ref_exhausted [OF True, of pivots] in simp)
  next
    case False
    have head: "\<exists>x \<in> set numbers. pivot \<le> x"
      using False by (auto simp: dropWhile_eq_Nil_conv not_less)
    have same: "(\<exists>x \<in> set numbers. pivots ! k \<le> x) \<longleftrightarrow> (\<exists>x \<in> set ?rest. pivots ! k \<le> x)"
      if "k < length pivots" for k
    proof -
      have "pivot \<le> pivots ! k" using 2(2) that by simp
      have "x \<in> set ?rest" if x: "x \<in> set numbers" "pivots ! k \<le> x" for x
      proof -
        have "x \<notin> set (takeWhile (\<lambda>num. num < pivot) numbers)"
          using \<open>pivot \<le> pivots ! k\<close> x(2) by (auto dest!: set_takeWhileD)
        moreover have "set numbers = set (takeWhile (\<lambda>num. num < pivot) numbers) \<union> set ?rest"
          by (metis set_append takeWhile_dropWhile_id)
        ultimately show ?thesis using x(1) by blast
      qed
      then show ?thesis by (meson set_dropWhileD)
    qed
    have "length (split_ref ?rest pivots) = Suc (length pivots) \<longleftrightarrow>
        (\<forall>k. Suc k < length pivots \<longrightarrow> (\<exists>x \<in> set numbers. pivots ! k \<le> x))"
      using 2(1) [OF refl False] 2(2) same by (auto dest: Suc_lessD)
    moreover have "(\<forall>k. Suc k < length (pivot # pivots) \<longrightarrow> (\<exists>x \<in> set numbers. (pivot # pivots) ! k \<le> x)) \<longleftrightarrow>
        (\<forall>k. Suc k < length pivots \<longrightarrow> (\<exists>x \<in> set numbers. pivots ! k \<le> x))" (is "?all = ?tail")
    proof
      assume all: ?all
      show ?tail
      proof (intro allI impI)
        fix k assume "Suc k < length pivots"
        with all [rule_format, of "Suc k"] show "\<exists>x \<in> set numbers. pivots ! k \<le> x" by simp
      qed
    next
      assume tail: ?tail
      show ?all
      proof (intro allI impI)
        fix k assume "Suc k < length (pivot # pivots)"
        with head tail show "\<exists>x \<in> set numbers. (pivot # pivots) ! k \<le> x" by (cases k) auto
      qed
    qed
    ultimately show ?thesis using split_ref_more [OF False, of pivots] by simp
  qed
qed simp

text \<open>Splitting loses no number and keeps their order; of a sorted array with sorted
  pivots, the numbers of partition j are below pivot j and not below pivot j - 1.\<close>

theorem split_numbers_partitions:
  assumes "sorted numbers" and "sorted pivots"
  shows "concat (split_numbers numbers pivots) = numbers \<and>
    length (split_numbers numbers pivots) \<le> Suc (length pivots) \<and>
    (\<forall>j x. j < length (split_numbers numbers pivots) \<longrightarrow> x \<in> set (split_numbers numbers pivots ! j) \<longrightarrow>
       (j < length pivots \<longrightarrow> x < pivots ! j) \<and> (0 < j \<longrightarrow> pivots ! (j - 1) \<le> x))"
  using split_ref_bounds [OF assms] concat_split_ref length_split_ref
  by (simp add: split_numbers_ref)

theorem split_numbers_partitions_witness:
  "split_numbers [1, 2, 5, 9] [3, 6] = [[1, 2], [5], [9]] \<and>
   concat (split_numbers [1, 2, 5, 9] [3, 6]) = [1, 2, 5, 9 :: u32]"
proof
  show "split_numbers [1, 2, 5, 9] [3, 6] = [[1, 2], [5], [9 :: u32]]" by code_simp
  show "concat (split_numbers [1, 2, 5, 9] [3, 6]) = [1, 2, 5, 9 :: u32]"
    using split_numbers_partitions [of "[1, 2, 5, 9]" "[3, 6]"] by simp
qed

text \<open>The loop stops at the first pivot above all the numbers that are left. The number of
  partitions is the one the mergers expect, one more than the pivots, exactly when every
  pivot but the last has a number at or above it; otherwise the slots of the later mergers
  are never filled.\<close>

theorem split_numbers_count:
  assumes "sorted pivots"
  shows "length (split_numbers numbers pivots) = Suc (length pivots) \<longleftrightarrow>
    (\<forall>k. Suc k < length pivots \<longrightarrow> (\<exists>x \<in> set numbers. pivots ! k \<le> x))"
  using split_ref_full [OF assms] by (simp add: split_numbers_ref)

theorem split_numbers_count_witness:
  "length (split_numbers [1, 2] [5, 6, 7 :: u32]) \<noteq> 4"
  using split_numbers_count [of "[5, 6, 7]" "[1, 2]"]
  by (auto dest!: spec [of _ 0] simp: word_le_nat_alt)

section \<open>Correctness of the workflow\<close>

lemma pivot_index_less: "0 < n \<Longrightarrow> i + 1 < m \<Longrightarrow> (i + 1) * n div m < (n :: nat)"
  using mult_less_mono1 [of "i + 1" m n] by (intro less_mult_imp_div_less) (simp only: mult.commute)

lemma pick_pivots_ok:
  assumes "array \<noteq> []" "\<forall>i \<in> set is. i + 1 < m"
  shows "pick_pivots array m is = Ok (map (\<lambda>i. array ! ((i + 1) * length array div m)) is)"
  using assms
proof (induction "is")
  case (Cons i "is")
  have "(i + 1) * length array div m < length array"
    using Cons.prems by (intro pivot_index_less) auto
  with Cons show ?case by (simp add: Let_def)
qed simp

text \<open>From a sorted array that is not empty the sorter gets the \<open>m - 1\<close> pivots for \<open>m > 0\<close>
  mergers, in ascending order; an empty array with more than one merger is a panic.\<close>

theorem choose_pivots_sorted:
  assumes "sorted array" and "0 < m"
  shows "(array \<noteq> [] \<longrightarrow> (\<exists>ps. choose_pivots array m = Ok ps \<and> length ps = m - 1 \<and> sorted ps)) \<and>
    (array = [] \<and> 1 < m \<longrightarrow> choose_pivots array m = Panic)"
proof (intro conjI impI)
  assume ne: "array \<noteq> []"
  let ?at = "\<lambda>i. (i + 1) * length array div m"
  have lt: "?at i < length array" if "i < m - 1" for i
    using that ne by (intro pivot_index_less) auto
  have "sorted (map (\<lambda>i. array ! ?at i) [0..<m - 1])"
  proof (rule sorted_iff_nth_mono [THEN iffD2], intro allI impI)
    fix i j assume ij: "i \<le> j" "j < length (map (\<lambda>i. array ! ?at i) [0..<m - 1])"
    then have "?at i \<le> ?at j" by (intro div_le_mono mult_le_mono1) simp
    with ij lt [of j] show "map (\<lambda>i. array ! ?at i) [0..<m - 1] ! i \<le> map (\<lambda>i. array ! ?at i) [0..<m - 1] ! j"
      using sorted_nth_mono [OF assms(1), of "?at i" "?at j"] by simp
  qed
  moreover have "pick_pivots array m [0..<m - 1] = Ok (map (\<lambda>i. array ! ?at i) [0..<m - 1])"
    by (rule pick_pivots_ok [OF ne]) auto
  ultimately show "\<exists>ps. choose_pivots array m = Ok ps \<and> length ps = m - 1 \<and> sorted ps"
    using assms(2) by (simp add: choose_pivots_def)
next
  assume "array = [] \<and> 1 < m"
  moreover from this obtain n where "m - 1 = Suc n" by (cases "m - 1") auto
  ultimately show "choose_pivots array m = Panic"
    by (simp add: choose_pivots_def upt_conv_Cons del: upt_Suc)
qed

theorem choose_pivots_sorted_witness:
  "\<exists>ps. choose_pivots [1, 3, 5, 7] 4 = Ok ps \<and> length ps = 3 \<and> sorted ps"
  using choose_pivots_sorted [of "[1, 3, 5, 7]" 4] by simp

text \<open>The checker accepts exactly when every result is sorted and the first elements of the
  results that are not empty are in ascending order, from the initial bound on; the last
  elements are not compared, so results that overlap can be accepted.\<close>

theorem check_results_iff:
  shows "check_results last_max results = Ok () \<longleftrightarrow>
    list_all sorted results \<and> sorted (last_max # map hd (filter (\<lambda>a. a \<noteq> []) results))"
proof (induction last_max results rule: check_results.induct)
  case (2 last_max array rest)
  show ?case
  proof (cases array)
    case (Cons first more)
    show ?thesis
    proof (cases "sorted array \<and> \<not> first < last_max")
      case True
      with Cons 2(2) [of first more] show ?thesis by (auto simp: not_less intro: order_trans)
    qed (use Cons in \<open>auto simp: not_less\<close>)
  qed (use 2(1) in simp)
qed simp

lemma check_accepts_overlap:
  "check_results 0 [[1, 9], [2, 3]] = Ok () \<and> \<not> sorted (concat [[1, 9], [2, 3 :: u32]])"
  by (simp add: word_le_nat_alt word_less_nat_alt)

lemma merged_element_origin:
  assumes "\<forall>a \<in> set arrays. sorted a" "sorted pivots"
    "\<forall>a \<in> set arrays. length (split_numbers a pivots) = Suc (length pivots)"
    "j \<le> length pivots" "x \<in> set (merge_partitions (map (\<lambda>s. s ! j) (split_all arrays pivots)) [])"
  shows "(j < length pivots \<longrightarrow> x < pivots ! j) \<and> (0 < j \<longrightarrow> pivots ! (j - 1) \<le> x)"
proof -
  let ?qs = "map (\<lambda>s. s ! j) (split_all arrays pivots)"
  have sub: "sorted (split_numbers a pivots ! j)" if "a \<in> set arrays" for a
  proof -
    have "sorted (concat (split_numbers a pivots))"
      using assms(1) that by (simp add: split_numbers_ref concat_split_ref)
    moreover have "j < length (split_numbers a pivots)" using assms(3,4) that by simp
    ultimately show ?thesis
      by (metis append_take_drop_id concat_append concat.simps(2) id_take_nth_drop sorted_append)
  qed
  obtain out where out: "merge_partitions ?qs [] = [] @ out"
    "mset out = filter_mset (\<lambda>x. x \<noteq> - 1) (mset (concat ?qs))"
    using merge_partitions_correct [of ?qs "[]"] sub by (auto simp: split_all_def)
  have "x \<in> set out" using assms(5) out(1) by simp
  then have "x \<in># filter_mset (\<lambda>x. x \<noteq> - 1) (mset (concat ?qs))" using out(2) by (metis set_mset_mset)
  then obtain a where a: "a \<in> set arrays" "x \<in> set (split_numbers a pivots ! j)"
    by (auto simp: split_all_def)
  then show ?thesis
    using split_ref_bounds [of a pivots j x] assms by (simp add: split_numbers_ref)
qed

lemma sorted_concat_blocks:
  assumes "\<And>j. j < m \<Longrightarrow> sorted (f j)"
    "\<And>i j x y. i < j \<Longrightarrow> j < m \<Longrightarrow> x \<in> set (f i) \<Longrightarrow> y \<in> set (f j) \<Longrightarrow> x \<le> y"
  shows "sorted (concat (map f [0..<m]))"
  using assms
proof (induction m)
  case (Suc m)
  then have "sorted (concat (map f [0..<m]))" by simp
  with Suc.prems show ?case by (auto simp: sorted_append)
qed simp

lemma column_msets:
  assumes "\<forall>s \<in> set ss. length s = m"
  shows "(\<Sum>j < m. mset (concat (map (\<lambda>s. s ! j) ss))) = mset (concat (map concat ss))"
  using assms
proof (induction ss)
  case (Cons s ss)
  have "(\<Sum>j < length s. mset (s ! j)) = mset (concat s)"
    by (induction s) (simp_all add: sum.lessThan_Suc_shift del: sum.lessThan_Suc)
  with Cons show ?case by (simp add: sum.distrib)
qed simp

lemma mset_concat_blocks: "mset (concat (map f [0..<m])) = (\<Sum>j < m. mset (f j))"
  by (induction m) (simp_all add: add.commute)

lemma filter_mset_sum: "finite A \<Longrightarrow> filter_mset P (\<Sum>j \<in> A. g j) = (\<Sum>j \<in> A. filter_mset P (g j))"
  by (induction A rule: finite_induct) simp_all

lemma split_columns_sorted:
  assumes "sorted a" "j < length (split_numbers a pivots)"
  shows "sorted (split_numbers a pivots ! j)"
proof -
  have "sorted (concat (split_numbers a pivots))" using assms(1) by (simp add: split_numbers_ref concat_split_ref)
  then show ?thesis
    using assms(2) by (metis concat_append concat.simps(2) id_take_nth_drop sorted_append)
qed

lemma merge_of_splits:
  assumes "\<forall>a \<in> set arrays. sorted a" and "sorted pivots"
    and "\<forall>a \<in> set arrays. length (split_numbers a pivots) = Suc (length pivots)"
  shows "sorted (concat (merge_all (Suc (length pivots)) (split_all arrays pivots))) \<and>
    mset (concat (merge_all (Suc (length pivots)) (split_all arrays pivots))) =
      filter_mset (\<lambda>x. x \<noteq> - 1) (mset (concat arrays))"
proof -
  let ?m = "Suc (length pivots)"
  let ?qs = "\<lambda>j. map (\<lambda>s. s ! j) (split_all arrays pivots)"
  let ?r = "\<lambda>j. merge_partitions (?qs j) []"
  have cols: "\<forall>q \<in> set (?qs j). sorted q" if "j < ?m" for j
    using assms(1,3) that by (auto simp: split_all_def intro!: split_columns_sorted)
  have r: "sorted (?r j) \<and> mset (?r j) = filter_mset (\<lambda>x. x \<noteq> - 1) (mset (concat (?qs j)))" if "j < ?m" for j
    using merge_partitions_correct [OF cols [OF that], of "[]"] by auto
  have "x \<le> y" if ij: "i < j" "j < ?m" "x \<in> set (?r i)" "y \<in> set (?r j)" for i j x y
  proof -
    have "x < pivots ! i" using merged_element_origin [OF assms, of i x] ij by simp
    moreover have "pivots ! (j - 1) \<le> y" using merged_element_origin [OF assms, of j y] ij by simp
    moreover have "pivots ! i \<le> pivots ! (j - 1)" using assms(2) ij by (intro sorted_nth_mono) auto
    ultimately show ?thesis by simp
  qed
  then have "sorted (concat (map ?r [0..<?m]))" using r by (intro sorted_concat_blocks) auto
  moreover have "mset (concat (map ?r [0..<?m])) = filter_mset (\<lambda>x. x \<noteq> - 1) (mset (concat arrays))"
  proof -
    have "mset (concat (map ?r [0..<?m])) = (\<Sum>j < ?m. filter_mset (\<lambda>x. x \<noteq> - 1) (mset (concat (?qs j))))"
      unfolding mset_concat_blocks using r by (intro sum.cong) auto
    also have "\<dots> = filter_mset (\<lambda>x. x \<noteq> - 1) (\<Sum>j < ?m. mset (concat (?qs j)))"
      by (rule filter_mset_sum [symmetric]) simp
    also have "(\<Sum>j < ?m. mset (concat (?qs j))) = mset (concat (map concat (split_all arrays pivots)))"
      using assms(3) by (intro column_msets) (auto simp: split_all_def)
    also have "map concat (split_all arrays pivots) = arrays"
      by (simp add: split_all_def split_numbers_ref concat_split_ref o_def)
    finally show ?thesis .
  qed
  ultimately show ?thesis by (simp only: merge_all_def)
qed

text \<open>The parallel sort is correct up to \<open>u32::MAX\<close>: when every sorted array is split into one
  partition per merger, the results of the mergers, one after the other, are the numbers of
  all the arrays in ascending order, without those equal to \<open>u32::MAX\<close>.\<close>

theorem parallel_sort_correct:
  assumes "\<forall>a \<in> set arrays. sorted a" and "sorted pivots"
    and "\<forall>a \<in> set arrays. length (split_numbers a pivots) = Suc (length pivots)"
  shows "sorted (concat (merge_all (Suc (length pivots)) (split_all arrays pivots))) \<and>
    mset (concat (merge_all (Suc (length pivots)) (split_all arrays pivots))) =
      filter_mset (\<lambda>x. x \<noteq> - 1) (mset (concat arrays))"
  using merge_of_splits [OF assms] .

theorem parallel_sort_correct_witness:
  "mset (concat (merge_all (Suc (length [5 :: u32])) (split_all [[1, 7], [4, 5]] [5]))) = {#1, 7, 4, 5#}"
proof -
  have "split_numbers [1, 7] [5] = [[1], [7 :: u32]]" "split_numbers [4, 5] [5] = [[4], [5 :: u32]]"
    by (code_simp, code_simp)
  then show ?thesis
    using parallel_sort_correct [of "[[1, 7], [4, 5]]" "[5]"] by (simp add: word_le_nat_alt)
qed

end
