(* ===== verification/Data_Buffer.thy ===== *)
theory Data_Buffer
  imports Visor_Props
begin

text \<open>
  The intermediate data of a workflow: the register of buffers in the memory service
  (\<open>common_service/mm/src/faas_buffer/mod.rs\<close>) and the buffers functions hold
  (\<open>refer_based_impl\<close> of \<open>as_std/src/agent.rs\<close>). Memory gives each address the value it
  holds when read at the type of the buffer. The first-fit allocator is the argument
  \<open>alloc\<close>, a function on its own state.
\<close>

record ('d, 'h) BufferService =
  BUFFER_REGISTER :: "string \<rightharpoonup> u64 \<times> u64"
  BUFFER_ALLOCATOR :: 'h
  buf_mem :: "u64 \<Rightarrow> 'd"

type_synonym 'h allocator = "nat \<Rightarrow> 'h \<Rightarrow> u64 option \<times> 'h"

section \<open>The register\<close>

definition buffer_alloc ::
  "'h allocator \<Rightarrow> string \<Rightarrow> nat \<Rightarrow> u64 \<Rightarrow> (('d, 'h) BufferService, string, u64) act" where
  "buffer_alloc alloc slot sz fingerprint = (\<lambda>s.
    case alloc sz (BUFFER_ALLOCATOR s) of
      (None, h) \<Rightarrow> (Panic, s\<lparr>BUFFER_ALLOCATOR := h\<rparr>)
    | (Some addr, h) \<Rightarrow>
        (Ok addr, s\<lparr>BUFFER_ALLOCATOR := h,
           BUFFER_REGISTER := (BUFFER_REGISTER s)(slot \<mapsto> (addr, fingerprint))\<rparr>))"

definition access_buffer :: "string \<Rightarrow> (('d, 'h) BufferService, string, (u64 \<times> u64) option) act" where
  "access_buffer slot = (\<lambda>s.
    (Ok (BUFFER_REGISTER s slot), s\<lparr>BUFFER_REGISTER := (BUFFER_REGISTER s)(slot := None)\<rparr>))"

definition buffer_dealloc ::
  "(u64 \<Rightarrow> nat \<Rightarrow> 'h \<Rightarrow> 'h) \<Rightarrow> u64 \<Rightarrow> nat \<Rightarrow> (('d, 'h) BufferService, string, unit) act" where
  "buffer_dealloc dealloc addr sz =
    (if addr = 0 then act_panic
     else act_modify (\<lambda>s. s\<lparr>BUFFER_ALLOCATOR := dealloc addr sz (BUFFER_ALLOCATOR s)\<rparr>))"

section \<open>The buffers of a function\<close>

record DataBuffer =
  buf_ptr :: u64
  buf_used :: bool

text \<open>\<open>with_slot\<close> for a type of \<open>sz\<close> bytes: a zero-sized type gets memory of the caller's
  own heap (\<open>own\<close>) and is not registered. The memory is not written: the call that would
  store \<open>T::default()\<close> is commented out in the source.\<close>

definition with_slot ::
  "'h allocator \<Rightarrow> u64 \<Rightarrow> nat \<Rightarrow> u64 \<Rightarrow> string \<Rightarrow> (('d, 'h) BufferService, string, DataBuffer) act" where
  "with_slot alloc own sz fingerprint slot =
    (if sz = 0 then act_ret \<lparr>buf_ptr = own, buf_used = False\<rparr>
     else act_bind (act_unwrap (buffer_alloc alloc slot sz fingerprint)) (\<lambda>p.
          act_ret \<lparr>buf_ptr = p, buf_used = False\<rparr>))"

definition from_buffer_slot :: "u64 \<Rightarrow> string \<Rightarrow> (('d, 'h) BufferService, string, DataBuffer option) act" where
  "from_buffer_slot fingerprint slot =
    act_bind (access_buffer slot) (\<lambda>meta.
    case meta of
      None \<Rightarrow> act_ret None
    | Some (raw_ptr, fp) \<Rightarrow>
        if fp \<noteq> fingerprint then act_panic
        else act_ret (Some \<lparr>buf_ptr = raw_ptr, buf_used = False\<rparr>))"

definition deref :: "DataBuffer \<Rightarrow> (('d, 'h) BufferService, string, 'd) act" where
  "deref b = act_get (\<lambda>s. buf_mem s (buf_ptr b))"

definition deref_set :: "DataBuffer \<Rightarrow> 'd \<Rightarrow> (('d, 'h) BufferService, string, unit) act" where
  "deref_set b d = act_modify (\<lambda>s. s\<lparr>buf_mem := (buf_mem s)(buf_ptr b := d)\<rparr>)"

definition drop_buffer ::
  "(u64 \<Rightarrow> nat \<Rightarrow> 'h \<Rightarrow> 'h) \<Rightarrow> nat \<Rightarrow> DataBuffer \<Rightarrow> (('d, 'h) BufferService, string, unit) act" where
  "drop_buffer dealloc sz b = (if buf_used b then buffer_dealloc dealloc (buf_ptr b) sz else act_ret ())"

text \<open>Producing a value in a slot and consuming it, as the functions do.\<close>

definition produce ::
  "'h allocator \<Rightarrow> (u64 \<Rightarrow> nat \<Rightarrow> 'h \<Rightarrow> 'h) \<Rightarrow> nat \<Rightarrow> u64 \<Rightarrow> string \<Rightarrow> 'd \<Rightarrow>
   (('d, 'h) BufferService, string, unit) act" where
  "produce alloc dealloc sz fp slot d =
    act_bind (with_slot alloc 0 sz fp slot) (\<lambda>b.
    act_bind (deref_set b d) (\<lambda>_. drop_buffer dealloc sz b))"

definition consume ::
  "(u64 \<Rightarrow> nat \<Rightarrow> 'h \<Rightarrow> 'h) \<Rightarrow> nat \<Rightarrow> u64 \<Rightarrow> string \<Rightarrow> (('d, 'h) BufferService, string, 'd option) act" where
  "consume dealloc sz fp slot =
    act_bind (from_buffer_slot fp slot) (\<lambda>ob.
    case ob of
      None \<Rightarrow> act_ret None
    | Some b \<Rightarrow> act_bind (deref b) (\<lambda>d. act_bind (drop_buffer dealloc sz b) (\<lambda>_. act_ret (Some d))))"

section \<open>The abstract store\<close>

text \<open>What the functions of a workflow see: slots that hold a typed value until it is taken.\<close>

type_synonym 'd slots = "string \<rightharpoonup> u64 \<times> 'd"

definition slot_put :: "u64 \<Rightarrow> string \<Rightarrow> 'd \<Rightarrow> 'd slots \<Rightarrow> 'd slots" where
  "slot_put fp slot d m = m(slot \<mapsto> (fp, d))"

definition slot_take :: "u64 \<Rightarrow> string \<Rightarrow> ('d slots, string, 'd option) act" where
  "slot_take fp slot = (\<lambda>m.
    case m slot of
      None \<Rightarrow> (Ok None, m)
    | Some (fp', d) \<Rightarrow> (if fp' \<noteq> fp then Panic else Ok (Some d), m(slot := None)))"

definition slots_of :: "('d, 'h) BufferService \<Rightarrow> 'd slots" where
  "slots_of s = (\<lambda>slot. map_option (\<lambda>(a, fp). (fp, buf_mem s a)) (BUFFER_REGISTER s slot))"

text \<open>What is relied on of the allocator: a block it hands out is not one of the blocks in
  use, and from then on is one.\<close>

definition fresh_alloc :: "'h allocator \<Rightarrow> ('h \<Rightarrow> u64 set) \<Rightarrow> bool" where
  "fresh_alloc alloc live =
    (\<forall>n h p h'. alloc n h = (Some p, h') \<longrightarrow> p \<notin> live h \<and> live h' = insert p (live h))"

definition buffers_ok :: "('h \<Rightarrow> u64 set) \<Rightarrow> ('d, 'h) BufferService \<Rightarrow> bool" where
  "buffers_ok live s =
    ((\<forall>slot a fp. BUFFER_REGISTER s slot = Some (a, fp) \<longrightarrow> a \<in> live (BUFFER_ALLOCATOR s)) \<and>
     (\<forall>s1 s2 a fp1 fp2. BUFFER_REGISTER s s1 = Some (a, fp1) \<longrightarrow>
        BUFFER_REGISTER s s2 = Some (a, fp2) \<longrightarrow> s1 = s2))"

section \<open>Refinement\<close>

lemma produce_effect:
  assumes "0 < sz" "alloc sz (BUFFER_ALLOCATOR s) = (Some p, h)"
  shows "produce alloc dealloc sz fp slot d s =
    (Ok (), s\<lparr>BUFFER_ALLOCATOR := h, BUFFER_REGISTER := (BUFFER_REGISTER s)(slot \<mapsto> (p, fp)),
       buf_mem := (buf_mem s)(p := d)\<rparr>)"
  using assms
  by (simp add: produce_def with_slot_def buffer_alloc_def deref_set_def drop_buffer_def act_defs)

lemma fresh_not_registered:
  assumes "fresh_alloc alloc live" "buffers_ok live s" "alloc sz (BUFFER_ALLOCATOR s) = (Some p, h)"
    "BUFFER_REGISTER s x = Some (a, f)"
  shows "a \<noteq> p"
proof -
  have "a \<in> live (BUFFER_ALLOCATOR s)" using assms(2,4) unfolding buffers_ok_def by blast
  moreover have "p \<notin> live (BUFFER_ALLOCATOR s)" using assms(1,3) unfolding fresh_alloc_def by blast
  ultimately show ?thesis by blast
qed

lemma buffers_ok_produce:
  assumes "fresh_alloc alloc live" "buffers_ok live s" "0 < sz"
    "alloc sz (BUFFER_ALLOCATOR s) = (Some p, h)"
  shows "buffers_ok live (snd (produce alloc dealloc sz fp slot d s))"
proof -
  have "live h = insert p (live (BUFFER_ALLOCATOR s))"
    using assms(1,4) unfolding fresh_alloc_def by blast
  then show ?thesis
    using assms(2) fresh_not_registered [OF assms(1,2,4)]
    by (auto simp: produce_effect [where alloc = alloc, OF assms(3,4)] buffers_ok_def split: if_splits)
qed

lemma buffers_ok_consume:
  "buffers_ok live s \<Longrightarrow> buffers_ok live (snd (consume dealloc sz fp slot s))"
  by (auto simp: consume_def from_buffer_slot_def access_buffer_def deref_def drop_buffer_def
      act_defs buffers_ok_def split: option.splits)

text \<open>C3: Producing into a slot and consuming from it refine the abstract store: a produced
  value replaces what the slot held and touches no other slot, a consumed value is the one
  last produced there, is taken out, and is refused with a panic at another type.\<close>

theorem buffer_refines_slots:
  assumes "fresh_alloc alloc live" and "buffers_ok live s" and "0 < sz"
    and "alloc sz (BUFFER_ALLOCATOR s) = (Some p, h)"
  shows "fst (produce alloc dealloc sz fp slot d s) = Ok () \<and>
    slots_of (snd (produce alloc dealloc sz fp slot d s)) = slot_put fp slot d (slots_of s) \<and>
    buffers_ok live (snd (produce alloc dealloc sz fp slot d s)) \<and>
    fst (consume dealloc sz fp slot' s) = fst (slot_take fp slot' (slots_of s)) \<and>
    slots_of (snd (consume dealloc sz fp slot' s)) = snd (slot_take fp slot' (slots_of s)) \<and>
    buffers_ok live (snd (consume dealloc sz fp slot' s))"
proof -
  note other = fresh_not_registered [OF assms(1,2,4)]
  have "slots_of (snd (produce alloc dealloc sz fp slot d s)) = slot_put fp slot d (slots_of s)"
    using other
    by (auto simp: produce_effect [where alloc = alloc, OF assms(3,4)] slots_of_def slot_put_def
        fun_eq_iff intro!: option.map_cong0)
  moreover have "fst (consume dealloc sz fp slot' s) = fst (slot_take fp slot' (slots_of s)) \<and>
      slots_of (snd (consume dealloc sz fp slot' s)) = snd (slot_take fp slot' (slots_of s))"
    by (auto simp: consume_def from_buffer_slot_def access_buffer_def deref_def drop_buffer_def
        act_defs slots_of_def slot_take_def fun_eq_iff split: option.splits)
  ultimately show ?thesis
    using buffers_ok_produce [OF assms] buffers_ok_consume [OF assms(2)]
    by (simp add: produce_effect [where alloc = alloc, OF assms(3,4)])
qed

definition bump_alloc :: "u64 allocator" where
  "bump_alloc n h = (if h \<ge> 100 then (None, h) else (Some h, h + 1))"

lemma bump_alloc_fresh: "fresh_alloc bump_alloc (\<lambda>h. {p. p < h \<and> p < 100})"
proof -
  have "p < h + 1 \<longleftrightarrow> p = h \<or> p < h" if "h < 100" for p h :: u64
  proof -
    have "unat h < 100" using that by (simp add: word_less_nat_alt)
    then have "unat (h + 1) = unat h + 1" by (simp add: unat_word_ariths)
    then show ?thesis by (auto simp: word_less_nat_alt word_unat_eq_iff)
  qed
  then show ?thesis by (auto simp: fresh_alloc_def bump_alloc_def not_le split: if_splits)
qed

theorem buffer_refines_slots_witness:
  "let s = \<lparr>BUFFER_REGISTER = Map.empty, BUFFER_ALLOCATOR = 8, buf_mem = (\<lambda>_. 0 :: nat)\<rparr>;
       s' = snd (produce bump_alloc (\<lambda>a n h. h) 4 77 ''Conference'' 5 s)
   in slots_of s' = slot_put 77 ''Conference'' 5 (slots_of s)"
  using buffer_refines_slots [of bump_alloc "\<lambda>h. {p. p < h \<and> p < 100}"
      "\<lparr>BUFFER_REGISTER = Map.empty, BUFFER_ALLOCATOR = 8, buf_mem = (\<lambda>_. 0 :: nat)\<rparr>" 4 8 9
      "\<lambda>a n h. h" 77 "''Conference''" 5] bump_alloc_fresh
  by (simp add: buffers_ok_def bump_alloc_def Let_def)

text \<open>A buffer obtained for a slot is not initialised: right after \<open>with_slot\<close> it reads
  what the memory of its block held before, and since no operation sets \<open>used\<close>, dropping a
  buffer never returns its block to the allocator.\<close>

theorem with_slot_uninitialised:
  assumes "with_slot alloc own sz fp slot s = (Ok b, s')"
  shows "fst (deref b s') = Ok (buf_mem s (buf_ptr b)) \<and> drop_buffer dealloc sz b s' = (Ok (), s')"
  using assms
  by (auto simp: with_slot_def buffer_alloc_def deref_def drop_buffer_def act_defs
      split: if_splits option.splits prod.splits)

theorem with_slot_uninitialised_witness:
  "let s = \<lparr>BUFFER_REGISTER = Map.empty, BUFFER_ALLOCATOR = 8, buf_mem = (\<lambda>_. 42 :: nat)\<rparr>;
       b = \<lparr>buf_ptr = 8, buf_used = False\<rparr>
   in fst (with_slot bump_alloc 0 4 77 ''x'' s) = Ok b \<and>
      fst (deref b (snd (with_slot bump_alloc 0 4 77 ''x'' s))) = Ok 42"
  using with_slot_uninitialised [of bump_alloc 0 4 77 "''x''"
      "\<lparr>BUFFER_REGISTER = Map.empty, BUFFER_ALLOCATOR = 8, buf_mem = (\<lambda>_. 42 :: nat)\<rparr>"
      "\<lparr>buf_ptr = 8, buf_used = False\<rparr>"]
  by (simp add: with_slot_def buffer_alloc_def bump_alloc_def act_defs Let_def)

section \<open>The two heaps of the memory service\<close>

text \<open>\<open>BUFFER_ALLOCATOR\<close> is created over the half of the heap that starts at the end of the
  context's heap range.\<close>

definition buffer_heap :: "ServiceStatics \<Rightarrow> u64 \<times> u64" where
  "buffer_heap s = (snd (heap_range (ISOLATION_CTX s)), SERVICE_HEAP_SIZE div 2)"

definition in_heap :: "u64 \<times> u64 \<Rightarrow> u64 \<Rightarrow> bool" where
  "in_heap r a = (unat (fst r) \<le> unat a \<and> unat a < unat (fst r) + unat (snd r))"

text \<open>In the memory service the allocator of the service itself is given the whole heap,
  not the half its context names: every address of the buffer heap also belongs to it, so
  the two allocators can hand out the same memory.\<close>

theorem mm_heaps_overlap:
  assumes "dl_sym env (elf_lib elf) ''set_handler_addr'' \<noteq> None" and "lib_alloc_def env (elf_lib elf)"
    and "elf_name elf = ''mm''" and "libos_init env elf start i v = (Ok (), v')"
    and "unat start + 4294967296 < 2 ^ 64" and "in_heap (buffer_heap (lib_statics v' (elf_lib elf))) a"
  shows "\<exists>own. HEAP_ALLOCATOR (lib_statics v' (elf_lib elf)) = Some own \<and> in_heap own a"
proof -
  have st: "lib_statics v' (elf_lib elf) = \<lparr>ISOLATION_CTX = \<lparr>isol_id = i, find_handler = find_host_call_addr env,
      panic_handler = panic_handler_addr env, heap_range = heap_range_of ''mm'' start\<rparr>,
      HEAP_ALLOCATOR = Some (start, SERVICE_HEAP_SIZE)\<rparr>"
    using assms(1-4)
    by (auto simp: libos_init_def Let_def SHOULD_NOT_SET_CONTEXT_def set_handler_addr_def init_heap_def
        heap_range_of_def act_simps split: if_splits option.splits res.splits)
  have half: "SERVICE_HEAP_SIZE div 2 = 0x80000000" by (simp add: SERVICE_HEAP_SIZE_def)
  have "unat (start + 0x80000000) = unat start + 0x80000000"
    using assms(5) by (simp add: unat_word_ariths)
  then show ?thesis
    using assms(6) half
    by (simp add: st buffer_heap_def in_heap_def heap_range_of_def SERVICE_HEAP_SIZE_def)
qed

definition mm_elf :: "string ElfService" where
  "mm_elf = \<lparr>elf_name = ''mm'', elf_path = ''libmm.so'', elf_lib = ''libmm.so'', elf_metric = 0, elf_pkey = 0\<rparr>"

theorem mm_heaps_overlap_witness:
  "let v' = snd (libos_init sample_env mm_elf 0x100000000 1 sample_start) in
   in_heap (buffer_heap (lib_statics v' ''libmm.so'')) 0x180000010 \<and>
   (\<exists>own. HEAP_ALLOCATOR (lib_statics v' ''libmm.so'') = Some own \<and> in_heap own 0x180000010)"
proof -
  let ?v' = "snd (libos_init sample_env mm_elf 0x100000000 1 sample_start)"
  have run: "libos_init sample_env mm_elf 0x100000000 1 sample_start = (Ok (), ?v')"
    and heap: "buffer_heap (lib_statics ?v' ''libmm.so'') = (0x180000000, 0x80000000)"
    by (simp_all add: libos_init_def mm_elf_def sample_env_def SHOULD_NOT_SET_CONTEXT_def
        sample_start_def visor_start_def fresh_statics_def uninit_def set_handler_addr_def init_heap_def
        get_handler_addr_def isolation_ctx_def heap_range_of_def SERVICE_HEAP_SIZE_def
        buffer_heap_def act_defs Let_def)
  have a: "in_heap (buffer_heap (lib_statics ?v' ''libmm.so'')) 0x180000010"
    by (simp add: heap in_heap_def)
  have "dl_sym sample_env (elf_lib mm_elf) ''set_handler_addr'' \<noteq> None"
    "lib_alloc_def sample_env (elf_lib mm_elf)" "elf_name mm_elf = ''mm''" "elf_lib mm_elf = ''libmm.so''"
    by (simp_all add: sample_env_def mm_elf_def)
  with mm_heaps_overlap [of sample_env mm_elf "0x100000000" 1 sample_start ?v' "0x180000010"] run a
  show ?thesis by (simp add: Let_def)
qed

end
