(* ===== verification/Sort_Functions.thy ===== *)
theory Sort_Functions
  imports Sort_Algorithms Data_Buffer
begin

text \<open>
  The functions of the parallel sort workflow as they run in an isolation: \<open>main\<close> of
  \<open>user/sorter\<close>, \<open>user/splitter\<close>, \<open>user/merger\<close> and \<open>user/checker\<close>, on the slots of
  intermediate data. \<open>get_arg\<close> is \<open>args::get\<close>; \<open>fresh\<close> is what a new buffer reads as,
  since \<open>with_slot\<close> does not write it; strings are ASCII. Output and timing are left out.
\<close>

section \<open>Typed data\<close>

datatype faas_value = Str string | Nums "u32 list"

text \<open>The fingerprint the \<open>FaasData\<close> derive macro gives a struct: the hash of its field types
  written one after the other (\<open>as_std_proc_macro\<close>); \<open>hash\<close> is the standard hasher.\<close>

definition fingerprint :: "(string \<Rightarrow> u64) \<Rightarrow> string list \<Rightarrow> u64" where
  "fingerprint hash tys = hash (concat tys)"

definition fp_content :: "(string \<Rightarrow> u64) \<Rightarrow> u64" where
  "fp_content hash = fingerprint hash [''String'']"

definition fp_array :: "(string \<Rightarrow> u64) \<Rightarrow> u64" where
  "fp_array hash = fingerprint hash [''Vec < u32 >'']"

type_synonym func = "(faas_value slots, string, unit) act"

text \<open>\<open>from_buffer_slot(..).unwrap()\<close> at each of the two types.\<close>

definition take_array :: "(string \<Rightarrow> u64) \<Rightarrow> string \<Rightarrow> (faas_value slots, string, u32 list) act" where
  "take_array hash slot = act_bind (slot_take (fp_array hash) slot) (\<lambda>taken.
    case taken of Some (Nums xs) \<Rightarrow> act_ret xs | _ \<Rightarrow> act_panic)"

definition take_content :: "(string \<Rightarrow> u64) \<Rightarrow> string \<Rightarrow> (faas_value slots, string, string) act" where
  "take_content hash slot = act_bind (slot_take (fp_content hash) slot) (\<lambda>taken.
    case taken of Some (Str c) \<Rightarrow> act_ret c | _ \<Rightarrow> act_panic)"

definition put_array :: "(string \<Rightarrow> u64) \<Rightarrow> string \<Rightarrow> u32 list \<Rightarrow> func" where
  "put_array hash slot xs = act_modify (slot_put (fp_array hash) slot (Nums xs))"

definition parse_arg :: "nat \<Rightarrow> (string \<Rightarrow> string option) \<Rightarrow> string \<Rightarrow> (faas_value slots, string, nat) act" where
  "parse_arg w get_arg name =
    (case get_arg name of
       None \<Rightarrow> act_panic
     | Some s \<Rightarrow> (case parse_uint w s of None \<Rightarrow> act_panic | Some n \<Rightarrow> act_ret n))"

section \<open>Slots of the workflow\<close>

definition slot_input :: "string \<Rightarrow> string" where
  "slot_input my_id = ''input-part-'' @ my_id"

definition slot_sorted :: "string \<Rightarrow> string" where
  "slot_sorted my_id = ''sorter-resp-part-'' @ my_id"

definition slot_pivots :: "string \<Rightarrow> string" where
  "slot_pivots i = ''pivots-'' @ i"

definition slot_split :: "string \<Rightarrow> string \<Rightarrow> string" where
  "slot_split my_id idx = ''splitter-'' @ my_id @ ''-resp-part-'' @ idx"

definition slot_merged :: "string \<Rightarrow> string" where
  "slot_merged my_id = ''merge_result_'' @ my_id"

section \<open>The sorter\<close>

definition trim :: "string \<Rightarrow> string" where
  "trim s = rev (dropWhile is_ws (rev (dropWhile is_ws s)))"

text \<open>The parsing loop: the numbers pushed, and the error it stopped at.\<close>

fun parse_numbers :: "string list \<Rightarrow> u32 list \<Rightarrow> u32 list \<times> string option" where
  "parse_numbers [] acc = (acc, None)"
| "parse_numbers (piece # rest) acc =
    (let num = trim piece in
     if num = [] then parse_numbers rest acc
     else case parse_uint 32 num of
       None \<Rightarrow> (acc, Some (''parse Int failed, num='' @ num))
     | Some n \<Rightarrow> parse_numbers rest (acc @ [word_of_nat n]))"

definition sorter_main :: "(string \<Rightarrow> u64) \<Rightarrow> u32 list \<Rightarrow> (string \<Rightarrow> string option) \<Rightarrow> func" where
  "sorter_main hash fresh get_arg =
    (case get_arg ''id'' of
       None \<Rightarrow> act_panic
     | Some my_id \<Rightarrow>
        act_bind (parse_arg 64 get_arg ''sorter_num'') (\<lambda>sorter_num.
        act_bind (parse_arg 64 get_arg ''merger_num'') (\<lambda>merger_num.
        act_bind (take_content hash (slot_input my_id)) (\<lambda>content.
        act_bind (put_array hash (slot_sorted my_id) fresh) (\<lambda>_.
        case parse_numbers (split_on (CHR '','') content) [] of
          (nums, Some e) \<Rightarrow>
            act_bind (put_array hash (slot_sorted my_id) (fresh @ nums)) (\<lambda>_. act_err e)
        | (nums, None) \<Rightarrow>
            (let array = sort (fresh @ nums) in
             act_bind (put_array hash (slot_sorted my_id) array) (\<lambda>_.
             if my_id = ''0'' then
               act_bind (act_lift (choose_pivots array merger_num)) (\<lambda>pivots.
               act_each (\<lambda>i. put_array hash (slot_pivots (to_string i)) pivots) [0..<sorter_num])
             else act_ret ())))))))"

section \<open>The splitter\<close>

definition splitter_main :: "(string \<Rightarrow> u64) \<Rightarrow> (string \<Rightarrow> string option) \<Rightarrow> func" where
  "splitter_main hash get_arg =
    (case get_arg ''id'' of
       None \<Rightarrow> act_panic
     | Some my_id \<Rightarrow>
        act_bind (take_array hash (slot_sorted my_id)) (\<lambda>numbers.
        act_bind (take_array hash (slot_pivots my_id)) (\<lambda>pivots.
        act_each (\<lambda>(idx, partition). put_array hash (slot_split my_id (to_string idx)) partition)
          (List.enumerate 0 (split_numbers numbers pivots)))))"

section \<open>The merger\<close>

definition merger_main :: "(string \<Rightarrow> u64) \<Rightarrow> u32 list \<Rightarrow> (string \<Rightarrow> string option) \<Rightarrow> func" where
  "merger_main hash fresh get_arg =
    (case get_arg ''id'' of
       None \<Rightarrow> act_panic
     | Some my_id \<Rightarrow>
        act_bind (parse_arg 32 get_arg ''sorter_num'') (\<lambda>sorter_num.
        act_bind (act_collect (\<lambda>idx. take_array hash (slot_split (to_string idx) my_id)) [0..<sorter_num]) (\<lambda>partitions.
        put_array hash (slot_merged my_id) (merge_partitions partitions fresh))))"

section \<open>The checker\<close>

fun check_loop :: "(string \<Rightarrow> u64) \<Rightarrow> u32 \<Rightarrow> nat list \<Rightarrow> func" where
  "check_loop hash last_max [] = act_ret ()"
| "check_loop hash last_max (idx # rest) =
    act_bind (take_array hash (slot_merged (to_string idx))) (\<lambda>array.
    if \<not> sorted array then act_err ''sort result is wrong''
    else case array of
      [] \<Rightarrow> check_loop hash last_max rest
    | first # _ \<Rightarrow>
        if first < last_max then act_err ''sort result is wrong'' else check_loop hash first rest)"

definition checker_main :: "(string \<Rightarrow> u64) \<Rightarrow> (string \<Rightarrow> string option) \<Rightarrow> func" where
  "checker_main hash get_arg =
    act_bind (parse_arg 32 get_arg ''merger_num'') (\<lambda>merger_num. check_loop hash 0 [0..<merger_num])"

section \<open>Names of slots\<close>

lemma slot_split_inject:
  "slot_split (to_string a) (to_string b) = slot_split (to_string c) (to_string d) \<longleftrightarrow> a = c \<and> b = d"
proof
  assume eq: "slot_split (to_string a) (to_string b) = slot_split (to_string c) (to_string d)"
  have no_dash: "CHR ''-'' \<notin> set (to_string n)" for n
    using to_string_digits [of "CHR ''-''" n] by (auto simp: is_ascii_digit_def)
  have "to_string a @ CHR ''-'' # (''resp-part-'' @ to_string b) =
      to_string c @ CHR ''-'' # (''resp-part-'' @ to_string d)"
    using eq by (simp add: slot_split_def)
  from delimiter_cut [OF no_dash no_dash this]
  have "to_string a = to_string c \<and> ''resp-part-'' @ to_string b = ''resp-part-'' @ to_string d" .
  then show "a = c \<and> b = d" by simp
qed simp

lemma slot_kinds_distinct:
  "slot_split a b \<noteq> slot_sorted c" "slot_split a b \<noteq> slot_pivots c" "slot_split a b \<noteq> slot_merged c"
  "slot_sorted a \<noteq> slot_pivots c" "slot_sorted a \<noteq> slot_merged c" "slot_pivots a \<noteq> slot_merged c"
  "slot_input a \<noteq> slot_sorted c" "slot_input a \<noteq> slot_pivots c" "slot_input a \<noteq> slot_split c b"
  by (simp_all add: slot_split_def slot_sorted_def slot_pivots_def slot_merged_def slot_input_def)

section \<open>What the functions do to the slots\<close>

lemma take_array_present:
  "m slot = Some (fp_array hash, Nums xs) \<Longrightarrow> take_array hash slot m = (Ok xs, m(slot := None))"
  by (simp add: take_array_def slot_take_def act_defs)

lemma take_array_absent: "m slot = None \<Longrightarrow> take_array hash slot m = (Panic, m)"
  by (simp add: take_array_def slot_take_def act_defs)

lemma put_array_effect: "put_array hash slot xs m = (Ok (), m(slot \<mapsto> (fp_array hash, Nums xs)))"
  by (simp add: put_array_def slot_put_def act_defs)

text \<open>Storing a list of arrays under names that do not collide.\<close>

lemma put_all_effect:
  assumes "inj name"
  shows "\<exists>m'. act_each (\<lambda>(idx, xs). put_array hash (name idx) xs) (List.enumerate n xss) m = (Ok (), m') \<and>
    (\<forall>j. m' (name j) = (if n \<le> j \<and> j < n + length xss then Some (fp_array hash, Nums (xss ! (j - n))) else m (name j))) \<and>
    (\<forall>slot. (\<forall>j. slot \<noteq> name j) \<longrightarrow> m' slot = m slot)"
proof (induction xss arbitrary: n m)
  case (Cons xs xss)
  let ?m1 = "m(name n \<mapsto> (fp_array hash, Nums xs))"
  obtain m' where m': "act_each (\<lambda>(idx, xs). put_array hash (name idx) xs) (List.enumerate (Suc n) xss) ?m1 = (Ok (), m')"
    "\<And>j. m' (name j) = (if Suc n \<le> j \<and> j < Suc n + length xss then Some (fp_array hash, Nums (xss ! (j - Suc n))) else ?m1 (name j))"
    "\<And>slot. (\<forall>j. slot \<noteq> name j) \<Longrightarrow> m' slot = ?m1 slot"
    using Cons.IH [of "Suc n" ?m1] by blast
  have "act_each (\<lambda>(idx, xs). put_array hash (name idx) xs) (List.enumerate n (xs # xss)) m = (Ok (), m')"
    using m'(1) by (simp add: act_bind_def put_array_effect)
  moreover have "m' (name j) = (if n \<le> j \<and> j < n + length (xs # xss)
      then Some (fp_array hash, Nums ((xs # xss) ! (j - n))) else m (name j))" for j
    using m'(2) [of j] inj_eq [OF assms, of j n] by (cases "j = n") (auto simp: Suc_diff_Suc nth_Cons')
  moreover have "m' slot = m slot" if "\<forall>j. slot \<noteq> name j" for slot
    using m'(3) [OF that] that by auto
  ultimately show ?case by blast
qed (auto simp: act_ret_def)

text \<open>A splitter takes the sorted array and the pivots of its id and leaves partition j in
  the slot of merger j; a slot beyond the last partition keeps what it had.\<close>

theorem splitter_fills_slots:
  assumes "get_arg ''id'' = Some my_id"
    and "m (slot_sorted my_id) = Some (fp_array hash, Nums numbers)"
    and "m (slot_pivots my_id) = Some (fp_array hash, Nums pivots)"
  shows "\<exists>m'. splitter_main hash get_arg m = (Ok (), m') \<and>
    (\<forall>j. m' (slot_split my_id (to_string j)) =
      (if j < length (split_numbers numbers pivots)
       then Some (fp_array hash, Nums (split_numbers numbers pivots ! j))
       else m (slot_split my_id (to_string j)))) \<and>
    m' (slot_sorted my_id) = None \<and> m' (slot_pivots my_id) = None"
proof -
  let ?m1 = "m(slot_sorted my_id := None, slot_pivots my_id := None)"
  let ?name = "\<lambda>j. slot_split my_id (to_string j)"
  have inj: "inj ?name" by (rule injI) (simp add: slot_split_def)
  obtain m' where m': "act_each (\<lambda>(idx, xs). put_array hash (?name idx) xs)
      (List.enumerate 0 (split_numbers numbers pivots)) ?m1 = (Ok (), m')"
    "\<forall>j. m' (?name j) = (if 0 \<le> j \<and> j < 0 + length (split_numbers numbers pivots)
       then Some (fp_array hash, Nums (split_numbers numbers pivots ! (j - 0))) else ?m1 (?name j))"
    "\<forall>slot. (\<forall>j. slot \<noteq> ?name j) \<longrightarrow> m' slot = ?m1 slot"
    using put_all_effect [OF inj, of hash 0 "split_numbers numbers pivots" ?m1] by blast
  have t2: "(m(slot_sorted my_id := None)) (slot_pivots my_id) = Some (fp_array hash, Nums pivots)"
    using assms(3) slot_kinds_distinct(4) [of my_id my_id] by simp
  have "splitter_main hash get_arg m = (Ok (), m')"
    using m'(1) take_array_present [of m "slot_sorted my_id" hash, OF assms(2)]
      take_array_present [of "m(slot_sorted my_id := None)" "slot_pivots my_id" hash, OF t2] assms(1)
    by (simp add: splitter_main_def act_bind_def)
  moreover have "m' (slot_sorted my_id) = None" "m' (slot_pivots my_id) = None"
    using m'(3) slot_kinds_distinct(1,2) [of my_id _ my_id] by (simp_all add: eq_commute)
  moreover have "?m1 (?name j) = m (?name j)" for j
    using slot_kinds_distinct(1,2) [of my_id _ my_id] by simp
  ultimately show ?thesis using m'(2) by auto
qed

theorem splitter_fills_slots_witness:
  "let m = [slot_sorted ''0'' \<mapsto> (fp_array (\<lambda>_. 9), Nums [1, 8]), slot_pivots ''0'' \<mapsto> (fp_array (\<lambda>_. 9), Nums [5])]
   in \<exists>m'. splitter_main (\<lambda>_. 9) (\<lambda>_. Some ''0'') m = (Ok (), m') \<and> m' (slot_sorted ''0'') = None"
  using splitter_fills_slots [of "\<lambda>_. Some ''0''" "''0''"
      "[slot_sorted ''0'' \<mapsto> (fp_array (\<lambda>_. 9), Nums [1, 8]), slot_pivots ''0'' \<mapsto> (fp_array (\<lambda>_. 9), Nums [5])]"
      "\<lambda>_. 9" "[1, 8]" "[5]"]
  by (auto simp: slot_kinds_distinct Let_def)

lemma take_all_effect:
  assumes "inj name" "distinct js"
    "\<And>j. j \<in> set js \<Longrightarrow> m (name j) = Some (fp_array hash, Nums (f j))"
  shows "act_collect (\<lambda>j. take_array hash (name j)) js m =
    (Ok (map f js), (\<lambda>slot. if \<exists>j \<in> set js. slot = name j then None else m slot))"
  using assms(2,3)
proof (induction js arbitrary: m)
  case (Cons j js)
  have "(m(name j := None)) (name k) = Some (fp_array hash, Nums (f k))" if "k \<in> set js" for k
    using Cons.prems that inj_eq [OF assms(1), of k j] by auto
  then have "act_collect (\<lambda>j. take_array hash (name j)) js (m(name j := None)) =
      (Ok (map f js), (\<lambda>slot. if \<exists>k \<in> set js. slot = name k then None else (m(name j := None)) slot))"
    using Cons.prems(1) by (intro Cons.IH) auto
  moreover have "take_array hash (name j) m = (Ok (f j), m(name j := None))"
    using Cons.prems(2) by (intro take_array_present) simp
  ultimately have "act_collect (\<lambda>j. take_array hash (name j)) (j # js) m =
      (Ok (f j # map f js), (\<lambda>slot. if \<exists>k \<in> set js. slot = name k then None else (m(name j := None)) slot))"
    by (simp only: act_collect.simps act_bind_def act_ret_def prod.case res.case)
  then show ?case by (auto simp: fun_eq_iff)
qed (simp add: act_ret_def)

lemma take_array_keeps_None:
  assumes "take_array hash slot m = (r, m1)" "m x = None"
  shows "m1 x = None"
proof -
  have "m1 = m \<or> m1 = m(slot := None)"
    using assms(1) unfolding take_array_def slot_take_def act_defs
    by (cases "m slot") (auto split: prod.splits if_splits faas_value.splits)
  with assms(2) show ?thesis by auto
qed

lemma take_all_missing:
  assumes "j \<in> set js" "m (name j) = None"
  shows "\<not> is_ok (fst (act_collect (\<lambda>i. take_array hash (name i)) js m))"
  using assms
proof (induction js arbitrary: m)
  case (Cons k js)
  show ?case
  proof (cases "k = j")
    case True
    with Cons.prems show ?thesis by (simp add: take_array_absent act_bind_def)
  next
    case False
    obtain r m1 where k: "take_array hash (name k) m = (r, m1)" by (cases "take_array hash (name k) m") auto
    have "m1 (name j) = None" using take_array_keeps_None [OF k Cons.prems(2)] .
    with Cons.IH [of m1] Cons.prems(1) False k show ?thesis
      by (auto simp: act_bind_def act_ret_def split: res.split prod.split)
  qed
qed simp

text \<open>A merger whose partitions are all there, sorted, leaves in its result slot what the
  fresh buffer read as followed by the sorted union of the partitions without \<open>u32::MAX\<close>; a
  merger that misses a partition does not succeed.\<close>

theorem merger_result:
  assumes "get_arg ''id'' = Some (to_string k)" and "get_arg ''sorter_num'' = Some (to_string n)" and "n < 2 ^ 32"
  shows "((\<forall>i < n. m (slot_split (to_string i) (to_string k)) = Some (fp_array hash, Nums (f i)) \<and> sorted (f i)) \<longrightarrow>
      (\<exists>m' out. merger_main hash fresh get_arg m = (Ok (), m') \<and>
        m' (slot_merged (to_string k)) = Some (fp_array hash, Nums (fresh @ out)) \<and> sorted out \<and>
        mset out = filter_mset (\<lambda>x. x \<noteq> - 1) (mset (concat (map f [0..<n]))))) \<and>
    ((\<exists>i < n. m (slot_split (to_string i) (to_string k)) = None) \<longrightarrow>
      fst (merger_main hash fresh get_arg m) \<noteq> Ok ())"
proof (intro conjI impI)
  let ?name = "\<lambda>i. slot_split (to_string i) (to_string k)"
  have inj: "inj ?name" by (rule injI) (simp add: slot_split_inject)
  have main: "merger_main hash fresh get_arg m =
      act_bind (act_collect (\<lambda>idx. take_array hash (?name idx)) [0..<n]) (\<lambda>partitions.
        put_array hash (slot_merged (to_string k)) (merge_partitions partitions fresh)) m"
    using assms by (simp add: merger_main_def parse_arg_def parse_uint_to_string act_bind_def act_ret_def)
  { assume all: "\<forall>i < n. m (?name i) = Some (fp_array hash, Nums (f i)) \<and> sorted (f i)"
    have "act_collect (\<lambda>idx. take_array hash (?name idx)) [0..<n] m =
        (Ok (map f [0..<n]), (\<lambda>slot. if \<exists>j \<in> set [0..<n]. slot = ?name j then None else m slot))"
      using all by (intro take_all_effect [OF inj]) auto
    moreover obtain out where "merge_partitions (map f [0..<n]) fresh = fresh @ out" "sorted out"
      "mset out = filter_mset (\<lambda>x. x \<noteq> - 1) (mset (concat (map f [0..<n])))"
      using merge_partitions_correct [of "map f [0..<n]" fresh] all by auto
    ultimately show "\<exists>m' out. merger_main hash fresh get_arg m = (Ok (), m') \<and>
        m' (slot_merged (to_string k)) = Some (fp_array hash, Nums (fresh @ out)) \<and> sorted out \<and>
        mset out = filter_mset (\<lambda>x. x \<noteq> - 1) (mset (concat (map f [0..<n])))"
      unfolding main by (auto simp: act_bind_def put_array_effect) }
  { assume "\<exists>i < n. m (?name i) = None"
    then obtain i where "i \<in> set [0..<n]" "m (?name i) = None" by auto
    then have "\<not> is_ok (fst (act_collect (\<lambda>idx. take_array hash (?name idx)) [0..<n] m))"
      by (rule take_all_missing)
    then show "fst (merger_main hash fresh get_arg m) \<noteq> Ok ()"
      unfolding main by (auto simp: act_bind_def split: prod.splits res.splits) }
qed

theorem merger_result_witness:
  "let m = [slot_split (to_string 0) (to_string 0) \<mapsto> (fp_array (\<lambda>_. 9), Nums [2, 5])];
       get_arg = (\<lambda>a. if a = ''id'' then Some (to_string 0) else Some (to_string 1))
   in \<exists>m' out. merger_main (\<lambda>_. 9) [] get_arg m = (Ok (), m') \<and>
        m' (slot_merged (to_string 0)) = Some (fp_array (\<lambda>_. 9), Nums out) \<and> mset out = {#2, 5#}"
  using merger_result [of "\<lambda>a. if a = ''id'' then Some (to_string 0) else Some (to_string 1)" 0 1
      "[slot_split (to_string 0) (to_string 0) \<mapsto> (fp_array (\<lambda>_. 9), Nums [2, 5])]" "\<lambda>_. 9" "\<lambda>_. [2, 5]" "[]"]
  by (auto simp: Let_def word_le_nat_alt)

end
