(* ===== verification/Fs_Types.thy ===== *)
theory Fs_Types
  imports Rust_Prelude
begin

text \<open>
  Types shared by the file services (\<open>as_hostcall/src/types.rs\<close>, \<open>fdtab.rs\<close>, \<open>fatfs.rs\<close>,
  \<open>socket.rs\<close>, \<open>mm.rs\<close>, \<open>mmap_file_backend.rs\<close>): open flags and modes as bit sets, file
  status, directory entries and the error enumerations. A seconds or nanoseconds field is an
  integer; the unused and padding fields of \<open>Stat\<close> are kept.
\<close>

unbundle bit_operations_syntax

section \<open>Bit sets\<close>

type_synonym OpenFlags = u32
type_synonym OpenMode = u32
type_synonym ProtFlags = u32

text \<open>\<open>bitflags\<close>' \<open>contains\<close>.\<close>

definition flags_contain :: "u32 \<Rightarrow> u32 \<Rightarrow> bool" where
  "flags_contain a b = (a AND b = b)"

definition O_APPEND :: OpenFlags where "O_APPEND = 1"
definition O_CREAT :: OpenFlags where "O_CREAT = 2"

definition RD :: OpenMode where "RD = 1"
definition WR :: OpenMode where "WR = 2"
definition RDWR :: OpenMode where "RDWR = 3"

definition PROT_FLAG_READ :: ProtFlags where "PROT_FLAG_READ = 1"
definition PROT_FLAG_WRITE :: ProtFlags where "PROT_FLAG_WRITE = 2"
definition PROT_FLAG_EXEC :: ProtFlags where "PROT_FLAG_EXEC = 4"

lemmas open_mode_defs = RD_def WR_def RDWR_def flags_contain_def

lemma RDWR_contains: "flags_contain m RDWR \<longleftrightarrow> flags_contain m RD \<and> flags_contain m WR"
proof -
  have both: "RDWR = RD OR WR" by (simp add: RD_def WR_def RDWR_def)
  have "m AND (a OR b) = a OR b \<longleftrightarrow> m AND a = a \<and> m AND b = b" for a b :: u32
    by (auto simp: bit_eq_iff bit_and_iff bit_or_iff)
  then show ?thesis unfolding flags_contain_def both .
qed

section \<open>Status of a file\<close>

record TimeSpec =
  tv_sec :: int
  tv_nsec :: int

record Stat =
  st_dev :: u64
  st_ino :: u64
  st_nlink :: u64
  st_mode :: u32
  st_uid :: u32
  st_gid :: u32
  pad0 :: u32
  st_rdev :: u64
  st_size :: u64
  st_blksize :: int
  st_blocks :: int
  st_atime :: TimeSpec
  st_mtime :: TimeSpec
  st_ctime :: TimeSpec
  st_unused :: "int list"

record DirEntry =
  dir_path :: string
  entry_name :: string
  entry_type :: u32

section \<open>Errors\<close>

datatype FatfsError =
    HostIOErr string
  | AcquireLockErr string
  | FatBadInputFd Fd
  | FatUnknown

datatype SmoltcpError =
    SockAcquireLockErr string string
  | SmoltcpErr string
  | SockHostIOErr string
  | DNSQueryFailed
  | BadTCPState string string
  | NoLocalEndpoint

datatype FdtabError =
    BadInputFd string Fd
  | NoExistFd Fd
  | NoReadPerm Fd
  | NoWritePerm Fd
  | FatfsErr FatfsError
  | SocketErr SmoltcpError
  | UndefinedOperation string Fd string
  | RuxfsErr string
  | FsErr string
  | Ext4Err string

datatype MmapFileErr =
    MmapAcquireLockErr string string
  | PipeStateErr string
  | NixErr string
  | MmapUnknown string
  | FileError FdtabError
  | SpawnHandlerError string
  | UffdError string

datatype MMError =
    InvaildArg string u64
  | LayoutErr
  | FileBackendErr MmapFileErr
  | LibcErr string

end
