(* ===== verification/Handle_Table.thy ===== *)
theory Handle_Table
  imports Fs_Types Btree_Map
begin

text \<open>
  Tables of open files. The services keep them in three ways: a vector with reusable slots
  whose descriptors start at 3 (\<open>common_service/fdtab/src/lib.rs\<close>), a vector that only
  grows (\<open>common_service/fatfs/src/lib.rs\<close>), and an ordered map with a counter
  (\<open>rcorefdtab\<close>, \<open>rcore_sfsfdtab\<close>, \<open>ext4fdtab\<close>). The locale states what the operations on
  files rely on; each of the three is shown to provide it.
\<close>

section \<open>The contract\<close>

text \<open>Opening and closing as a sequence of table operations; \<open>run_tab\<close> collects the
  descriptors handed out. \<open>spec_tab\<close> is the client's view: a map that binds each of these
  numbers, which must have been free and one that \<open>rule\<close> allows, or \<open>None\<close> when one was not.\<close>

datatype 'f tab_op = AddFile 'f | RemoveFile Fd

fun run_tab ::
  "('f \<Rightarrow> 't \<Rightarrow> Fd \<times> 't) \<Rightarrow> (Fd \<Rightarrow> 't \<Rightarrow> 't) \<Rightarrow> 'f tab_op list \<Rightarrow> 't \<Rightarrow> Fd list \<times> 't" where
  "run_tab add rm [] t = ([], t)"
| "run_tab add rm (AddFile f # ops) t =
    (case add f t of (fd, t1) \<Rightarrow> (case run_tab add rm ops t1 of (fds, t2) \<Rightarrow> (fd # fds, t2)))"
| "run_tab add rm (RemoveFile fd # ops) t = run_tab add rm ops (rm fd t)"

fun spec_tab ::
  "((Fd \<rightharpoonup> 'f) \<Rightarrow> Fd \<Rightarrow> bool) \<Rightarrow> 'f tab_op list \<Rightarrow> Fd list \<Rightarrow> (Fd \<rightharpoonup> 'f) \<Rightarrow> (Fd \<rightharpoonup> 'f) option" where
  "spec_tab rule [] fds m = (if fds = [] then Some m else None)"
| "spec_tab rule (AddFile f # ops) (fd # fds) m =
    (if m fd = None \<and> rule m fd then spec_tab rule ops fds (m(fd \<mapsto> f)) else None)"
| "spec_tab rule (AddFile f # ops) [] m = None"
| "spec_tab rule (RemoveFile fd # ops) fds m = spec_tab rule ops fds (m(fd := None))"

fun tab_adds :: "'f tab_op list \<Rightarrow> nat" where
  "tab_adds [] = 0"
| "tab_adds (AddFile f # ops) = Suc (tab_adds ops)"
| "tab_adds (RemoveFile fd # ops) = tab_adds ops"

locale handle_table =
  fixes lookup :: "'t \<Rightarrow> Fd \<Rightarrow> 'f option"
    and add :: "'f \<Rightarrow> 't \<Rightarrow> Fd \<times> 't"
    and rm :: "Fd \<Rightarrow> 't \<Rightarrow> 't"
    and ok :: "nat \<Rightarrow> 't \<Rightarrow> bool"
    and rule :: "(Fd \<rightharpoonup> 'f) \<Rightarrow> Fd \<Rightarrow> bool"
  assumes add_rule: "ok (Suc n) t \<Longrightarrow> add f t = (fd, t') \<Longrightarrow> rule (lookup t) fd"
    and add_fresh: "ok (Suc n) t \<Longrightarrow> add f t = (fd, t') \<Longrightarrow> lookup t fd = None"
    and lookup_add: "ok (Suc n) t \<Longrightarrow> add f t = (fd, t') \<Longrightarrow>
          lookup t' fd' = (if fd' = fd then Some f else lookup t fd')"
    and lookup_rm: "ok n t \<Longrightarrow> lookup (rm fd t) fd' = (if fd' = fd then None else lookup t fd')"
    and ok_add: "ok (Suc n) t \<Longrightarrow> add f t = (fd, t') \<Longrightarrow> ok n t'"
    and ok_rm: "ok n t \<Longrightarrow> ok n (rm fd t)"
begin

text \<open>Here \<open>ok n t\<close> says that \<open>t\<close> is well formed and has room for \<open>n\<close> more descriptors.\<close>

lemma close_after_open:
  assumes "ok (Suc n) t" "add f t = (fd, t')"
  shows "lookup (rm fd t') = lookup t"
  using lookup_rm [OF ok_add [OF assms]] lookup_add [OF assms] add_fresh [OF assms]
  by (auto simp: fun_eq_iff)

lemma two_opens_differ:
  assumes "ok (Suc (Suc n)) t" "add f t = (fd, t1)" "add g t1 = (gd, t2)"
  shows "fd \<noteq> gd \<and> lookup t2 fd = Some f \<and> lookup t2 gd = Some g"
proof -
  have ok1: "ok (Suc n) t1" by (rule ok_add [OF assms(1,2)])
  have "lookup t1 fd = Some f" using lookup_add [OF assms(1,2)] by simp
  moreover from this have "fd \<noteq> gd" using add_fresh [OF ok1 assms(3)] by auto
  ultimately show ?thesis using lookup_add [OF ok1 assms(3)] by simp
qed

text \<open>A whole sequence of operations acts on the table as on the client's map.\<close>

lemma run_refines_map:
  assumes "ok (tab_adds ops) t" "run_tab add rm ops t = (fds, t')"
  shows "spec_tab rule ops fds (lookup t) = Some (lookup t')"
  using assms
proof (induction ops arbitrary: t fds)
  case (Cons op ops)
  show ?case
  proof (cases op)
    case (AddFile f)
    obtain fd t1 where a: "add f t = (fd, t1)" by (cases "add f t")
    obtain gds where r: "run_tab add rm ops t1 = (gds, t')" "fds = fd # gds"
      using Cons.prems(2) AddFile a by (auto split: prod.splits)
    have ok: "ok (Suc (tab_adds ops)) t" using Cons.prems(1) AddFile by simp
    have eq: "lookup t1 = (lookup t)(fd \<mapsto> f)" using lookup_add [OF ok a] by (auto simp: fun_eq_iff)
    have "spec_tab rule ops gds ((lookup t)(fd \<mapsto> f)) = Some (lookup t')"
      using Cons.IH [OF ok_add [OF ok a] r(1)] unfolding eq .
    with AddFile r(2) add_fresh [OF ok a] add_rule [OF ok a] show ?thesis by simp
  next
    case (RemoveFile fd)
    have ok: "ok (tab_adds ops) t" using Cons.prems(1) RemoveFile by simp
    have eq: "lookup (rm fd t) = (lookup t)(fd := None)" using lookup_rm [OF ok] by (auto simp: fun_eq_iff)
    have run: "run_tab add rm ops (rm fd t) = (fds, t')" using Cons.prems(2) RemoveFile by simp
    have "spec_tab rule ops fds ((lookup t)(fd := None)) = Some (lookup t')"
      using Cons.IH [OF ok_rm [OF ok] run] unfolding eq .
    with RemoveFile show ?thesis by simp
  qed
qed simp

end

section \<open>A vector with reusable slots\<close>

text \<open>\<open>FdTable\<close> of \<open>fdtab\<close>: descriptor \<open>fd\<close> is slot \<open>fd - 3\<close>.\<close>

type_synonym 'f fd_vec = "'f option list"

definition fdvec_lookup :: "'f fd_vec \<Rightarrow> Fd \<Rightarrow> 'f option" where
  "fdvec_lookup t fd = (if unat fd < 3 then None else Option.bind (vec_get t (unat fd - 3)) id)"

definition add_file :: "'f \<Rightarrow> 'f fd_vec \<Rightarrow> Fd \<times> 'f fd_vec" where
  "add_file f t =
    (case first_index (\<lambda>x. x = None) t of
       Some i \<Rightarrow> (word_of_nat (i + 3), t[i := Some f])
     | None \<Rightarrow> (word_of_nat (length t + 3), t @ [Some f]))"

text \<open>For the three reserved descriptors the index \<open>fd as usize - 3\<close> wraps around to the end of
  the address space, where no vector reaches; the callers rule them out first.\<close>

definition remove_file :: "Fd \<Rightarrow> 'f fd_vec \<Rightarrow> (unit, 'f option) res \<times> 'f fd_vec" where
  "remove_file fd t =
    (if unat fd < 3 then (Ok None, t)
     else if length t \<le> unat fd - 3 then (Ok None, t)
     else (Ok (t ! (unat fd - 3)), t[unat fd - 3 := None]))"

definition with_file :: "Fd \<Rightarrow> 'f fd_vec \<Rightarrow> (unit, 'f option) res" where
  "with_file fd t =
    (if unat fd < 3 then Ok None
     else Ok (case vec_get t (unat fd - 3) of Some (Some f) \<Rightarrow> Some f | _ \<Rightarrow> None))"

definition fdvec_ok :: "nat \<Rightarrow> 'f fd_vec \<Rightarrow> bool" where
  "fdvec_ok n t = (length t + n + 3 \<le> 2 ^ 32)"

lemma with_file_lookup: "3 \<le> unat fd \<Longrightarrow> with_file fd t = Ok (fdvec_lookup t fd)"
  by (auto simp: with_file_def fdvec_lookup_def vec_get_def split: option.splits)

lemma remove_file_lookup: "3 \<le> unat fd \<Longrightarrow> fst (remove_file fd t) = Ok (fdvec_lookup t fd)"
  by (auto simp: remove_file_def fdvec_lookup_def vec_get_def)

text \<open>A new descriptor is the lowest free one.\<close>

definition lowest_free :: "(Fd \<rightharpoonup> 'f) \<Rightarrow> Fd \<Rightarrow> bool" where
  "lowest_free m fd = (3 \<le> fd \<and> (\<forall>x. 3 \<le> x \<and> x < fd \<longrightarrow> m x \<noteq> None))"

lemma add_file_slot:
  assumes "fdvec_ok (Suc n) t" "add_file f t = (fd, t')"
  shows "\<exists>i. unat fd = i + 3 \<and> i \<le> length t \<and> (\<forall>x. vec_get t i = Some x \<longrightarrow> x = None) \<and>
    (\<forall>j<i. t ! j \<noteq> None) \<and> (\<forall>j. vec_get t' j = (if j = i then Some (Some f) else vec_get t j)) \<and> length t' \<le> Suc (length t)"
proof (cases "first_index (\<lambda>x. x = None) t")
  case None
  have "unat (word_of_nat (length t + 3) :: Fd) = length t + 3"
    using assms(1) by (intro unat_word_of_nat_lt) (simp add: fdvec_ok_def)
  with None assms(2) have "unat fd = length t + 3" "t' = t @ [Some f]"
    by (auto simp: add_file_def simp del: of_nat_add)
  moreover have "\<forall>j<length t. t ! j \<noteq> None" using None unfolding first_index_None by (auto simp: all_set_conv_all_nth)
  ultimately show ?thesis by (intro exI [of _ "length t"]) (auto simp: vec_get_append_one)
next
  case (Some i)
  have i: "i < length t" "t ! i = None" "\<forall>j<i. t ! j \<noteq> None" using first_index_Some [OF Some] by auto
  have "unat (word_of_nat (i + 3) :: Fd) = i + 3"
    using assms(1) i(1) by (intro unat_word_of_nat_lt) (simp add: fdvec_ok_def)
  with Some assms(2) have "unat fd = i + 3" "t' = t[i := Some f]"
    by (auto simp: add_file_def simp del: of_nat_add)
  with i show ?thesis by (intro exI [of _ i]) (auto simp: vec_get_update)
qed

interpretation fdvec: handle_table fdvec_lookup add_file "\<lambda>fd t. snd (remove_file fd t)" fdvec_ok lowest_free
proof
  fix n :: nat and t t' :: "'a fd_vec" and f fd fd'
  assume ok: "fdvec_ok (Suc n) t" and add: "add_file f t = (fd, t')"
  obtain i where i: "unat fd = i + 3" "\<forall>x. vec_get t i = Some x \<longrightarrow> x = None"
    "\<forall>j. vec_get t' j = (if j = i then Some (Some f) else vec_get t j)" "length t' \<le> Suc (length t)"
    "i \<le> length t" "\<forall>j<i. t ! j \<noteq> None"
    using add_file_slot [OF ok add] by blast
  show "lowest_free (fdvec_lookup t) fd"
    unfolding lowest_free_def
  proof (intro conjI allI impI)
    show "3 \<le> fd" using i(1) by (simp add: word_le_nat_alt)
    fix x :: Fd
    assume "3 \<le> x \<and> x < fd"
    then have "3 \<le> unat x" "unat x - 3 < i" using i(1) by (auto simp: word_le_nat_alt word_less_nat_alt)
    then show "fdvec_lookup t x \<noteq> None"
      using i(5,6) by (auto simp: fdvec_lookup_def vec_get_def)
  qed
  show "fdvec_lookup t fd = None"
    using i(1,2) by (cases "vec_get t i") (auto simp: fdvec_lookup_def)
  show "fdvec_lookup t' fd' = (if fd' = fd then Some f else fdvec_lookup t fd')"
    using i(1,3) by (auto simp: fdvec_lookup_def word_unat_eq_iff)
  show "fdvec_ok n t'" using ok i(4) by (simp add: fdvec_ok_def)
next
  fix n :: nat and t :: "'a fd_vec" and fd fd'
  show "fdvec_lookup (snd (remove_file fd t)) fd' = (if fd' = fd then None else fdvec_lookup t fd')"
    by (auto simp: remove_file_def fdvec_lookup_def vec_get_update word_unat_eq_iff)
  assume "fdvec_ok n t"
  then show "fdvec_ok n (snd (remove_file fd t))" by (simp add: fdvec_ok_def remove_file_def)
qed

section \<open>A vector that only grows\<close>

definition fatvec_lookup :: "'f fd_vec \<Rightarrow> Fd \<Rightarrow> 'f option" where
  "fatvec_lookup t fd = Option.bind (vec_get t (unat fd)) id"

definition fat_add_file :: "'f \<Rightarrow> 'f fd_vec \<Rightarrow> Fd \<times> 'f fd_vec" where
  "fat_add_file f t = (word_of_nat (length t), t @ [Some f])"

definition fat_remove_file :: "Fd \<Rightarrow> 'f fd_vec \<Rightarrow> (FatfsError, unit) res \<times> 'f fd_vec" where
  "fat_remove_file h t =
    (case vec_get t (unat h) of
       Some (Some f) \<Rightarrow> (Ok (), t[unat h := None])
     | _ \<Rightarrow> (Err (FatBadInputFd h), t))"

text \<open>A new number is above all numbers in use.\<close>

definition above_open :: "(Fd \<rightharpoonup> 'f) \<Rightarrow> Fd \<Rightarrow> bool" where
  "above_open m fd = (\<forall>x. m x \<noteq> None \<longrightarrow> x < fd)"

definition fatvec_ok :: "nat \<Rightarrow> 'f fd_vec \<Rightarrow> bool" where
  "fatvec_ok n t = (length t + n \<le> 2 ^ 32)"

interpretation fatvec: handle_table fatvec_lookup fat_add_file "\<lambda>fd t. snd (fat_remove_file fd t)" fatvec_ok
  above_open
proof
  fix n :: nat and t t' :: "'a fd_vec" and f fd fd'
  assume ok: "fatvec_ok (Suc n) t" and add: "fat_add_file f t = (fd, t')"
  then have fd: "unat fd = length t" "t' = t @ [Some f]" by (auto simp: fat_add_file_def fatvec_ok_def)
  show "above_open (fatvec_lookup t) fd"
    by (auto simp: above_open_def fatvec_lookup_def vec_get_def fd word_less_nat_alt split: if_splits)
  show "fatvec_lookup t fd = None" by (simp add: fatvec_lookup_def fd)
  show "fatvec_lookup t' fd' = (if fd' = fd then Some f else fatvec_lookup t fd')"
    by (auto simp: fatvec_lookup_def fd vec_get_append_one word_unat_eq_iff)
  show "fatvec_ok n t'" using ok by (simp add: fatvec_ok_def fd)
next
  fix n :: nat and t :: "'a fd_vec" and fd fd'
  show "fatvec_lookup (snd (fat_remove_file fd t)) fd' = (if fd' = fd then None else fatvec_lookup t fd')"
    by (auto simp: fat_remove_file_def fatvec_lookup_def vec_get_update word_unat_eq_iff
        dest: vec_get_Some_less split: option.splits)
  assume "fatvec_ok n t"
  then show "fatvec_ok n (snd (fat_remove_file fd t))"
    by (simp add: fatvec_ok_def fat_remove_file_def split: option.split)
qed

section \<open>An ordered map with a counter\<close>

text \<open>\<open>FD_TABLE\<close> and \<open>NEXT_FD\<close>; \<open>alloc_fd\<close> takes the next number.\<close>

type_synonym 'f fd_map = "(Fd, 'f) btree \<times> Fd"

definition fdmap_lookup :: "'f fd_map \<Rightarrow> Fd \<Rightarrow> 'f option" where
  "fdmap_lookup t fd = btree_get (fst t) fd"

definition alloc_fd :: "'f \<Rightarrow> 'f fd_map \<Rightarrow> Fd \<times> 'f fd_map" where
  "alloc_fd f t = (snd t, (btree_insert (snd t) f (fst t), snd t + 1))"

definition remove_fd :: "Fd \<Rightarrow> 'f fd_map \<Rightarrow> 'f fd_map" where
  "remove_fd fd t = (btree_remove fd (fst t), snd t)"

definition fdmap_ok :: "nat \<Rightarrow> 'f fd_map \<Rightarrow> bool" where
  "fdmap_ok n t = (btree_ok (fst t) \<and> (\<forall>fd. btree_get (fst t) fd \<noteq> None \<longrightarrow> fd < snd t) \<and>
     unat (snd t) + n < 2 ^ 32)"

interpretation fdmap: handle_table fdmap_lookup alloc_fd remove_fd fdmap_ok above_open
proof
  fix n :: nat and t t' :: "'a fd_map" and f fd fd'
  assume ok: "fdmap_ok (Suc n) t" and add: "alloc_fd f t = (fd, t')"
  then have fd: "fd = snd t" "t' = (btree_insert (snd t) f (fst t), snd t + 1)"
    by (auto simp: alloc_fd_def)
  show "above_open (fdmap_lookup t) fd"
    using ok by (auto simp: above_open_def fdmap_ok_def fdmap_lookup_def fd)
  show "fdmap_lookup t fd = None"
    using ok by (auto simp: fdmap_ok_def fdmap_lookup_def fd)
  show "fdmap_lookup t' fd' = (if fd' = fd then Some f else fdmap_lookup t fd')"
    using ok by (simp add: fdmap_ok_def fdmap_lookup_def fd btree.get_insert)
  have "unat (snd t + 1) = unat (snd t) + 1" using ok by (simp add: fdmap_ok_def unat_word_ariths)
  then show "fdmap_ok n t'"
    using ok by (auto simp: fdmap_ok_def fd btree.get_insert btree.ok_insert word_less_nat_alt less_Suc_eq split: if_splits)
next
  fix n :: nat and t :: "'a fd_map" and fd fd'
  assume ok: "fdmap_ok n t"
  then show "fdmap_lookup (remove_fd fd t) fd' = (if fd' = fd then None else fdmap_lookup t fd')"
    by (simp add: fdmap_ok_def fdmap_lookup_def remove_fd_def btree.get_remove)
  show "fdmap_ok n (remove_fd fd t)"
    using ok by (auto simp: fdmap_ok_def remove_fd_def btree.get_remove btree.ok_remove split: if_splits)
qed

section \<open>Sequences of opens and closes\<close>

lemma fat_numbers:
  "fatvec_ok (tab_adds ops) t \<Longrightarrow>
   run_tab fat_add_file (\<lambda>fd t. snd (fat_remove_file fd t)) ops t = (fds, t') \<Longrightarrow>
   map unat fds = [length t..<length t + tab_adds ops]"
proof (induction ops arbitrary: t fds)
  case (Cons op ops)
  show ?case
  proof (cases op)
    case (AddFile f)
    obtain gds where r: "run_tab fat_add_file (\<lambda>fd t. snd (fat_remove_file fd t)) ops (t @ [Some f]) = (gds, t')"
      "fds = word_of_nat (length t) # gds"
      using Cons.prems(2) AddFile fat_add_file_def [of f t] by (auto split: prod.splits)
    have "fatvec_ok (tab_adds ops) (t @ [Some f])" using Cons.prems(1) AddFile by (simp add: fatvec_ok_def)
    from Cons.IH [OF this r(1)] have "map unat gds = [Suc (length t)..<length t + tab_adds (op # ops)]"
      using AddFile by simp
    moreover have "unat (word_of_nat (length t) :: Fd) = length t"
      using Cons.prems(1) AddFile by (intro unat_word_of_nat_lt) (simp add: fatvec_ok_def)
    ultimately show ?thesis using AddFile r(2) by (simp add: upt_conv_Cons del: upt_Suc)
  next
    case (RemoveFile fd)
    have len: "length (snd (fat_remove_file fd t)) = length t"
      by (simp add: fat_remove_file_def split: option.split)
    with Cons.IH [of "snd (fat_remove_file fd t)" fds] Cons.prems RemoveFile show ?thesis
      by (simp add: fatvec_ok_def)
  qed
qed simp

lemma map_numbers:
  "unat (snd t) + tab_adds ops < 2 ^ 32 \<Longrightarrow> run_tab alloc_fd remove_fd ops t = (fds, t') \<Longrightarrow>
   map unat fds = [unat (snd t)..<unat (snd t) + tab_adds ops]"
proof (induction ops arbitrary: t fds)
  case (Cons op ops)
  show ?case
  proof (cases op)
    case (AddFile f)
    let ?t = "(btree_insert (snd t) f (fst t), snd t + 1)"
    obtain gds where r: "run_tab alloc_fd remove_fd ops ?t = (gds, t')" "fds = snd t # gds"
      using Cons.prems(2) AddFile alloc_fd_def [of f t] by (auto split: prod.splits)
    have succ: "unat (snd t + 1) = Suc (unat (snd t))"
      using Cons.prems(1) AddFile by (simp add: unat_word_ariths)
    with Cons.IH [OF _ r(1)] Cons.prems(1) AddFile
    have "map unat gds = [Suc (unat (snd t))..<unat (snd t) + tab_adds (op # ops)]" by simp
    then show ?thesis using AddFile r(2) by (simp add: upt_conv_Cons del: upt_Suc)
  next
    case (RemoveFile fd)
    with Cons.IH [of "remove_fd fd t" fds] Cons.prems show ?thesis by (simp add: remove_fd_def)
  qed
qed simp

text \<open>C17: the three descriptor tables behave as the client's map: in any sequence of opening
  and closing files (closing unknown descriptors included), as long as the numbers last, every
  number handed out was free, and at the end a descriptor is bound to a file exactly if the map
  says so. The first table hands out the lowest free number from 3 on; the other two count
  upwards and never hand a number out again.\<close>

theorem tables_refine_map:
  fixes vt vt' gt gt' :: "'f fd_vec" and mt mt' :: "'f fd_map"
  assumes "fdvec_ok (tab_adds ops) vt" "run_tab add_file (\<lambda>fd t. snd (remove_file fd t)) ops vt = (vds, vt')"
    and "fatvec_ok (tab_adds ops) gt" "run_tab fat_add_file (\<lambda>fd t. snd (fat_remove_file fd t)) ops gt = (gds, gt')"
    and "fdmap_ok (tab_adds ops) mt" "run_tab alloc_fd remove_fd ops mt = (mds, mt')"
  shows "spec_tab lowest_free ops vds (fdvec_lookup vt) = Some (fdvec_lookup vt') \<and>
    spec_tab above_open ops gds (fatvec_lookup gt) = Some (fatvec_lookup gt') \<and>
    map unat gds = [length gt..<length gt + tab_adds ops] \<and>
    spec_tab above_open ops mds (fdmap_lookup mt) = Some (fdmap_lookup mt') \<and>
    map unat mds = [unat (snd mt)..<unat (snd mt) + tab_adds ops]"
proof -
  have "unat (snd mt) + tab_adds ops < 2 ^ 32" using assms(5) by (simp add: fdmap_ok_def)
  then show ?thesis
    using fdvec.run_refines_map [OF assms(1,2)] fatvec.run_refines_map [OF assms(3,4)]
      fdmap.run_refines_map [OF assms(5,6)] fat_numbers [OF assms(3,4)] map_numbers [OF _ assms(6)] by blast
qed

text \<open>Open, open, close the first, open: the reusable table hands out 3 again.\<close>

theorem tables_refine_map_witness:
  "spec_tab lowest_free [AddFile ''a'', AddFile ''b'', RemoveFile 3, AddFile ''c''] [3, 4, 3] Map.empty =
     Some [3 \<mapsto> ''c'', 4 \<mapsto> ''b''] \<and>
   spec_tab above_open [AddFile ''a'', AddFile ''b'', RemoveFile 3, AddFile ''c''] [3, 4, 5] Map.empty =
     Some [4 \<mapsto> ''b'', 5 \<mapsto> ''c'']"
proof -
  let ?ops = "[AddFile ''a'', AddFile ''b'', RemoveFile 3, AddFile ''c'']"
  have v: "run_tab add_file (\<lambda>fd t. snd (remove_file fd t)) ?ops [] = ([3, 4, 3], [Some ''c'', Some ''b''])"
    by (simp add: add_file_def remove_file_def)
  have g: "run_tab fat_add_file (\<lambda>fd t. snd (fat_remove_file fd t)) ?ops [] =
      ([0, 1, 2], [Some ''a'', Some ''b'', Some ''c''])"
    by (simp add: fat_add_file_def fat_remove_file_def)
  have m: "run_tab alloc_fd remove_fd ?ops ([], 3) = ([3, 4, 5], ([(4, ''b''), (5, ''c'')], 6))"
    by (simp add: alloc_fd_def remove_fd_def)
  have empty: "fdvec_lookup ([] :: string fd_vec) = Map.empty" "fatvec_lookup ([] :: string fd_vec) = Map.empty"
    "fdmap_lookup (([], 3) :: string fd_map) = Map.empty"
    by (auto simp: fdvec_lookup_def fatvec_lookup_def fdmap_lookup_def btree_get_def fun_eq_iff)
  have after: "fdvec_lookup [Some ''c'', Some ''b''] = [3 \<mapsto> ''c'', 4 \<mapsto> ''b'']"
    by (rule ext) (auto simp: fdvec_lookup_def vec_get_def word_unat_eq_iff nth_Cons' split: if_splits)
  have after': "fdmap_lookup ([(4, ''b''), (5, ''c'')], 6) = [4 \<mapsto> ''b'', 5 \<mapsto> ''c'']"
    by (rule ext) (simp add: fdmap_lookup_def btree_get_def)
  have ok: "fdvec_ok (tab_adds ?ops) []" "fatvec_ok (tab_adds ?ops) []" "fdmap_ok (tab_adds ?ops) ([], 3)"
    by (simp_all add: fdvec_ok_def fatvec_ok_def fdmap_ok_def btree_ok_def btree_get_def)
  from tables_refine_map [OF ok(1) v ok(2) g ok(3) m, unfolded empty after after'] show ?thesis by blast
qed

end
