(* ===== verification/Fdtab.thy ===== *)
theory Fdtab
  imports Handle_Table Effects
begin

text \<open>
  The file descriptor service (\<open>common_service/fdtab/src/lib.rs\<close>, \<open>apis.rs\<close>): descriptors 0
  to 2 are the standard streams, every other one names a file of the FAT service or a socket.
  The services it calls through \<open>libos!\<close> are the fields of \<open>FdBackend\<close>, functions on their
  common state; a read returns the bytes put at the start of the caller's buffer.
\<close>

datatype DataSource = FatFS Fd | Net Fd

record File =
  file_mode :: OpenMode
  file_src :: DataSource

definition can_read :: "File \<Rightarrow> bool" where
  "can_read f = flags_contain (file_mode f) RD"

definition can_write :: "File \<Rightarrow> bool" where
  "can_write f = flags_contain (file_mode f) WR"

type_synonym SocketAddr = "nat list \<times> nat"

record 'w FdBackend =
  b_fatfs_read :: "Fd \<Rightarrow> nat \<Rightarrow> ('w, FatfsError, byte list) act"
  b_fatfs_write :: "Fd \<Rightarrow> byte list \<Rightarrow> ('w, FatfsError, nat) act"
  b_fatfs_seek :: "Fd \<Rightarrow> u32 \<Rightarrow> ('w, FatfsError, unit) act"
  b_fatfs_stat :: "Fd \<Rightarrow> ('w, FatfsError, Stat) act"
  b_fatfs_open :: "string \<Rightarrow> OpenFlags \<Rightarrow> ('w, FatfsError, Fd) act"
  b_fatfs_close :: "Fd \<Rightarrow> ('w, FatfsError, unit) act"
  b_recv :: "Fd \<Rightarrow> nat \<Rightarrow> ('w, SmoltcpError, byte list) act"
  b_send :: "Fd \<Rightarrow> byte list \<Rightarrow> ('w, SmoltcpError, unit) act"
  b_smol_connect :: "SocketAddr \<Rightarrow> ('w, SmoltcpError, Fd) act"
  b_smol_bind :: "SocketAddr \<Rightarrow> ('w, SmoltcpError, Fd) act"
  b_smol_accept :: "Fd \<Rightarrow> ('w, SmoltcpError, Fd) act"
  b_smol_close :: "Fd \<Rightarrow> ('w, SmoltcpError, unit) act"
  b_stdout :: "byte list \<Rightarrow> 'w \<Rightarrow> nat \<times> 'w"

record 'w FdState =
  FD_TABLE :: "File fd_vec"
  services :: 'w

type_synonym ('w, 'a) fd_act = "('w FdState, FdtabError, 'a) act"

text \<open>A call of another service: its error is wrapped by \<open>?\<close>.\<close>

definition call_fat :: "('w, FatfsError, 'a) act \<Rightarrow> ('w, 'a) fd_act" where
  "call_fat m = (\<lambda>s. case m (services s) of (r, w) \<Rightarrow> (map_err FatfsErr r, s\<lparr>services := w\<rparr>))"

definition call_sock :: "('w, SmoltcpError, 'a) act \<Rightarrow> ('w, 'a) fd_act" where
  "call_sock m = (\<lambda>s. case m (services s) of (r, w) \<Rightarrow> (map_err SocketErr r, s\<lparr>services := w\<rparr>))"

text \<open>\<open>FD_TABLE.with_file(fd, |file| { let file = file.ok_or(NoExistFd(fd))?; .. })\<close>.\<close>

definition with_open_file :: "Fd \<Rightarrow> (File \<Rightarrow> ('w, 'a) fd_act) \<Rightarrow> ('w, 'a) fd_act" where
  "with_open_file fd f = (\<lambda>s.
    case with_file fd (FD_TABLE s) of
      Ok (Some file) \<Rightarrow> f file s
    | Ok None \<Rightarrow> (Err (NoExistFd fd), s)
    | _ \<Rightarrow> (Panic, s))"

definition install_file :: "File \<Rightarrow> ('w, Fd) fd_act" where
  "install_file file = (\<lambda>s. case add_file file (FD_TABLE s) of (fd, t) \<Rightarrow> (Ok fd, s\<lparr>FD_TABLE := t\<rparr>))"

section \<open>Operations\<close>

definition fd_read :: "'w FdBackend \<Rightarrow> Fd \<Rightarrow> nat \<Rightarrow> ('w, byte list) fd_act" where
  "fd_read b fd buf_len =
    (if fd \<le> 2 then act_err (BadInputFd ''>2'' fd)
     else with_open_file fd (\<lambda>file.
       if \<not> can_read file then act_err (NoReadPerm fd)
       else case file_src file of
         FatFS raw_fd \<Rightarrow> call_fat (b_fatfs_read b raw_fd buf_len)
       | Net socket \<Rightarrow> call_sock (b_recv b socket buf_len)))"

definition fd_write :: "'w FdBackend \<Rightarrow> Fd \<Rightarrow> byte list \<Rightarrow> ('w, nat) fd_act" where
  "fd_write b fd buf =
    (if fd = 0 then act_err (BadInputFd ''>0'' fd)
     else if fd = 1 \<or> fd = 2 then
       (\<lambda>s. case b_stdout b buf (services s) of (n, w) \<Rightarrow> (Ok n, s\<lparr>services := w\<rparr>))
     else with_open_file fd (\<lambda>file.
       if \<not> can_write file then act_err (NoWritePerm fd)
       else case file_src file of
         FatFS raw_fd \<Rightarrow> call_fat (b_fatfs_write b raw_fd buf)
       | Net sockfd \<Rightarrow> act_bind (call_sock (b_send b sockfd buf)) (\<lambda>_. act_ret (length buf))))"

definition fd_lseek :: "'w FdBackend \<Rightarrow> Fd \<Rightarrow> u32 \<Rightarrow> ('w, unit) fd_act" where
  "fd_lseek b fd pos =
    (if fd \<le> 2 then act_err (BadInputFd ''>2'' fd)
     else with_open_file fd (\<lambda>file.
       case file_src file of
         FatFS raw_fd \<Rightarrow> call_fat (b_fatfs_seek b raw_fd pos)
       | Net _ \<Rightarrow> act_err (UndefinedOperation ''lseek'' fd ''Net'')))"

definition fd_stat :: "'w FdBackend \<Rightarrow> Fd \<Rightarrow> ('w, Stat) fd_act" where
  "fd_stat b fd =
    (if fd \<le> 2 then act_err (BadInputFd ''>2'' fd)
     else with_open_file fd (\<lambda>file.
       case file_src file of
         FatFS raw_fd \<Rightarrow> call_fat (b_fatfs_stat b raw_fd)
       | Net _ \<Rightarrow> act_err (UndefinedOperation ''stat'' fd ''Net'')))"

definition fd_open :: "'w FdBackend \<Rightarrow> string \<Rightarrow> OpenFlags \<Rightarrow> OpenMode \<Rightarrow> ('w, Fd) fd_act" where
  "fd_open b path flags mode =
    act_bind (call_fat (b_fatfs_open b path flags)) (\<lambda>raw_fd.
    install_file \<lparr>file_mode = mode, file_src = FatFS raw_fd\<rparr>)"

definition fd_close :: "'w FdBackend \<Rightarrow> Fd \<Rightarrow> ('w, unit) fd_act" where
  "fd_close b fd =
    (if fd \<le> 2 then act_err (BadInputFd ''>2'' fd)
     else (\<lambda>s.
       case remove_file fd (FD_TABLE s) of
         (Ok (Some file), t) \<Rightarrow>
           (case file_src file of
              FatFS raw_fd \<Rightarrow> call_fat (b_fatfs_close b raw_fd)
            | Net socket \<Rightarrow> call_sock (b_smol_close b socket)) (s\<lparr>FD_TABLE := t\<rparr>)
       | (Ok None, t) \<Rightarrow> (Err (NoExistFd fd), s\<lparr>FD_TABLE := t\<rparr>)
       | (_, t) \<Rightarrow> (Panic, s)))"

definition fd_connect :: "'w FdBackend \<Rightarrow> SocketAddr \<Rightarrow> ('w, Fd) fd_act" where
  "fd_connect b addr =
    act_bind (call_sock (b_smol_connect b addr)) (\<lambda>sockfd.
    install_file \<lparr>file_mode = RDWR, file_src = Net sockfd\<rparr>)"

definition fd_bind :: "'w FdBackend \<Rightarrow> SocketAddr \<Rightarrow> ('w, Fd) fd_act" where
  "fd_bind b addr =
    act_bind (call_sock (b_smol_bind b addr)) (\<lambda>listened_sockfd.
    install_file \<lparr>file_mode = RD, file_src = Net listened_sockfd\<rparr>)"

text \<open>\<open>accept\<close>: \<open>with_file_mut\<close> stores the handle \<open>smol_accept\<close> returns in the listening
  entry, and the handle it had becomes a new descriptor.\<close>

definition fd_accept :: "'w FdBackend \<Rightarrow> Fd \<Rightarrow> ('w, Fd) fd_act" where
  "fd_accept b fd =
    (if fd \<le> 2 then act_err (BadInputFd ''>2'' fd)
     else act_bind (with_open_file fd (\<lambda>file.
       case file_src file of
         Net sockfd \<Rightarrow>
           act_bind (call_sock (b_smol_accept b sockfd)) (\<lambda>next_sock.
           act_bind (act_modify (\<lambda>s. s\<lparr>FD_TABLE :=
             (FD_TABLE s)[unat fd - 3 := Some (file\<lparr>file_src := Net next_sock\<rparr>)]\<rparr>)) (\<lambda>_.
           act_ret sockfd))
       | FatFS _ \<Rightarrow> act_err (UndefinedOperation ''accept'' fd ''Net''))) (\<lambda>connected.
     install_file \<lparr>file_mode = RDWR, file_src = Net connected\<rparr>))"

section \<open>Lookup of open files\<close>

abbreviation fd_lookup :: "'w FdState \<Rightarrow> Fd \<Rightarrow> File option" where
  "fd_lookup s \<equiv> fdvec_lookup (FD_TABLE s)"

lemma not_reserved: "\<not> fd \<le> 2 \<longleftrightarrow> 3 \<le> unat (fd :: Fd)"
  by (simp add: word_le_nat_alt not_le) arith

lemma with_open_file_eq:
  "\<not> fd \<le> 2 \<Longrightarrow> with_open_file fd f s =
    (case fd_lookup s fd of Some file \<Rightarrow> f file s | None \<Rightarrow> (Err (NoExistFd fd), s))"
  by (simp add: with_open_file_def not_reserved with_file_lookup split: option.split)

lemma call_fat_table: "FD_TABLE (snd (call_fat m s)) = FD_TABLE s"
  by (simp add: call_fat_def split: prod.splits)

lemma call_sock_table: "FD_TABLE (snd (call_sock m s)) = FD_TABLE s"
  by (simp add: call_sock_def split: prod.splits)

lemma install_file_effect:
  assumes "fdvec_ok (Suc n) (FD_TABLE s)" "install_file file s = (r, s')"
  shows "\<exists>fd. r = Ok fd \<and> fd_lookup s fd = None \<and> fd_lookup s' = (fd_lookup s)(fd \<mapsto> file) \<and>
    services s' = services s \<and> fdvec_ok n (FD_TABLE s')"
proof -
  obtain fd t where add: "add_file file (FD_TABLE s) = (fd, t)" by (cases "add_file file (FD_TABLE s)")
  then have "r = Ok fd" "s' = s\<lparr>FD_TABLE := t\<rparr>" using assms(2) by (auto simp: install_file_def)
  with fdvec.add_fresh [OF assms(1) add] fdvec.lookup_add [OF assms(1) add] fdvec.ok_add [OF assms(1) add]
  show ?thesis by (auto simp: fun_eq_iff)
qed

section \<open>Calls of the service\<close>

datatype fd_call =
    FRead Fd nat | FWrite Fd "byte list" | FSeek Fd u32 | FStat Fd | FOpen string OpenFlags OpenMode
  | FClose Fd | FConnect SocketAddr | FBind SocketAddr | FAccept Fd

datatype fd_ret = RetBytes "byte list" | RetSize nat | RetUnit | RetStat Stat | RetFd Fd

definition act_map :: "('a \<Rightarrow> 'b) \<Rightarrow> ('s, 'e, 'a) act \<Rightarrow> ('s, 'e, 'b) act" where
  "act_map f m = (\<lambda>s. case m s of (r, s') \<Rightarrow> (map_ok f r, s'))"

definition fd_exec :: "'w FdBackend \<Rightarrow> fd_call \<Rightarrow> ('w, fd_ret) fd_act" where
  "fd_exec b call =
    (case call of
       FRead fd n \<Rightarrow> act_map RetBytes (fd_read b fd n)
     | FWrite fd buf \<Rightarrow> act_map RetSize (fd_write b fd buf)
     | FSeek fd pos \<Rightarrow> act_map (\<lambda>_. RetUnit) (fd_lseek b fd pos)
     | FStat fd \<Rightarrow> act_map RetStat (fd_stat b fd)
     | FOpen path flags mode \<Rightarrow> act_map RetFd (fd_open b path flags mode)
     | FClose fd \<Rightarrow> act_map (\<lambda>_. RetUnit) (fd_close b fd)
     | FConnect addr \<Rightarrow> act_map RetFd (fd_connect b addr)
     | FBind addr \<Rightarrow> act_map RetFd (fd_bind b addr)
     | FAccept fd \<Rightarrow> act_map RetFd (fd_accept b fd))"

text \<open>What a call promises its client about the descriptors, as a relation between the map
  of open files before and after.\<close>

definition opens_fd ::
  "OpenMode \<Rightarrow> (Fd \<Rightarrow> DataSource) \<Rightarrow> (FdtabError, fd_ret) res \<Rightarrow> (Fd \<rightharpoonup> File) \<Rightarrow> (Fd \<rightharpoonup> File) \<Rightarrow> bool" where
  "opens_fd mode source r m m' =
    (case r of
       Ok (RetFd fd) \<Rightarrow> \<not> fd \<le> 2 \<and> m fd = None \<and>
         (\<exists>h. m' = m(fd \<mapsto> \<lparr>file_mode = mode, file_src = source h\<rparr>))
     | Ok _ \<Rightarrow> False
     | _ \<Rightarrow> m' = m)"

fun fd_promise ::
  "fd_call \<Rightarrow> (FdtabError, fd_ret) res \<Rightarrow> (Fd \<rightharpoonup> File) \<Rightarrow> (Fd \<rightharpoonup> File) \<Rightarrow> bool" where
  "fd_promise (FOpen path flags mode) r m m' = opens_fd mode FatFS r m m'"
| "fd_promise (FConnect addr) r m m' = opens_fd RDWR Net r m m'"
| "fd_promise (FBind addr) r m m' = opens_fd RD Net r m m'"
| "fd_promise (FClose fd) r m m' = (m' = m(fd := None))"
| "fd_promise (FAccept l) r m m' =
    (case r of
       Ok (RetFd fd) \<Rightarrow> \<not> fd \<le> 2 \<and> m fd = None \<and>
         (\<exists>f old new. m l = Some f \<and> file_src f = Net old \<and>
            m' = m(l \<mapsto> f\<lparr>file_src := Net new\<rparr>, fd \<mapsto> \<lparr>file_mode = RDWR, file_src = Net old\<rparr>))
     | Ok _ \<Rightarrow> False
     | _ \<Rightarrow> m' = m)"
| "fd_promise call r m m' = (m' = m)"

lemma lookup_reserved: "fd \<le> 2 \<Longrightarrow> fdvec_lookup t fd = None"
  using not_reserved [of fd] by (auto simp: fdvec_lookup_def not_le)

lemma installed_not_reserved: "fdvec_lookup t fd = Some f \<Longrightarrow> \<not> fd \<le> 2"
  using lookup_reserved [of fd t] by auto

lemma fdvec_lookup_update:
  "fdvec_lookup t fd = Some f \<Longrightarrow>
    fdvec_lookup (t[unat fd - 3 := Some f']) = (fdvec_lookup t)(fd \<mapsto> f')"
  by (auto simp: fdvec_lookup_def vec_get_update fun_eq_iff word_unat_eq_iff vec_get_def split: if_splits)

lemma map_err_iff [simp]:
  "map_err f x = Ok a \<longleftrightarrow> x = Ok a" "Ok a = map_err f x \<longleftrightarrow> x = Ok a"
  "map_err f x = Panic \<longleftrightarrow> x = Panic" "Panic = map_err f x \<longleftrightarrow> x = Panic"
  by (cases x; auto)+

lemma call_apply [act_simps]:
  "call_fat m s = (r, s') \<longleftrightarrow>
    (\<exists>x w. m (services s) = (x, w) \<and> r = map_err FatfsErr x \<and> s' = s\<lparr>services := w\<rparr>)"
  "call_sock m' s = (r', s') \<longleftrightarrow>
    (\<exists>x w. m' (services s) = (x, w) \<and> r' = map_err SocketErr x \<and> s' = s\<lparr>services := w\<rparr>)"
  by (auto simp: call_fat_def call_sock_def split: prod.splits)

lemma act_map_apply [act_simps]:
  "act_map f m s = (r, s') \<longleftrightarrow> (\<exists>x. m s = (x, s') \<and> r = map_ok f x)"
  by (auto simp: act_map_def split: prod.splits)

lemma snd_act_map: "snd (act_map f m s) = snd (m s)"
  by (simp add: act_map_def split: prod.splits)

text \<open>Calls that do not touch the table.\<close>

lemma io_keeps_table:
  "FD_TABLE (snd (fd_read b fd n s)) = FD_TABLE s"
  "FD_TABLE (snd (fd_write b fd buf s)) = FD_TABLE s"
  "FD_TABLE (snd (fd_lseek b fd pos s)) = FD_TABLE s"
  "FD_TABLE (snd (fd_stat b fd s)) = FD_TABLE s"
  by (auto simp: fd_read_def fd_write_def fd_lseek_def fd_stat_def with_open_file_def act_err_def
      act_bind_def act_ret_def call_fat_def call_sock_def
      split: prod.splits res.splits option.splits DataSource.splits)

lemma open_promise:
  assumes "fdvec_ok (Suc n) (FD_TABLE s)"
    and "act_bind m (\<lambda>h. install_file \<lparr>file_mode = mode, file_src = source h\<rparr>) s = (r, s')"
    and "\<And>x s1. m s = (x, s1) \<Longrightarrow> FD_TABLE s1 = FD_TABLE s"
  shows "opens_fd mode source (map_ok RetFd r) (fd_lookup s) (fd_lookup s')"
proof -
  obtain x s1 where m: "m s = (x, s1)" by (cases "m s")
  note same = assms(3) [OF m]
  show ?thesis
  proof (cases x)
    case (Ok h)
    have inst: "install_file \<lparr>file_mode = mode, file_src = source h\<rparr> s1 = (r, s')"
      using assms(2) m Ok by (simp add: act_bind_def)
    obtain fd where "r = Ok fd" "fd_lookup s fd = None"
      "fd_lookup s' = (fd_lookup s)(fd \<mapsto> \<lparr>file_mode = mode, file_src = source h\<rparr>)"
      using install_file_effect [OF _ inst, of n] assms(1) same by auto
    then show ?thesis
      using installed_not_reserved [of "FD_TABLE s'" fd] by (auto simp: opens_fd_def)
  qed (use assms(2) m same in \<open>auto simp: act_bind_def opens_fd_def\<close>)
qed

lemma close_promise:
  assumes "fdvec_ok n (FD_TABLE s)" "fd_close b fd s = (r, s')"
  shows "fd_lookup s' = (fd_lookup s)(fd := None)"
proof (cases "fd \<le> 2")
  case True
  then have "s' = s" using assms(2) by (simp add: fd_close_def act_err_def)
  then show ?thesis using lookup_reserved [OF True] by (auto simp: fun_eq_iff)
next
  case False
  obtain x t where rm: "remove_file fd (FD_TABLE s) = (x, t)" by (cases "remove_file fd (FD_TABLE s)")
  have "x = Ok (fd_lookup s fd)" using remove_file_lookup [of fd "FD_TABLE s"] False rm by (simp add: not_reserved)
  then have "FD_TABLE s' = t"
    using assms(2) False rm
    by (auto simp: fd_close_def call_apply split: option.splits DataSource.splits)
  moreover have "fdvec_lookup t = (fd_lookup s)(fd := None)"
    using fdvec.lookup_rm [OF assms(1), of fd] rm by (auto simp: fun_eq_iff)
  ultimately show ?thesis by simp
qed

lemma accept_promise:
  assumes ok: "fdvec_ok (Suc n) (FD_TABLE s)" and acc: "fd_accept b l s = (r, s')"
  shows "fd_promise (FAccept l) (map_ok RetFd r) (fd_lookup s) (fd_lookup s')"
proof (cases "\<exists>f old next_sock w. \<not> l \<le> 2 \<and> fd_lookup s l = Some f \<and> file_src f = Net old \<and>
    b_smol_accept b old (services s) = (Ok next_sock, w)")
  case True
  then obtain f old next_sock w where l: "\<not> l \<le> 2" "fd_lookup s l = Some f" "file_src f = Net old"
    "b_smol_accept b old (services s) = (Ok next_sock, w)" by blast
  let ?s1 = "s\<lparr>services := w, FD_TABLE := (FD_TABLE s)[unat l - 3 := Some (f\<lparr>file_src := Net next_sock\<rparr>)]\<rparr>"
  have inst: "install_file \<lparr>file_mode = RDWR, file_src = Net old\<rparr> ?s1 = (r, s')"
    using acc l by (simp add: fd_accept_def act_bind_def with_open_file_eq call_sock_def act_modify_def act_ret_def)
  have lk: "fd_lookup ?s1 = (fd_lookup s)(l \<mapsto> f\<lparr>file_src := Net next_sock\<rparr>)"
    using fdvec_lookup_update [OF l(2)] by simp
  have "fdvec_ok (Suc n) (FD_TABLE ?s1)" using ok by (simp add: fdvec_ok_def)
  from install_file_effect [OF this inst] obtain fd where fd: "r = Ok fd" "fd_lookup ?s1 fd = None"
    "fd_lookup s' = (fd_lookup ?s1)(fd \<mapsto> \<lparr>file_mode = RDWR, file_src = Net old\<rparr>)" by blast
  have "fd \<noteq> l" "fd_lookup s fd = None" using fd(2) unfolding lk by (auto split: if_splits)
  moreover have "\<not> fd \<le> 2" using installed_not_reserved [of "FD_TABLE s'" fd] fd(3) by auto
  moreover note fd(1) fd(3) [unfolded lk]
  ultimately show ?thesis using l(2,3) by auto
next
  case False
  then have "FD_TABLE s' = FD_TABLE s \<and> (\<forall>fd. r \<noteq> Ok fd)"
    using acc by (cases "l \<le> 2")
      (auto simp: fd_accept_def act_simps with_open_file_eq split: option.splits DataSource.splits res.splits)
  then show ?thesis by (cases r) auto
qed

lemma fd_exec_promise:
  assumes "fdvec_ok (Suc n) (FD_TABLE s)" "fd_exec b call s = (r, s')"
  shows "fd_promise call r (fd_lookup s) (fd_lookup s')"
proof -
  have keep: "FD_TABLE s1 = FD_TABLE s" if "call_fat m s = (x, s1)" for m :: "('a, FatfsError, Fd) act" and x s1
    using that call_fat_table [of m s] by simp
  have keep': "FD_TABLE s1 = FD_TABLE s" if "call_sock m s = (x, s1)" for m :: "('a, SmoltcpError, Fd) act" and x s1
    using that call_sock_table [of m s] by simp
  have s': "s' = snd (fd_exec b call s)" using assms(2) by simp
  show ?thesis
  proof (cases call)
    case (FOpen path flags mode)
    then obtain x where x: "fd_open b path flags mode s = (x, s')" "r = map_ok RetFd x"
      using assms(2) by (auto simp: fd_exec_def act_map_apply)
    from open_promise [OF assms(1) x(1) [unfolded fd_open_def] keep] FOpen x(2) show ?thesis by simp
  next
    case (FConnect addr)
    then obtain x where x: "fd_connect b addr s = (x, s')" "r = map_ok RetFd x"
      using assms(2) by (auto simp: fd_exec_def act_map_apply)
    from open_promise [OF assms(1) x(1) [unfolded fd_connect_def] keep'] FConnect x(2)
    show ?thesis by simp
  next
    case (FBind addr)
    then obtain x where x: "fd_bind b addr s = (x, s')" "r = map_ok RetFd x"
      using assms(2) by (auto simp: fd_exec_def act_map_apply)
    from open_promise [OF assms(1) x(1) [unfolded fd_bind_def] keep'] FBind x(2)
    show ?thesis by simp
  next
    case (FClose fd)
    then obtain x where "fd_close b fd s = (x, s')"
      using assms(2) by (auto simp: fd_exec_def act_map_apply)
    from close_promise [OF assms(1) this] FClose show ?thesis by simp
  next
    case (FAccept l)
    then obtain x where "fd_accept b l s = (x, s')" "r = map_ok RetFd x"
      using assms(2) by (auto simp: fd_exec_def act_map_apply)
    with accept_promise [OF assms(1), of b l x s'] FAccept show ?thesis by simp
  qed (simp_all add: s' fd_exec_def snd_act_map io_keeps_table)
qed

text \<open>C5: every call of the descriptor service changes the client's view of the open files
  only as promised: a successful open, connect or bind adds one entry under a descriptor that
  was free and is not a standard stream; close removes the entry whatever the lower service
  answers; accept gives the listening descriptor its next socket and the connected one to a new
  descriptor; every other call, and every failed one, changes no entry.\<close>

theorem fd_calls_keep_promise:
  assumes "length (FD_TABLE s) + 4 \<le> 2 ^ 32" "fd_exec b call s = (r, s')"
  shows "fd_promise call r (fd_lookup s) (fd_lookup s')"
  using assms(1) by (intro fd_exec_promise [of 0, OF _ assms(2)]) (simp add: fdvec_ok_def)

section \<open>Guards\<close>

fun call_of :: "fd_call \<Rightarrow> Fd option" where
  "call_of (FRead fd n) = Some fd"
| "call_of (FWrite fd buf) = Some fd"
| "call_of (FSeek fd pos) = Some fd"
| "call_of (FStat fd) = Some fd"
| "call_of (FClose fd) = Some fd"
| "call_of (FAccept fd) = Some fd"
| "call_of (FOpen path flags mode) = None"
| "call_of (FConnect addr) = None"
| "call_of (FBind addr) = None"

lemmas fd_op_defs = fd_read_def fd_write_def fd_lseek_def fd_stat_def fd_close_def fd_accept_def

text \<open>A call the mode or the kind of the file forbids, with the error it must get.\<close>

definition refused :: "fd_call \<Rightarrow> File \<Rightarrow> FdtabError option" where
  "refused call file =
    (case (call, file_src file) of
       (FRead fd n, _) \<Rightarrow> if can_read file then None else Some (NoReadPerm fd)
     | (FWrite fd buf, _) \<Rightarrow> if can_write file then None else Some (NoWritePerm fd)
     | (FSeek fd pos, Net _) \<Rightarrow> Some (UndefinedOperation ''lseek'' fd ''Net'')
     | (FStat fd, Net _) \<Rightarrow> Some (UndefinedOperation ''stat'' fd ''Net'')
     | (FAccept fd, FatFS _) \<Rightarrow> Some (UndefinedOperation ''accept'' fd ''Net'')
     | _ \<Rightarrow> None)"

lemma refused_call:
  assumes "call_of call = Some fd" "fd_lookup s fd = Some file" "refused call file = Some e"
  shows "fd_exec b call s = (Err e, s)"
proof -
  have fd: "\<not> fd \<le> 2" using installed_not_reserved [OF assms(2)] .
  then have streams: "fd \<noteq> 0" "fd \<noteq> 1" "fd \<noteq> 2" by auto
  note run = fd_exec_def act_map_def with_open_file_eq [OF fd] assms(2) act_err_def fd streams
  show ?thesis
  proof (cases call)
    case (FRead fd' n)
    then show ?thesis using assms(1,3) by (simp add: run fd_read_def refused_def split: if_splits)
  next
    case (FWrite fd' buf)
    then show ?thesis using assms(1,3) by (simp add: run fd_write_def refused_def split: if_splits)
  next
    case (FSeek fd' pos)
    then show ?thesis using assms(1,3)
      by (simp add: run fd_lseek_def refused_def split: DataSource.splits)
  next
    case (FStat fd')
    then show ?thesis using assms(1,3)
      by (simp add: run fd_stat_def refused_def split: DataSource.splits)
  next
    case (FAccept fd')
    then show ?thesis using assms(1,3)
      by (simp add: run fd_accept_def act_bind_def refused_def split: DataSource.splits)
  qed (use assms(3) in \<open>simp_all add: refused_def\<close>)
qed

lemma absent_call:
  assumes "call_of call = Some fd" "\<not> fd \<le> 2" "fd_lookup s fd = None"
  shows "fd_exec b call s = (Err (NoExistFd fd), s)"
proof -
  have streams: "fd \<noteq> 0" "fd \<noteq> 1" "fd \<noteq> 2" using assms(2) by auto
  have remove: "remove_file fd (FD_TABLE s) = (Ok None, FD_TABLE s)"
    using assms(2,3) unfolding not_reserved
    by (auto simp: remove_file_def fdvec_lookup_def vec_get_def list_update_same_conv)
  note run = fd_exec_def act_map_def with_open_file_eq [OF assms(2)] assms(2,3) streams
  from assms(1) show ?thesis
    by (cases call)
       (simp_all add: run fd_read_def fd_write_def fd_lseek_def fd_stat_def fd_close_def remove
         fd_accept_def act_bind_def)
qed

text \<open>a call on a descriptor that is not open, or that the file's mode or kind does not
  allow, gets the error the service documents for it, reaches no file or socket and changes
  nothing.\<close>

theorem fd_refusals:
  assumes "call_of call = Some fd" "\<not> fd \<le> 2"
    and "e = (case fd_lookup s fd of None \<Rightarrow> Some (NoExistFd fd) | Some file \<Rightarrow> refused call file)"
    and "e = Some err"
  shows "fd_exec b call s = (Err err, s)"
  using assms absent_call [OF assms(1,2), of s b] refused_call [OF assms(1), of s _ err b]
  by (cases "fd_lookup s fd") auto

section \<open>No panics\<close>

text \<open>None of the services called through \<open>libos!\<close> panics.\<close>

definition services_return :: "'w FdBackend \<Rightarrow> bool" where
  "services_return b =
    ((\<forall>h n. returns (b_fatfs_read b h n)) \<and> (\<forall>h bs. returns (b_fatfs_write b h bs)) \<and>
     (\<forall>h pos. returns (b_fatfs_seek b h pos)) \<and> (\<forall>h. returns (b_fatfs_stat b h)) \<and>
     (\<forall>p fl. returns (b_fatfs_open b p fl)) \<and> (\<forall>h. returns (b_fatfs_close b h)) \<and>
     (\<forall>h n. returns (b_recv b h n)) \<and> (\<forall>h bs. returns (b_send b h bs)) \<and>
     (\<forall>a. returns (b_smol_connect b a)) \<and> (\<forall>a. returns (b_smol_bind b a)) \<and>
     (\<forall>h. returns (b_smol_accept b h)) \<and> (\<forall>h. returns (b_smol_close b h)))"

lemma returns_act_map [returns_rules]: "returns m \<Longrightarrow> returns (act_map f m)"
  unfolding returns_def
proof
  fix s
  assume "\<forall>s. fst (m s) \<noteq> Panic"
  then have "fst (m s) \<noteq> Panic" by blast
  then show "fst (act_map f m s) \<noteq> Panic"
    by (cases "fst (m s)") (auto simp: act_map_def split: prod.splits)
qed

lemma returns_calls [returns_rules]:
  "returns m \<Longrightarrow> returns (call_fat m)" "returns m' \<Longrightarrow> returns (call_sock m')"
  unfolding returns_def call_fat_def call_sock_def by (auto split: prod.splits) (metis fst_conv)+

lemma returns_install [returns_rules]: "returns (install_file file)"
  by (simp add: returns_def install_file_def split: prod.splits)

lemma returns_open_file [returns_rules]:
  "\<not> fd \<le> 2 \<Longrightarrow> (\<And>file. returns (f file)) \<Longrightarrow> returns (with_open_file fd f)"
  by (simp add: returns_def with_open_file_eq split: option.split)

lemma returns_source [returns_rules]:
  "(\<And>h. returns (f h)) \<Longrightarrow> (\<And>h. returns (g h)) \<Longrightarrow>
    returns (case src of FatFS h \<Rightarrow> f h | Net h \<Rightarrow> g h)"
  by (cases src) simp_all

lemma returns_stdout [returns_rules]:
  "returns (\<lambda>s. case b_stdout b buf (services s) of (n, w) \<Rightarrow> (Ok n, s\<lparr>services := w\<rparr>))"
  by (simp add: returns_def split: prod.splits)

lemma returns_close:
  assumes "services_return b"
  shows "returns (fd_close b fd)"
  unfolding returns_def
proof
  fix s
  show "fst (fd_close b fd s) \<noteq> Panic"
  proof (cases "fd \<le> 2")
    case False
    then have "fst (remove_file fd (FD_TABLE s)) = Ok (fd_lookup s fd)"
      by (intro remove_file_lookup) (simp add: not_reserved)
    then obtain t where rm: "remove_file fd (FD_TABLE s) = (Ok (fd_lookup s fd), t)"
      by (cases "remove_file fd (FD_TABLE s)") simp
    have "returns (call_fat (b_fatfs_close b h))" "returns (call_sock (b_smol_close b h))" for h
      using assms by (auto simp: services_return_def intro: returns_rules)
    then show ?thesis
      using False unfolding returns_def
      by (simp add: fd_close_def rm split: option.split DataSource.split)
  qed (simp add: fd_close_def act_err_def)
qed

lemma streams: "\<not> fd \<le> 2" if "fd \<noteq> 0" "\<not> (fd = 1 \<or> fd = 2)" for fd :: Fd
proof -
  have "unat fd \<noteq> 0" "unat fd \<noteq> 1" "unat fd \<noteq> 2" using that by (auto simp: word_unat_eq_iff)
  then show ?thesis unfolding not_reserved by linarith
qed

lemmas fd_call_defs = fd_read_def fd_write_def fd_lseek_def fd_stat_def fd_open_def fd_connect_def
  fd_bind_def fd_accept_def

lemma returns_exec:
  assumes "services_return b"
  shows "returns (fd_exec b call)"
  using assms
  by (cases call)
     (auto simp: fd_exec_def fd_call_defs services_return_def streams
       intro!: returns_rules returns_close [OF assms])

text \<open>the descriptor service itself never panics: if the services it calls return, so does
  every call, for every descriptor number and every state of the table.\<close>

theorem fd_never_panics:
  assumes "services_return b"
  shows "fst (fd_exec b call s) \<noteq> Panic"
  using returns_exec [OF assms, of call] by (simp add: returns_def)

section \<open>Concrete services\<close>

text \<open>Services that hand out the handles 0, 1, 2, .. and log what they are asked to write; the
  concrete runs below use them.\<close>

definition log_fresh :: "(nat \<times> byte list, 'e, Fd) act" where
  "log_fresh w = (Ok (word_of_nat (fst w)), Suc (fst w), snd w)"

definition log_put :: "byte list \<Rightarrow> nat \<times> byte list \<Rightarrow> nat \<times> byte list" where
  "log_put bs w = (fst w, snd w @ bs)"

definition log_backend :: "(nat \<times> byte list) FdBackend" where
  "log_backend =
     \<lparr>b_fatfs_read = (\<lambda>h n w. (Ok (take n (snd w)), w)),
      b_fatfs_write = (\<lambda>h bs w. (Ok (length bs), log_put bs w)),
      b_fatfs_seek = (\<lambda>h pos w. (Ok (), w)),
      b_fatfs_stat = (\<lambda>h w. (Err FatUnknown, w)),
      b_fatfs_open = (\<lambda>p fl. log_fresh),
      b_fatfs_close = (\<lambda>h w. (Err (FatBadInputFd h), w)),
      b_recv = (\<lambda>h n w. (Ok [], w)),
      b_send = (\<lambda>h bs w. (Ok (), log_put bs w)),
      b_smol_connect = (\<lambda>a. log_fresh),
      b_smol_bind = (\<lambda>a. log_fresh),
      b_smol_accept = (\<lambda>h. log_fresh),
      b_smol_close = (\<lambda>h w. (Ok (), w)),
      b_stdout = (\<lambda>bs w. (length bs, log_put bs w))\<rparr>"

definition log_state :: "(nat \<times> byte list) FdState" where
  "log_state = \<lparr>FD_TABLE = [Some \<lparr>file_mode = RD, file_src = Net 7\<rparr>, None], services = (8, [])\<rparr>"

text \<open>Accepting on descriptor 3: it keeps listening, on handle 8, and descriptor 4 gets the
  connected handle 7.\<close>

theorem fd_calls_keep_promise_witness:
  "fd_exec log_backend (FAccept 3) log_state =
      (Ok (RetFd 4), log_state\<lparr>FD_TABLE := [Some \<lparr>file_mode = RD, file_src = Net 8\<rparr>,
        Some \<lparr>file_mode = RDWR, file_src = Net 7\<rparr>], services := (9, [])\<rparr>) \<and>
    fd_promise (FAccept 3) (Ok (RetFd 4)) (fd_lookup log_state)
      (fd_lookup (log_state\<lparr>FD_TABLE := [Some \<lparr>file_mode = RD, file_src = Net 8\<rparr>,
        Some \<lparr>file_mode = RDWR, file_src = Net 7\<rparr>], services := (9, [])\<rparr>))"
proof -
  have run: "fd_exec log_backend (FAccept 3) log_state =
      (Ok (RetFd 4), log_state\<lparr>FD_TABLE := [Some \<lparr>file_mode = RD, file_src = Net 8\<rparr>,
        Some \<lparr>file_mode = RDWR, file_src = Net 7\<rparr>], services := (9, [])\<rparr>)"
    by (simp add: fd_exec_def act_map_def fd_accept_def act_bind_def with_open_file_def with_file_def
        log_state_def log_backend_def log_fresh_def call_sock_def act_modify_def act_ret_def install_file_def
        add_file_def)
  show ?thesis using run fd_calls_keep_promise [OF _ run] by (simp add: log_state_def)
qed

theorem fd_refusals_witness:
  "fd_exec log_backend (FWrite 3 [1]) log_state = (Err (NoWritePerm 3), log_state)"
  by (rule fd_refusals [of _ 3 "Some (NoWritePerm 3)"])
     (simp_all add: log_state_def fdvec_lookup_def refused_def can_write_def open_mode_defs)

theorem fd_never_panics_witness:
  "services_return log_backend \<and> fst (fd_exec log_backend (FClose 4) log_state) \<noteq> Panic"
proof -
  have "services_return log_backend" by (simp add: services_return_def log_backend_def log_fresh_def returns_def)
  then show ?thesis using fd_never_panics [of log_backend "FClose 4" log_state] by simp
qed

end
