(* ===== verification/Fatfs.thy ===== *)
theory Fatfs
  imports Handle_Table Effects
begin

text \<open>
  The FAT file service (\<open>common_service/fatfs/src/lib.rs\<close>, \<open>apis.rs\<close>). The \<open>fatfs\<close> crate is a
  parameter: \<open>'w\<close> is the mounted file system and \<open>'f\<close> an open file of it (its cursor and
  directory entry). The table owns the boxed files, so it holds them directly. A panic while
  the table's lock is held poisons the lock, and every later call reports that.
\<close>

record ('w, 'f) FatCrate =
  c_mount :: "string \<Rightarrow> 'w \<Rightarrow> 'w option"
  c_create_file :: "string \<Rightarrow> 'w \<Rightarrow> (string, 'f) res \<times> 'w"
  c_open_file :: "string \<Rightarrow> 'w \<Rightarrow> (string, 'f) res \<times> 'w"
  c_read :: "nat \<Rightarrow> 'f \<times> 'w \<Rightarrow> (string, byte list) res \<times> 'f \<times> 'w"
  c_write_all :: "byte list \<Rightarrow> 'f \<times> 'w \<Rightarrow> (string, unit) res \<times> 'f \<times> 'w"
  c_flush :: "'f \<times> 'w \<Rightarrow> (string, unit) res \<times> 'f \<times> 'w"
  c_seek :: "u64 \<Rightarrow> 'f \<times> 'w \<Rightarrow> (string, unit) res \<times> 'f \<times> 'w"
  c_stream_len :: "'f \<times> 'w \<Rightarrow> (string, u64) res \<times> 'f \<times> 'w"
  c_drop :: "'f \<Rightarrow> 'w \<Rightarrow> 'w"

record ('w, 'f) FatState =
  FTABLE :: "'f fd_vec"
  poisoned :: bool
  FS_REF_ADDR :: bool
  fs :: 'w

type_synonym ('w, 'f, 'a) fat_act = "(('w, 'f) FatState, FatfsError, 'a) act"

section \<open>The image\<close>

definition path_join :: "string \<Rightarrow> string \<Rightarrow> string" where
  "path_join base p =
    (if p \<noteq> [] \<and> hd p = CHR ''/'' then p
     else if base = [] \<or> last base = CHR ''/'' then base @ p
     else base @ ''/'' @ p)"

definition get_fs_image_path :: "string \<Rightarrow> string option \<Rightarrow> string" where
  "get_fs_image_path repo fs_image =
    path_join repo (case fs_image of Some s \<Rightarrow> s | None \<Rightarrow> ''fs_images/fatfs.img'')"

text \<open>\<open>OnceLock::get_or_init\<close>: mounted once; a mount that panics leaves it unset.\<close>

definition get_fs_ref :: "('w, 'f) FatCrate \<Rightarrow> string \<Rightarrow> ('w, 'f, unit) fat_act" where
  "get_fs_ref c image_path = (\<lambda>s.
    if FS_REF_ADDR s then (Ok (), s)
    else case c_mount c image_path (fs s) of
      None \<Rightarrow> (Panic, s)
    | Some w \<Rightarrow> (Ok (), s\<lparr>FS_REF_ADDR := True, fs := w\<rparr>))"

section \<open>Operations\<close>

definition lock_table :: "('w, 'f, 'a) fat_act \<Rightarrow> ('w, 'f, 'a) fat_act" where
  "lock_table m = (\<lambda>s.
    if poisoned s then (Err (AcquireLockErr ''poisoned lock: another task failed inside''), s)
    else case m s of
      (Panic, s') \<Rightarrow> (Panic, s'\<lparr>poisoned := True\<rparr>)
    | (r, s') \<Rightarrow> (r, s'))"

text \<open>\<open>table.get_file_mut(fd).ok_or(BadInputFd(fd))?\<close>, then an operation on the file.\<close>

definition on_file ::
  "Fd \<Rightarrow> ('f \<times> 'w \<Rightarrow> (FatfsError, 'a) res \<times> 'f \<times> 'w) \<Rightarrow> ('w, 'f, 'a) fat_act" where
  "on_file fd g = (\<lambda>s.
    case fatvec_lookup (FTABLE s) fd of
      None \<Rightarrow> (Err (FatBadInputFd fd), s)
    | Some f \<Rightarrow>
        (case g (f, fs s) of (r, f', w') \<Rightarrow>
           (r, s\<lparr>FTABLE := (FTABLE s)[unat fd := Some f'], fs := w'\<rparr>)))"

text \<open>The loop of \<open>fatfs_read\<close>: it returns the bytes put in the buffer. \<open>&mut buf[size..]\<close>
  panics for a size beyond the buffer.\<close>

function read_loop ::
  "('w, 'f) FatCrate \<Rightarrow> nat \<Rightarrow> 'f \<times> 'w \<Rightarrow> (FatfsError, byte list) res \<times> 'f \<times> 'w" where
  "read_loop c n fw =
    (if n = 0 then (Ok [], fw)
     else case c_read c n fw of
       (Err e, fw') \<Rightarrow> (Err (HostIOErr e), fw')
     | (Panic, fw') \<Rightarrow> (Panic, fw')
     | (Ok bs, fw') \<Rightarrow>
         if bs = [] then (Ok [], fw')
         else if n < length bs then (Panic, fw')
         else case read_loop c (n - length bs) fw' of (r, fw'') \<Rightarrow> (map_ok ((@) bs) r, fw''))"
  by pat_completeness auto
termination by (relation "measure (\<lambda>(c, n, fw). n)") auto

declare read_loop.simps [simp del]

definition fatfs_read :: "('w, 'f) FatCrate \<Rightarrow> Fd \<Rightarrow> nat \<Rightarrow> ('w, 'f, byte list) fat_act" where
  "fatfs_read c fd buf_len = lock_table (on_file fd (read_loop c buf_len))"

definition fatfs_seek :: "('w, 'f) FatCrate \<Rightarrow> Fd \<Rightarrow> u32 \<Rightarrow> ('w, 'f, unit) fat_act" where
  "fatfs_seek c fd pos =
    lock_table (on_file fd (\<lambda>fw. case c_seek c (ucast pos) fw of (r, fw') \<Rightarrow> (map_err HostIOErr r, fw')))"

definition stat_of_size :: "u64 \<Rightarrow> Stat" where
  "stat_of_size n =
    \<lparr>st_dev = 0, st_ino = 0, st_nlink = 0, st_mode = 0, st_uid = 0, st_gid = 0, pad0 = 0,
     st_rdev = 0, st_size = n, st_blksize = 0, st_blocks = 0,
     st_atime = \<lparr>tv_sec = 0, tv_nsec = 0\<rparr>, st_mtime = \<lparr>tv_sec = 0, tv_nsec = 0\<rparr>,
     st_ctime = \<lparr>tv_sec = 0, tv_nsec = 0\<rparr>, st_unused = [0, 0, 0]\<rparr>"

definition fatfs_stat :: "('w, 'f) FatCrate \<Rightarrow> Fd \<Rightarrow> ('w, 'f, Stat) fat_act" where
  "fatfs_stat c fd =
    lock_table (on_file fd (\<lambda>fw. case c_stream_len c fw of (r, fw') \<Rightarrow>
      (map_ok stat_of_size (map_err HostIOErr r), fw')))"

definition fatfs_open ::
  "('w, 'f) FatCrate \<Rightarrow> string \<Rightarrow> string \<Rightarrow> OpenFlags \<Rightarrow> ('w, 'f, Fd) fat_act" where
  "fatfs_open c image_path p flags =
    lock_table (act_bind (get_fs_ref c image_path) (\<lambda>_ s.
      case (if flags_contain flags O_CREAT then c_create_file c p else c_open_file c p) (fs s) of
        (Ok f, w) \<Rightarrow>
          (case fat_add_file f (FTABLE s) of (fd, t) \<Rightarrow> (Ok fd, s\<lparr>FTABLE := t, fs := w\<rparr>))
      | (Err e, w) \<Rightarrow> (Err FatUnknown, s\<lparr>fs := w\<rparr>)
      | (Panic, w) \<Rightarrow> (Panic, s\<lparr>fs := w\<rparr>)))"

definition write_and_flush ::
  "('w, 'f) FatCrate \<Rightarrow> byte list \<Rightarrow> 'f \<times> 'w \<Rightarrow> (string, unit) res \<times> 'f \<times> 'w" where
  "write_and_flush c buf = act_bind (c_write_all c buf) (\<lambda>_. c_flush c)"

text \<open>The result of \<open>write_all\<close> and \<open>flush\<close> is bound to \<open>_\<close>: only a panic gets through.\<close>

definition fatfs_write :: "('w, 'f) FatCrate \<Rightarrow> Fd \<Rightarrow> byte list \<Rightarrow> ('w, 'f, nat) fat_act" where
  "fatfs_write c fd buf =
    lock_table (on_file fd (\<lambda>fw. case write_and_flush c buf fw of
      (Panic, fw') \<Rightarrow> (Panic, fw')
    | (_, fw') \<Rightarrow> (Ok (length buf), fw')))"

definition fatfs_close :: "('w, 'f) FatCrate \<Rightarrow> Fd \<Rightarrow> ('w, 'f, unit) fat_act" where
  "fatfs_close c fd =
    lock_table (\<lambda>s. case fat_remove_file fd (FTABLE s) of (r, t) \<Rightarrow>
      (r, s\<lparr>FTABLE := t,
            fs := (case fatvec_lookup (FTABLE s) fd of Some f \<Rightarrow> c_drop c f (fs s) | None \<Rightarrow> fs s)\<rparr>))"

section \<open>Lookup of open files\<close>

abbreviation fat_lookup :: "('w, 'f) FatState \<Rightarrow> Fd \<Rightarrow> 'f option" where
  "fat_lookup s \<equiv> fatvec_lookup (FTABLE s)"

lemma lock_table_free:
  "\<not> poisoned s \<Longrightarrow> m s = (r, s') \<Longrightarrow> r \<noteq> Panic \<Longrightarrow> lock_table m s = (r, s')"
  by (cases r) (auto simp: lock_table_def)

lemma fatvec_lookup_update:
  "fatvec_lookup t fd = Some f \<Longrightarrow> fatvec_lookup (t[unat fd := Some f']) = (fatvec_lookup t)(fd \<mapsto> f')"
  by (auto simp: fatvec_lookup_def vec_get_update fun_eq_iff word_unat_eq_iff vec_get_def split: if_splits)

lemma fatvec_lookup_bound: "fatvec_lookup t fd = Some f \<Longrightarrow> unat fd < length t"
  by (auto simp: fatvec_lookup_def vec_get_def split: if_splits)

section \<open>Reading\<close>

text \<open>What the read of a file is documented to do: with \<open>rest\<close> the bytes from the cursor to
  the end, it returns a prefix of them no longer than the buffer, empty only for an empty
  buffer or at the end, and moves the cursor behind it.\<close>

definition reads_rest :: "('w, 'f) FatCrate \<Rightarrow> ('f \<times> 'w \<Rightarrow> byte list) \<Rightarrow> bool" where
  "reads_rest c rest = (\<forall>n fw. \<exists>bs fw'. c_read c n fw = (Ok bs, fw') \<and> length bs \<le> n \<and>
     rest fw = bs @ rest fw' \<and> (bs = [] \<longrightarrow> n = 0 \<or> rest fw = []))"

lemma read_loop_takes:
  assumes "reads_rest c rest"
  shows "\<exists>fw'. read_loop c n fw = (Ok (take n (rest fw)), fw') \<and> rest fw' = drop n (rest fw)"
proof (induction n arbitrary: fw rule: less_induct)
  case (less n)
  show ?case
  proof (cases "n = 0")
    case False
    obtain bs fw1 where r: "c_read c n fw = (Ok bs, fw1)" "length bs \<le> n" "rest fw = bs @ rest fw1"
      "bs = [] \<longrightarrow> rest fw = []"
      using assms False unfolding reads_rest_def by blast
    show ?thesis
    proof (cases "bs = []")
      case True
      then show ?thesis using False r by (auto simp: read_loop.simps [of c n])
    next
      case nonempty: False
      then have "n - length bs < n" using False by (cases bs) auto
      from less.IH [OF this, of fw1] obtain fw2 where
        "read_loop c (n - length bs) fw1 = (Ok (take (n - length bs) (rest fw1)), fw2)"
        "rest fw2 = drop (n - length bs) (rest fw1)" by blast
      then show ?thesis using False nonempty r by (simp add: read_loop.simps [of c n])
    qed
  qed (simp add: read_loop.simps)
qed

text \<open>A file system holding one file, in memory, whose reads return at most two bytes: it
  shows that the stated behaviour can be had.\<close>

definition mem_read :: "nat \<Rightarrow> nat \<times> byte list \<Rightarrow> (string, byte list) res \<times> nat \<times> byte list" where
  "mem_read n fw = (case fw of (pos, w) \<Rightarrow>
    let bs = take (min n 2) (drop pos w) in (Ok bs, pos + length bs, w))"

definition mem_crate :: "(byte list, nat) FatCrate" where
  "mem_crate =
    \<lparr>c_mount = (\<lambda>p w. if p = [] then None else Some w),
     c_create_file = (\<lambda>p w. (Ok 0, w)),
     c_open_file = (\<lambda>p w. (Ok 0, w)),
     c_read = mem_read,
     c_write_all = (\<lambda>bs fw. (Err ''full'', fw)),
     c_flush = (\<lambda>fw. (Ok (), fw)),
     c_seek = (\<lambda>p fw. (Ok (), unat p, snd fw)),
     c_stream_len = (\<lambda>fw. (Ok (word_of_nat (length (snd fw))), fw)),
     c_drop = (\<lambda>f w. w)\<rparr>"

definition mem_rest :: "nat \<times> byte list \<Rightarrow> byte list" where
  "mem_rest fw = drop (fst fw) (snd fw)"

definition mem_state :: "(byte list, nat) FatState" where
  "mem_state = \<lparr>FTABLE = [Some 1], poisoned = False, FS_REF_ADDR = True, fs = [10, 11, 12, 13, 14]\<rparr>"

lemma mem_reads_rest: "reads_rest mem_crate mem_rest"
proof -
  have split: "drop pos w = take k (drop pos w) @ drop (pos + length (take k (drop pos w))) w"
    for k pos and w :: "byte list"
  proof -
    have "drop (length (take k ys)) ys = drop k ys" for ys :: "byte list"
      by (cases "k \<le> length ys") simp_all
    from this [of "drop pos w"] show ?thesis by (simp add: add.commute [of pos] flip: drop_drop)
  qed
  show ?thesis
    unfolding reads_rest_def
  proof (intro allI)
    fix n and fw :: "nat \<times> byte list"
    obtain pos w where fw: "fw = (pos, w)" by (cases fw)
    let ?bs = "take (min n 2) (drop pos w)"
    have "c_read mem_crate n fw = (Ok ?bs, pos + length ?bs, w)"
      by (simp add: mem_crate_def mem_read_def fw Let_def)
    moreover have "mem_rest fw = ?bs @ mem_rest (pos + length ?bs, w)"
      using split [of pos w "min n 2"] by (simp add: mem_rest_def fw)
    ultimately show "\<exists>bs fw'. c_read mem_crate n fw = (Ok bs, fw') \<and> length bs \<le> n \<and>
        mem_rest fw = bs @ mem_rest fw' \<and> (bs = [] \<longrightarrow> n = 0 \<or> mem_rest fw = [])"
      by (intro exI [of _ ?bs] exI [of _ "(pos + length ?bs, w)"]) (auto simp: fw mem_rest_def)
  qed
qed

lemma fatfs_read_takes:
  assumes "reads_rest c rest" "\<not> poisoned s" "fat_lookup s fd = Some f"
  shows "\<exists>f' w'. fatfs_read c fd n s =
      (Ok (take n (rest (f, fs s))), s\<lparr>FTABLE := (FTABLE s)[unat fd := Some f'], fs := w'\<rparr>) \<and>
    rest (f', w') = drop n (rest (f, fs s))"
proof -
  obtain f' w' where "read_loop c n (f, fs s) = (Ok (take n (rest (f, fs s))), f', w')"
    "rest (f', w') = drop n (rest (f, fs s))"
    using read_loop_takes [OF assms(1), of n "(f, fs s)"] by (metis prod.collapse)
  then show ?thesis using assms(2,3)
    by (intro exI [of _ f'] exI [of _ w']) (simp add: fatfs_read_def lock_table_def on_file_def)
qed

text \<open>C34: reading a file of the FAT service fills the caller's buffer however short the single
  reads of the file system are: the result is the next \<open>n\<close> bytes of the file, or all that are
  left, and the file's cursor stands behind them.\<close>

theorem fatfs_read_fills:
  assumes "reads_rest c rest" "\<not> poisoned s" "fat_lookup s fd = Some f"
  shows "\<exists>f' w'. fatfs_read c fd n s =
      (Ok (take n (rest (f, fs s))), s\<lparr>FTABLE := (FTABLE s)[unat fd := Some f'], fs := w'\<rparr>) \<and>
    rest (f', w') = drop n (rest (f, fs s))"
  by (rule fatfs_read_takes [OF assms])

theorem fatfs_read_fills_witness:
  "\<exists>f' w'. fatfs_read mem_crate 0 3 mem_state =
      (Ok [11, 12, 13], mem_state\<lparr>FTABLE := [Some f'], fs := w'\<rparr>) \<and> mem_rest (f', w') = [14]"
proof -
  have "fat_lookup mem_state 0 = Some 1" "\<not> poisoned mem_state"
    by (simp_all add: mem_state_def fatvec_lookup_def)
  from fatfs_read_fills [OF mem_reads_rest this(2,1), of 3] show ?thesis
    by (simp add: mem_state_def mem_rest_def numeral_3_eq_3)
qed

section \<open>Errors\<close>

datatype fat_call =
    CRead Fd nat | CSeek Fd u32 | CStat Fd | COpen string OpenFlags | CWrite Fd "byte list" | CClose Fd

definition fat_exec ::
  "('w, 'f) FatCrate \<Rightarrow> string \<Rightarrow> fat_call \<Rightarrow> ('w, 'f, unit) fat_act" where
  "fat_exec c img call =
    (case call of
       CRead fd n \<Rightarrow> act_bind (fatfs_read c fd n) (\<lambda>_. act_ret ())
     | CSeek fd pos \<Rightarrow> fatfs_seek c fd pos
     | CStat fd \<Rightarrow> act_bind (fatfs_stat c fd) (\<lambda>_. act_ret ())
     | COpen p flags \<Rightarrow> act_bind (fatfs_open c img p flags) (\<lambda>_. act_ret ())
     | CWrite fd buf \<Rightarrow> act_bind (fatfs_write c fd buf) (\<lambda>_. act_ret ())
     | CClose fd \<Rightarrow> fatfs_close c fd)"

lemmas fat_op_defs = fatfs_read_def fatfs_seek_def fatfs_stat_def fatfs_open_def fatfs_write_def
  fatfs_close_def

fun call_fd :: "fat_call \<Rightarrow> Fd option" where
  "call_fd (CRead fd n) = Some fd"
| "call_fd (CSeek fd pos) = Some fd"
| "call_fd (CStat fd) = Some fd"
| "call_fd (CWrite fd buf) = Some fd"
| "call_fd (CClose fd) = Some fd"
| "call_fd (COpen p flags) = None"

lemma lock_table_poisoned:
  "poisoned s \<Longrightarrow>
    lock_table m s = (Err (AcquireLockErr ''poisoned lock: another task failed inside''), s)"
  by (simp add: lock_table_def)

lemma exec_poisoned:
  "poisoned s \<Longrightarrow>
    fat_exec c img call s = (Err (AcquireLockErr ''poisoned lock: another task failed inside''), s)"
  by (cases call) (simp_all add: fat_exec_def fat_op_defs act_bind_def lock_table_poisoned)

lemma exec_closed:
  assumes "\<not> poisoned s" "call_fd call = Some fd" "fat_lookup s fd = None"
  shows "fat_exec c img call s = (Err (FatBadInputFd fd), s)"
  using assms
  by (cases call)
     (auto simp: fat_exec_def fat_op_defs act_bind_def lock_table_def on_file_def fat_remove_file_def
       fatvec_lookup_def split: option.splits)

text \<open>when the image cannot be mounted the first \<open>open\<close> panics with the table locked, and
  from then on every call of the service fails with the poisoned-lock error and changes
  nothing.\<close>

theorem mount_failure_disables_fatfs:
  assumes "\<not> poisoned s" "\<not> FS_REF_ADDR s" "c_mount c img (fs s) = None"
  shows "fatfs_open c img p flags s = (Panic, s\<lparr>poisoned := True\<rparr>) \<and>
    fat_exec c img call (s\<lparr>poisoned := True\<rparr>) =
      (Err (AcquireLockErr ''poisoned lock: another task failed inside''), s\<lparr>poisoned := True\<rparr>)"
  using assms exec_poisoned [of "s\<lparr>poisoned := True\<rparr>" c img call]
  by (simp add: fatfs_open_def lock_table_def act_bind_def get_fs_ref_def)

theorem mount_failure_disables_fatfs_witness:
  "fatfs_open mem_crate [] ''a'' O_CREAT (mem_state\<lparr>FS_REF_ADDR := False\<rparr>) =
      (Panic, mem_state\<lparr>FS_REF_ADDR := False, poisoned := True\<rparr>) \<and>
    fat_exec mem_crate [] (CClose 0) (mem_state\<lparr>FS_REF_ADDR := False, poisoned := True\<rparr>) =
      (Err (AcquireLockErr ''poisoned lock: another task failed inside''),
       mem_state\<lparr>FS_REF_ADDR := False, poisoned := True\<rparr>)"
  using mount_failure_disables_fatfs
    [of "mem_state\<lparr>FS_REF_ADDR := False\<rparr>" mem_crate "[]" "''a''" O_CREAT "CClose 0"]
  by (simp add: mem_state_def mem_crate_def)

text \<open>an I/O error of \<open>write_all\<close> or \<open>flush\<close> is dropped: \<open>fatfs_write\<close> reports that the
  whole buffer was written.\<close>

theorem fatfs_write_hides_errors:
  assumes "\<not> poisoned s" "fat_lookup s fd = Some f"
    and "fst (write_and_flush c buf (f, fs s)) = Err e"
  shows "fst (fatfs_write c fd buf s) = Ok (length buf)"
  using assms by (auto simp: fatfs_write_def lock_table_def on_file_def split: prod.splits)

theorem fatfs_write_hides_errors_witness:
  "fst (write_and_flush mem_crate [1, 2] (1, fs mem_state)) = Err ''full'' \<and>
    fst (fatfs_write mem_crate 0 [1, 2] mem_state) = Ok 2"
proof -
  have "fst (write_and_flush mem_crate [1, 2] (1, fs mem_state)) = Err ''full''"
    "\<not> poisoned mem_state" "fat_lookup mem_state 0 = Some 1"
    by (simp_all add: write_and_flush_def act_bind_def mem_crate_def mem_state_def fatvec_lookup_def)
  with fatfs_write_hides_errors [OF this(2,3,1)] show ?thesis by simp
qed

section \<open>Handles\<close>

text \<open>A handle is an index that is never used again.\<close>

definition fat_grows :: "'f fd_vec \<Rightarrow> 'f fd_vec \<Rightarrow> bool" where
  "fat_grows t t' = (length t \<le> length t' \<and> (\<forall>i < length t. t ! i = None \<longrightarrow> t' ! i = None))"

lemma fat_grows_refl: "fat_grows t t"
  by (simp add: fat_grows_def)

lemma fat_grows_trans: "fat_grows t u \<Longrightarrow> fat_grows u v \<Longrightarrow> fat_grows t v"
  by (auto simp: fat_grows_def)

lemma lock_table_snd:
  "(\<And>s'. R s s' \<Longrightarrow> R s (s'\<lparr>poisoned := True\<rparr>)) \<Longrightarrow> R s (snd (m s)) \<Longrightarrow> R s s \<Longrightarrow> R s (snd (lock_table m s))"
  by (auto simp: lock_table_def split: prod.splits res.splits)

lemma on_file_grows: "fat_grows (FTABLE s) (FTABLE (snd (on_file fd g s)))"
  by (auto simp: on_file_def fat_grows_def nth_list_update fatvec_lookup_def vec_get_def
      split: option.splits prod.splits if_splits)

lemma get_fs_ref_table: "get_fs_ref c img s = (r, s') \<Longrightarrow> FTABLE s' = FTABLE s"
  by (auto simp: get_fs_ref_def split: if_splits option.splits)

lemma lock_table_cases:
  assumes "lock_table m s = (r, s')"
  obtains "FTABLE s' = FTABLE s" "\<And>a. r \<noteq> Ok a"
  | s1 where "m s = (r, s1)" "FTABLE s' = FTABLE s1"
proof (cases "poisoned s")
  case True
  with assms that(1) show ?thesis by (auto simp: lock_table_def)
next
  case False
  obtain r1 s1 where "m s = (r1, s1)" by (cases "m s")
  with False assms that(2) [of s1] show ?thesis by (cases r1) (auto simp: lock_table_def)
qed

lemma fatfs_open_effect:
  assumes "fatfs_open c img p flags s = (r, s')"
  shows "(FTABLE s' = FTABLE s \<and> (\<forall>fd. r \<noteq> Ok fd)) \<or>
    (\<exists>f. r = Ok (word_of_nat (length (FTABLE s))) \<and> FTABLE s' = FTABLE s @ [Some f])"
  using assms unfolding fatfs_open_def
proof (cases rule: lock_table_cases)
  case (2 s1)
  from 2(1) obtain s2 where s2: "FTABLE s2 = FTABLE s" and
    "s2 = s1 \<and> (\<forall>fd. r \<noteq> Ok fd) \<or>
      (case (if flags_contain flags O_CREAT then c_create_file c p else c_open_file c p) (fs s2) of
        (Ok f, w) \<Rightarrow>
          (case fat_add_file f (FTABLE s2) of (fd, t) \<Rightarrow> (Ok fd, s2\<lparr>FTABLE := t, fs := w\<rparr>))
      | (Err e, w) \<Rightarrow> (Err FatUnknown, s2\<lparr>fs := w\<rparr>)
      | (Panic, w) \<Rightarrow> (Panic, s2\<lparr>fs := w\<rparr>)) = (r, s1)"
    by (auto simp: act_bind_apply dest: get_fs_ref_table)
  then show ?thesis using 2(2) s2
    by (cases "(if flags_contain flags O_CREAT then c_create_file c p else c_open_file c p) (fs s2)";
        cases "fst ((if flags_contain flags O_CREAT then c_create_file c p else c_open_file c p) (fs s2))")
       (auto simp: fat_add_file_def)
qed simp

lemma open_grows: "fat_grows (FTABLE s) (FTABLE (snd (fatfs_open c img p flags s)))"
  using fatfs_open_effect [OF surjective_pairing, of c img p flags s]
  by (auto simp: fat_grows_def nth_append)

lemma update_None_keeps_None: "xs ! i = None \<Longrightarrow> i < length xs \<Longrightarrow> xs[j := None] ! i = None"
  by (cases "i = j") auto

lemma close_grows: "fat_grows (FTABLE s) (FTABLE (snd (fatfs_close c fd s)))"
  by (auto simp: fatfs_close_def lock_table_def fat_remove_file_def fat_grows_def update_None_keeps_None
      split: prod.splits res.splits option.splits if_splits)

lemma lock_on_file_grows: "fat_grows (FTABLE s) (FTABLE (snd (lock_table (on_file fd g) s)))"
  by (rule lock_table_snd) (simp_all add: on_file_grows fat_grows_refl)

lemma snd_ignore: "snd (act_bind m (\<lambda>_. act_ret ()) s) = snd (m s)"
  by (simp add: act_bind_def act_ret_def split: prod.splits res.splits)

lemma exec_grows: "fat_grows (FTABLE s) (FTABLE (snd (fat_exec c img call s)))"
  by (cases call)
     (simp_all add: fat_exec_def snd_ignore open_grows close_grows lock_on_file_grows
       fatfs_read_def fatfs_seek_def fatfs_stat_def fatfs_write_def)

inductive fat_reach :: "('w, 'f) FatCrate \<Rightarrow> string \<Rightarrow> ('w, 'f) FatState \<Rightarrow> ('w, 'f) FatState \<Rightarrow> bool"
  for c img where
  fat_refl: "fat_reach c img s s"
| fat_step: "fat_reach c img s s' \<Longrightarrow> fat_reach c img s (snd (fat_exec c img call s'))"

lemma fat_reach_grows: "fat_reach c img s s' \<Longrightarrow> fat_grows (FTABLE s) (FTABLE s')"
  by (induction rule: fat_reach.induct) (auto intro: fat_grows_refl fat_grows_trans exec_grows)

lemma fat_grows_lookup:
  "fat_grows t t' \<Longrightarrow> unat fd < length t \<Longrightarrow> fatvec_lookup t fd = None \<Longrightarrow> fatvec_lookup t' fd = None"
  by (auto simp: fat_grows_def fatvec_lookup_def)

lemma fatfs_close_removes:
  assumes "fatfs_close c fd s = (Ok (), s')"
  shows "unat fd < length (FTABLE s') \<and> fat_lookup s' fd = None"
  using assms
  by (auto simp: fatfs_close_def lock_table_def fat_remove_file_def fatvec_lookup_def vec_get_update
      vec_get_def split: if_splits option.splits prod.splits res.splits)

text \<open>C18: a closed handle stays closed. After \<open>fatfs_close\<close> succeeded, whatever calls follow,
  no call on the handle reaches a file (it fails with \<open>BadInputFd\<close> or the poisoned lock), and
  \<open>fatfs_open\<close> does not hand the handle out again while the table has fewer than \<open>2 ^ 32\<close> slots.\<close>

theorem closed_handle_stays_closed:
  assumes "fatfs_close c fd s = (Ok (), s1)" "fat_reach c img s1 s2" "call_fd call = Some fd"
    and "length (FTABLE s2) < 2 ^ 32"
  shows "fst (fat_exec c img call s2) \<in>
      {Err (FatBadInputFd fd), Err (AcquireLockErr ''poisoned lock: another task failed inside'')} \<and>
    fst (fatfs_open c img p flags s2) \<noteq> Ok fd"
proof -
  note grows = fat_reach_grows [OF assms(2)]
  have len: "unat fd < length (FTABLE s2)" and gone: "fat_lookup s2 fd = None"
    using fatfs_close_removes [OF assms(1)] grows fat_grows_lookup [OF grows]
    by (auto simp: fat_grows_def)
  have "fst (fat_exec c img call s2) \<in>
      {Err (FatBadInputFd fd), Err (AcquireLockErr ''poisoned lock: another task failed inside'')}"
    using exec_poisoned [of s2 c img call] exec_closed [OF _ assms(3) gone, of c img]
    by (cases "poisoned s2") simp_all
  moreover have "unat (word_of_nat (length (FTABLE s2)) :: Fd) = length (FTABLE s2)"
    by (rule unat_word_of_nat_lt) (use assms(4) in simp)
  then have "fst (fatfs_open c img p flags s2) \<noteq> Ok fd"
    using len fatfs_open_effect [OF surjective_pairing, of c img p flags s2] by auto
  ultimately show ?thesis by simp
qed

theorem closed_handle_stays_closed_witness:
  "fst (fatfs_close mem_crate 0 mem_state) = Ok () \<and>
    fst (fat_exec mem_crate ''i'' (CRead 0 4) (snd (fatfs_close mem_crate 0 mem_state))) \<in>
      {Err (FatBadInputFd 0), Err (AcquireLockErr ''poisoned lock: another task failed inside'')} \<and>
    fst (fatfs_open mem_crate ''i'' ''a'' O_CREAT (snd (fatfs_close mem_crate 0 mem_state))) \<noteq> Ok 0"
proof -
  have close: "fatfs_close mem_crate 0 mem_state = (Ok (), mem_state\<lparr>FTABLE := [None]\<rparr>)"
    by (simp add: fatfs_close_def lock_table_def fat_remove_file_def fatvec_lookup_def mem_state_def
        mem_crate_def)
  show ?thesis
    using closed_handle_stays_closed [OF close fat_refl, of "CRead 0 4" "''i''" "''a''" O_CREAT]
    by (simp add: close)
qed

end
