(* ===== verification/Fd_Services.thy ===== *)
theory Fd_Services
  imports Fdtab Fatfs
begin

text \<open>
  The descriptor service on top of the FAT service: the calls \<open>libos!(fatfs_..)\<close> of \<open>fdtab\<close> are
  the operations of \<^typ>\<open>('w, 'f) FatState\<close>; sockets and the console stay parameters. Shown
  here: descriptors never refer to a file that the FAT service has closed, and never share one.
\<close>

record 'n NetBackend =
  n_recv :: "Fd \<Rightarrow> nat \<Rightarrow> ('n, SmoltcpError, byte list) act"
  n_send :: "Fd \<Rightarrow> byte list \<Rightarrow> ('n, SmoltcpError, unit) act"
  n_connect :: "SocketAddr \<Rightarrow> ('n, SmoltcpError, Fd) act"
  n_bind :: "SocketAddr \<Rightarrow> ('n, SmoltcpError, Fd) act"
  n_accept :: "Fd \<Rightarrow> ('n, SmoltcpError, Fd) act"
  n_close :: "Fd \<Rightarrow> ('n, SmoltcpError, unit) act"
  n_stdout :: "byte list \<Rightarrow> 'n \<Rightarrow> nat \<times> 'n"

definition on_fat :: "('a, 'e, 'r) act \<Rightarrow> ('a \<times> 'n, 'e, 'r) act" where
  "on_fat m = (\<lambda>(a, n). case m a of (r, a') \<Rightarrow> (r, a', n))"

definition on_net :: "('n, 'e, 'r) act \<Rightarrow> ('a \<times> 'n, 'e, 'r) act" where
  "on_net m = (\<lambda>(a, n). case m n of (r, n') \<Rightarrow> (r, a, n'))"

definition libos_backend ::
  "('w, 'f) FatCrate \<Rightarrow> string \<Rightarrow> 'n NetBackend \<Rightarrow> (('w, 'f) FatState \<times> 'n) FdBackend" where
  "libos_backend c img net =
    \<lparr>b_fatfs_read = (\<lambda>h n. on_fat (fatfs_read c h n)),
     b_fatfs_write = (\<lambda>h bs. on_fat (fatfs_write c h bs)),
     b_fatfs_seek = (\<lambda>h pos. on_fat (fatfs_seek c h pos)),
     b_fatfs_stat = (\<lambda>h. on_fat (fatfs_stat c h)),
     b_fatfs_open = (\<lambda>p fl. on_fat (fatfs_open c img p fl)),
     b_fatfs_close = (\<lambda>h. on_fat (fatfs_close c h)),
     b_recv = (\<lambda>h n. on_net (n_recv net h n)),
     b_send = (\<lambda>h bs. on_net (n_send net h bs)),
     b_smol_connect = (\<lambda>a. on_net (n_connect net a)),
     b_smol_bind = (\<lambda>a. on_net (n_bind net a)),
     b_smol_accept = (\<lambda>h. on_net (n_accept net h)),
     b_smol_close = (\<lambda>h. on_net (n_close net h)),
     b_stdout = (\<lambda>bs (a, n). case n_stdout net bs n of (k, n') \<Rightarrow> (k, a, n'))\<rparr>"

section \<open>Ownership of handles\<close>

text \<open>Every FAT handle of an open descriptor is among \<open>live\<close>, and belongs to it alone.\<close>

definition owned :: "(Fd \<rightharpoonup> File) \<Rightarrow> Fd set \<Rightarrow> bool" where
  "owned m live =
    (\<forall>fd f h. m fd = Some f \<and> file_src f = FatFS h \<longrightarrow>
       h \<in> live \<and> (\<forall>fd' f'. m fd' = Some f' \<and> file_src f' = FatFS h \<longrightarrow> fd' = fd))"

lemma owned_mono: "owned m live \<Longrightarrow> live \<subseteq> live' \<Longrightarrow> owned m live'"
  unfolding owned_def by blast

lemma owned_add_fat:
  assumes "owned m live" "m fd = None" "h \<notin> live" "file_src f = FatFS h"
  shows "owned (m(fd \<mapsto> f)) (insert h live)"
  using assms unfolding owned_def by (auto split: if_splits)

lemma owned_add_net: "owned m live \<Longrightarrow> file_src f = Net h \<Longrightarrow> owned (m(fd \<mapsto> f)) live"
  unfolding owned_def by (auto split: if_splits)

lemma owned_remove:
  assumes "owned m live" "\<And>f h. m fd = Some f \<Longrightarrow> file_src f = FatFS h \<Longrightarrow> live - {h} \<subseteq> live'"
    and "\<And>f h. m fd = Some f \<Longrightarrow> file_src f = Net h \<Longrightarrow> live \<subseteq> live'"
    and "m fd = None \<Longrightarrow> live \<subseteq> live'"
  shows "owned (m(fd := None)) live'"
proof -
  have "h \<in> live'" if "m fd' = Some f'" "file_src f' = FatFS h" "fd' \<noteq> fd" for fd' f' h
  proof -
    have live: "h \<in> live" "\<And>f. m fd = Some f \<Longrightarrow> file_src f \<noteq> FatFS h"
      using assms(1) that unfolding owned_def by blast+
    show ?thesis
    proof (cases "m fd")
      case (Some f)
      then show ?thesis using live assms(2,3) [of f] by (cases "file_src f") auto
    qed (use live assms(4) in auto)
  qed
  with assms(1) show ?thesis unfolding owned_def by (auto split: if_splits)
qed

text \<open>What the FAT operations do to the set of live handles.\<close>

lemma on_file_live: "dom (fat_lookup (snd (lock_table (on_file fd g) s))) = dom (fat_lookup s)"
proof -
  have "dom (fat_lookup (snd (on_file fd g s))) = dom (fat_lookup s)"
    by (auto simp: on_file_def fatvec_lookup_update split: option.splits prod.splits if_splits)
  then show ?thesis
    by (intro lock_table_snd [where R = "\<lambda>s s'. dom (fat_lookup s') = dom (fat_lookup s)"]) simp_all
qed

lemma io_live:
  "dom (fat_lookup (snd (fatfs_read c h n s))) = dom (fat_lookup s)"
  "dom (fat_lookup (snd (fatfs_write c h bs s))) = dom (fat_lookup s)"
  "dom (fat_lookup (snd (fatfs_seek c h pos s))) = dom (fat_lookup s)"
  "dom (fat_lookup (snd (fatfs_stat c h s))) = dom (fat_lookup s)"
  by (simp_all add: fatfs_read_def fatfs_write_def fatfs_seek_def fatfs_stat_def on_file_live)

lemma open_live:
  assumes "fatvec_ok (Suc n) (FTABLE s)" "fatfs_open c img p flags s = (r, s')"
  shows "case r of
      Ok h \<Rightarrow> h \<notin> dom (fat_lookup s) \<and> dom (fat_lookup s') = insert h (dom (fat_lookup s))
    | _ \<Rightarrow> dom (fat_lookup s') = dom (fat_lookup s)"
proof -
  consider "FTABLE s' = FTABLE s" "\<forall>fd. r \<noteq> Ok fd"
    | f where "r = Ok (word_of_nat (length (FTABLE s)))" "FTABLE s' = FTABLE s @ [Some f]"
    using fatfs_open_effect [OF assms(2)] by blast
  then show ?thesis
  proof cases
    case 1
    then show ?thesis by (cases r) auto
  next
    case (2 f)
    then have add: "fat_add_file f (FTABLE s) = (word_of_nat (length (FTABLE s)), FTABLE s')"
      by (simp add: fat_add_file_def)
    have "fat_lookup s' = (fat_lookup s)(word_of_nat (length (FTABLE s)) \<mapsto> f)"
      using fatvec.lookup_add [OF assms(1) add] by (auto simp: fun_eq_iff)
    with 2(1) fatvec.add_fresh [OF assms(1) add] show ?thesis by auto
  qed
qed

lemma close_live:
  assumes "fatvec_ok n (FTABLE s)"
  shows "dom (fat_lookup s) - {h} \<subseteq> dom (fat_lookup (snd (fatfs_close c h s)))"
proof -
  obtain r t where rm: "fat_remove_file h (FTABLE s) = (r, t)" by (cases "fat_remove_file h (FTABLE s)")
  have "fatvec_lookup t = (fat_lookup s)(h := None)"
    using fatvec.lookup_rm [OF assms, of h] rm by (auto simp: fun_eq_iff)
  then show ?thesis unfolding fatfs_close_def
    by (intro lock_table_snd [where R = "\<lambda>s s'. dom (fat_lookup s) - {h} \<subseteq> dom (fat_lookup s')"])
       (auto simp: rm)
qed

section \<open>The combined state\<close>

type_synonym ('w, 'f, 'n) os_state = "(('w, 'f) FatState \<times> 'n) FdState"

abbreviation live_handles :: "('w, 'f, 'n) os_state \<Rightarrow> Fd set" where
  "live_handles s \<equiv> dom (fat_lookup (fst (services s)))"

definition os_inv :: "('w, 'f, 'n) os_state \<Rightarrow> bool" where
  "os_inv s = owned (fd_lookup s) (live_handles s)"

text \<open>Room for one more descriptor in each table.\<close>

definition os_room :: "('w, 'f, 'n) os_state \<Rightarrow> bool" where
  "os_room s = (length (FD_TABLE s) + 4 \<le> 2 ^ 32 \<and> length (FTABLE (fst (services s))) < 2 ^ 32)"

lemma os_roomD:
  assumes "os_room s"
  shows "fdvec_ok (Suc 0) (FD_TABLE s)" "fatvec_ok (Suc 0) (FTABLE (fst (services s)))"
  using assms by (auto simp: os_room_def fdvec_ok_def fatvec_ok_def)

lemmas libos_calls = libos_backend_def on_fat_def on_net_def call_fat_def call_sock_def

lemma snd_fat_call:
  "live_handles (snd (call_fat (on_fat m) s)) = dom (fat_lookup (snd (m (fst (services s)))))"
  "fd_lookup (snd (call_fat (on_fat m) s)) = fd_lookup s"
  by (auto simp: libos_calls split: prod.splits)

lemma snd_net_call:
  "live_handles (snd (call_sock (on_net m) s)) = live_handles s"
  "fd_lookup (snd (call_sock (on_net m) s)) = fd_lookup s"
  by (auto simp: libos_calls split: prod.splits)

text \<open>Steps that change neither the open files nor the live handles.\<close>

definition os_same :: "('w, 'f, 'n) os_state \<Rightarrow> ('w, 'f, 'n) os_state \<Rightarrow> bool" where
  "os_same s s' = (fd_lookup s' = fd_lookup s \<and> live_handles s' = live_handles s)"

interpretation os: step_relation os_same
  by unfold_locales (simp_all add: os_same_def)

lemma within_sndI: "(\<And>s. R s (snd (m s))) \<Longrightarrow> within R m"
  by (metis withinI snd_conv)

lemma within_snd: "within R m \<Longrightarrow> R s (snd (m s))"
  by (metis withinD surjective_pairing)

lemma within_open_file:
  "(\<And>s. R s s) \<Longrightarrow> \<not> fd \<le> 2 \<Longrightarrow> (\<And>file. within R (f file)) \<Longrightarrow> within R (with_open_file fd f)"
  by (rule within_sndI) (simp add: with_open_file_eq within_snd [of R] split: option.split)

lemmas same_open_file = within_open_file [of os_same, OF os.R_refl]

lemma same_source:
  "(\<And>h. within R (f h)) \<Longrightarrow> (\<And>h. within R (g h)) \<Longrightarrow> within R (case src of FatFS h \<Rightarrow> f h | Net h \<Rightarrow> g h)"
  by (cases src) simp_all

lemma same_net: "within os_same (call_sock (on_net m))"
  by (rule within_sndI) (simp add: os_same_def snd_net_call)

lemma same_fat:
  "(\<And>s. dom (fat_lookup (snd (m s))) = dom (fat_lookup s)) \<Longrightarrow> within os_same (call_fat (on_fat m))"
  by (rule within_sndI) (simp add: os_same_def snd_fat_call)

lemma same_stdout:
  "within os_same (\<lambda>s. case b_stdout (libos_backend c img net) buf (services s) of
     (n, w) \<Rightarrow> (Ok n, s\<lparr>services := w\<rparr>))"
  by (rule within_sndI) (auto simp: os_same_def libos_backend_def split: prod.splits)

lemma io_same:
  "within os_same (fd_read (libos_backend c img net) fd n)"
  "within os_same (fd_write (libos_backend c img net) fd buf)"
  "within os_same (fd_lseek (libos_backend c img net) fd pos)"
  "within os_same (fd_stat (libos_backend c img net) fd)"
  unfolding fd_read_def fd_write_def fd_lseek_def fd_stat_def
  by (intro within_if same_open_file same_source os.within_bind os.within_pure same_stdout;
      (simp add: streams; fail)?;
      simp add: libos_backend_def same_net same_fat io_live)+

lemma os_same_inv: "os_same s s' \<Longrightarrow> os_inv s \<Longrightarrow> os_inv s'"
  by (simp add: os_same_def os_inv_def)

lemma install_net_inv:
  assumes "fdvec_ok (Suc n) (FD_TABLE s)" "os_inv s"
  shows "os_inv (snd (install_file \<lparr>file_mode = mode, file_src = Net h\<rparr> s))"
proof -
  obtain r s' where inst: "install_file \<lparr>file_mode = mode, file_src = Net h\<rparr> s = (r, s')"
    by (cases "install_file \<lparr>file_mode = mode, file_src = Net h\<rparr> s")
  from install_file_effect [OF assms(1) inst] assms(2) owned_add_net [of "fd_lookup s" "live_handles s"]
  show ?thesis by (auto simp: os_inv_def inst)
qed

lemma fdvec_ok_same: "length t' = length t \<Longrightarrow> fdvec_ok n t' = fdvec_ok n t"
  by (simp add: fdvec_ok_def)

lemma open_net_inv:
  assumes "os_room s" "os_inv s"
  shows "os_inv (snd (act_bind (call_sock (on_net m))
    (\<lambda>h. install_file \<lparr>file_mode = mode, file_src = Net h\<rparr>) s))"
proof -
  obtain r s1 where call: "call_sock (on_net m) s = (r, s1)" by (cases "call_sock (on_net m) s")
  have "os_inv s1" using os_same_inv [OF withinD [OF same_net call]] assms(2) by simp
  moreover have "fdvec_ok (Suc 0) (FD_TABLE s1)"
    using call_sock_table [of "on_net m" s] call os_roomD(1) [OF assms(1)] by simp
  ultimately show ?thesis using install_net_inv by (cases r) (auto simp: act_bind_def call)
qed

lemma open_fat_inv:
  assumes "os_room s" "os_inv s"
  shows "os_inv (snd (fd_open (libos_backend c img net) p flags mode s))"
proof -
  obtain r a where op: "fatfs_open c img p flags (fst (services s)) = (r, a)"
    by (cases "fatfs_open c img p flags (fst (services s))")
  define s1 where "s1 = s\<lparr>services := (a, snd (services s))\<rparr>"
  have call: "call_fat (b_fatfs_open (libos_backend c img net) p flags) s = (map_err FatfsErr r, s1)"
    using op by (auto simp: libos_calls s1_def split: prod.splits)
  note live = open_live [OF os_roomD(2) [OF assms(1)] op]
  show ?thesis
  proof (cases r)
    case (Ok h)
    obtain x s2 where inst: "install_file \<lparr>file_mode = mode, file_src = FatFS h\<rparr> s1 = (x, s2)"
      by (cases "install_file \<lparr>file_mode = mode, file_src = FatFS h\<rparr> s1")
    have "fdvec_ok (Suc 0) (FD_TABLE s1)" using os_roomD(1) [OF assms(1)] by (simp add: s1_def)
    from install_file_effect [OF this inst] obtain fd where fd: "fd_lookup s fd = None"
      "fd_lookup s2 = (fd_lookup s)(fd \<mapsto> \<lparr>file_mode = mode, file_src = FatFS h\<rparr>)"
      "services s2 = services s1" by (auto simp: s1_def)
    have "owned (fd_lookup s2) (insert h (live_handles s))"
      using owned_add_fat [where m = "fd_lookup s" and fd = fd and live = "live_handles s" and h = h] fd(1) assms(2) live Ok fd(2)
      by (simp add: os_inv_def)
    moreover have "services s2 = (a, snd (services s))" using fd(3) by (simp add: s1_def)
    ultimately show ?thesis using live Ok
      by (simp add: fd_open_def act_bind_def call inst os_inv_def)
  qed (use live assms(2) in \<open>simp_all add: fd_open_def act_bind_def call os_inv_def s1_def\<close>)
qed

lemma close_inv:
  assumes "os_room s" "os_inv s"
  shows "os_inv (snd (fd_close (libos_backend c img net) fd s))"
proof -
  obtain r s' where cl: "fd_close (libos_backend c img net) fd s = (r, s')"
    by (cases "fd_close (libos_backend c img net) fd s")
  have lk: "fd_lookup s' = (fd_lookup s)(fd := None)"
    by (rule close_promise [OF os_roomD(1) [OF assms(1)] cl])
  have live: "case fd_lookup s fd of
      Some f \<Rightarrow> (case file_src f of FatFS h \<Rightarrow> live_handles s - {h} \<subseteq> live_handles s' | Net h \<Rightarrow> live_handles s' = live_handles s)
    | None \<Rightarrow> live_handles s' = live_handles s"
  proof (cases "fd \<le> 2")
    case True
    then show ?thesis using cl lookup_reserved [OF True, of "FD_TABLE s"] by (simp add: fd_close_def act_err_def)
  next
    case False
    obtain t where rm: "remove_file fd (FD_TABLE s) = (Ok (fd_lookup s fd), t)"
      using remove_file_lookup [of fd "FD_TABLE s"] False
      by (cases "remove_file fd (FD_TABLE s)") (simp add: not_reserved)
    note snd_fat = snd_fat_call(1) [of "fatfs_close c h" "s\<lparr>FD_TABLE := t\<rparr>" for h]
    note snd_net = snd_net_call(1) [of "n_close net h" "s\<lparr>FD_TABLE := t\<rparr>" for h]
    have s': "s' = snd (fd_close (libos_backend c img net) fd s)" using cl by simp
    show ?thesis
    proof (cases "fd_lookup s fd")
      case (Some f)
      then show ?thesis
        using False snd_fat snd_net close_live [OF os_roomD(2) [OF assms(1)]]
        by (cases "file_src f") (simp_all add: s' fd_close_def rm libos_backend_def)
    qed (use False in \<open>simp add: s' fd_close_def rm\<close>)
  qed
  have "owned (fd_lookup s') (live_handles s')"
    unfolding lk by (rule owned_remove [of _ "live_handles s"]) (use assms(2) live in \<open>auto simp: os_inv_def\<close>)
  then show ?thesis by (simp add: os_inv_def cl)
qed

text \<open>Steps that keep the live handles.\<close>

definition live_same :: "('w, 'f, 'n) os_state \<Rightarrow> ('w, 'f, 'n) os_state \<Rightarrow> bool" where
  "live_same s s' = (live_handles s' = live_handles s)"

interpretation live: step_relation live_same
  by unfold_locales (simp_all add: live_same_def)

lemma accept_live: "within live_same (fd_accept (libos_backend c img net) fd)"
proof -
  have net: "within live_same (call_sock (on_net m))" for m
    by (rule within_sndI) (simp add: live_same_def snd_net_call)
  have install: "within live_same (install_file f)" for f
    by (rule within_sndI) (simp add: live_same_def install_file_def split: prod.splits)
  have store: "within live_same (act_modify (\<lambda>s. s\<lparr>FD_TABLE := g s\<rparr>))" for g
    by (rule live.within_modify) (simp add: live_same_def)
  show ?thesis
    unfolding fd_accept_def
    by (intro within_if live.within_bind within_open_file same_source live.within_pure live.R_refl
        install store; (simp; fail)?; simp add: libos_backend_def net)
qed

lemma accept_inv:
  assumes "os_room s" "os_inv s"
  shows "os_inv (snd (fd_accept (libos_backend c img net) l s))"
proof -
  obtain r s' where acc: "fd_accept (libos_backend c img net) l s = (r, s')"
    by (cases "fd_accept (libos_backend c img net) l s")
  have live: "live_handles s' = live_handles s"
    using withinD [OF accept_live acc] by (simp add: live_same_def)
  from accept_promise [OF os_roomD(1) [OF assms(1)] acc]
  have "fd_lookup s' = fd_lookup s \<or> (\<exists>f g fd h k. fd_lookup s' = (fd_lookup s)(l \<mapsto> f, fd \<mapsto> g) \<and>
      file_src f = Net h \<and> file_src g = Net k)"
    by (cases r) (auto, metis File.select_convs(2) File.surjective File.update_convs(2))
  then have "owned (fd_lookup s') (live_handles s)"
    using assms(2) by (auto simp: os_inv_def intro!: owned_add_net)
  then show ?thesis by (simp add: os_inv_def acc live)
qed

lemma os_step_inv:
  assumes "os_room s" "os_inv s"
  shows "os_inv (snd (fd_exec (libos_backend c img net) call s))"
  using os_same_inv [OF within_snd [OF io_same(1)] assms(2)] os_same_inv [OF within_snd [OF io_same(2)] assms(2)]
    os_same_inv [OF within_snd [OF io_same(3)] assms(2)] os_same_inv [OF within_snd [OF io_same(4)] assms(2)]
    open_fat_inv [OF assms] close_inv [OF assms] accept_inv [OF assms]
    open_net_inv [OF assms, where mode = RDWR] open_net_inv [OF assms, where mode = RD]
  by (cases call)
     (simp_all add: fd_exec_def snd_act_map fd_connect_def fd_bind_def, simp_all add: libos_backend_def)

section \<open>Reachable states\<close>

inductive os_reach :: "('w, 'f) FatCrate \<Rightarrow> string \<Rightarrow> 'n NetBackend \<Rightarrow> ('w, 'f, 'n) os_state \<Rightarrow> bool"
  for c img net where
  os_start: "os_reach c img net \<lparr>FD_TABLE = [],
    services = (\<lparr>FTABLE = [], poisoned = False, FS_REF_ADDR = False, fs = w\<rparr>, n)\<rparr>"
| os_call: "os_reach c img net s \<Longrightarrow> os_room s \<Longrightarrow>
    os_reach c img net (snd (fd_exec (libos_backend c img net) call s))"

lemma os_reach_inv: "os_reach c img net s \<Longrightarrow> os_inv s"
proof (induction rule: os_reach.induct)
  case (os_start w n)
  show ?case by (simp add: os_inv_def owned_def fdvec_lookup_def)
qed (rule os_step_inv)

text \<open>C9: in every state the calls of the descriptor service can produce from empty tables,
  whatever the file system and the network answer, an open file descriptor refers to a file the
  FAT service still has open, and no two descriptors refer to the same one.\<close>

theorem no_dangling_descriptors:
  assumes "os_reach c img net s" "fd_lookup s fd = Some f" "file_src f = FatFS h"
  shows "fat_lookup (fst (services s)) h \<noteq> None \<and>
    (\<forall>fd' f'. fd_lookup s fd' = Some f' \<and> file_src f' = FatFS h \<longrightarrow> fd' = fd)"
  using os_reach_inv [OF assms(1)] assms(2,3) unfolding os_inv_def owned_def by blast

definition quiet_net :: "unit NetBackend" where
  "quiet_net =
    \<lparr>n_recv = (\<lambda>h n w. (Err NoLocalEndpoint, w)), n_send = (\<lambda>h bs w. (Err NoLocalEndpoint, w)),
     n_connect = (\<lambda>a w. (Err DNSQueryFailed, w)), n_bind = (\<lambda>a w. (Err NoLocalEndpoint, w)),
     n_accept = (\<lambda>h w. (Err NoLocalEndpoint, w)), n_close = (\<lambda>h w. (Ok (), w)),
     n_stdout = (\<lambda>bs w. (length bs, w))\<rparr>"

definition opened_state :: "(byte list, nat, unit) os_state" where
  "opened_state = snd (fd_exec (libos_backend mem_crate ''i'' quiet_net) (FOpen ''a'' O_CREAT RDWR)
    \<lparr>FD_TABLE = [], services = (\<lparr>FTABLE = [], poisoned = False, FS_REF_ADDR = False, fs = []\<rparr>, ())\<rparr>)"

lemma opened_state_eq:
  "opened_state = \<lparr>FD_TABLE = [Some \<lparr>file_mode = RDWR, file_src = FatFS 0\<rparr>],
    services = (\<lparr>FTABLE = [Some 0], poisoned = False, FS_REF_ADDR = True, fs = []\<rparr>, ())\<rparr>"
  by (simp add: opened_state_def fd_exec_def act_map_def fd_open_def act_bind_def libos_backend_def
      call_fat_def on_fat_def fatfs_open_def lock_table_def get_fs_ref_def mem_crate_def fat_add_file_def
      install_file_def add_file_def flags_contain_def)

theorem no_dangling_descriptors_witness:
  "fd_lookup opened_state 3 = Some \<lparr>file_mode = RDWR, file_src = FatFS 0\<rparr> \<and>
    fat_lookup (fst (services opened_state)) 0 \<noteq> None"
proof -
  have reach: "os_reach mem_crate ''i'' quiet_net opened_state"
    unfolding opened_state_def by (intro os_call os_start) (simp add: os_room_def)
  have "fd_lookup opened_state 3 = Some \<lparr>file_mode = RDWR, file_src = FatFS 0\<rparr>"
    by (simp add: opened_state_eq fdvec_lookup_def)
  with no_dangling_descriptors [OF reach this] show ?thesis by simp
qed

end
