(* ===== verification/Block_Device.thy ===== *)
theory Block_Device
  imports Paging Effects
begin

text \<open>
  Block devices. \<open>driver_block/src/ramdisk.rs\<close> (used by \<open>rcore_sfsfdtab\<close>) keeps the disk in
  memory, \<open>driver_block/src/stream_disk.rs\<close> (used by \<open>ext4fdtab\<close>) in a buffered file. The file
  systems see a device through an adapter that works on byte offsets: \<open>RamDiskDevice\<close> of
  \<open>sfs_apis.rs\<close>, one block at a time, and \<open>RamDiskDevice\<close> of \<open>ext4_apis.rs\<close>, which loops over the
  blocks. The locale \<open>block_device\<close> is what the adapters rely on; in it they are shown to read
  and write a flat array of bytes. Offsets and sizes are natural numbers; sums and products of
  them wrap around at \<open>2 ^ 64\<close> as \<open>usize\<close> does in a release build.
\<close>

section \<open>Drivers\<close>

datatype DevError =
    AlreadyExists | Again | BadState | DevInvalidParam | DevIo | NoMemory | ResourceBusy | Unsupported

definition BLOCK_SIZE :: nat where
  "BLOCK_SIZE = 4096"

definition usize :: "nat \<Rightarrow> nat" where
  "usize n = n mod 2 ^ 64"

lemma usize_id [simp]: "n < 2 ^ 64 \<Longrightarrow> usize n = n"
  by (simp add: usize_def)

definition align_up :: "u64 \<Rightarrow> u64" where
  "align_up val = (val + 4096 - 1) AND NOT (4096 - 1)"

text \<open>\<open>BlockDriverOps\<close>; a read is into a buffer of zeros of the given length, as in every caller.\<close>

record 'd BlockDriver =
  bd_num_blocks :: "'d \<Rightarrow> nat"
  bd_block_size :: nat
  bd_read :: "nat \<Rightarrow> nat \<Rightarrow> ('d, DevError, byte list) act"
  bd_write :: "nat \<Rightarrow> byte list \<Rightarrow> ('d, DevError, unit) act"
  bd_flush :: "('d, DevError, unit) act"

subsection \<open>A disk in memory\<close>

record RamDisk =
  rd_size :: nat
  rd_data :: "byte list"

definition RamDisk_new :: "u64 \<Rightarrow> RamDisk" where
  "RamDisk_new size_hint =
    (let size = unat (align_up size_hint) in \<lparr>rd_size = size, rd_data = replicate size 0\<rparr>)"

definition RamDisk_from :: "byte list \<Rightarrow> RamDisk" where
  "RamDisk_from buf =
    (let size = unat (align_up (word_of_nat (length buf)))
     in \<lparr>rd_size = size, rd_data = overwrite 0 buf (replicate size 0)\<rparr>)"

text \<open>The end of the range may wrap around; then the check against the size passes and taking
  the slice panics, since its end is before its start.\<close>

definition rd_read_block :: "nat \<Rightarrow> nat \<Rightarrow> (RamDisk, DevError, byte list) act" where
  "rd_read_block block_id len = (\<lambda>d.
    let offset = usize (block_id * BLOCK_SIZE);
        stop = usize (offset + len) in
    if stop > rd_size d then (Err DevIo, d)
    else if len mod BLOCK_SIZE \<noteq> 0 then (Err DevInvalidParam, d)
    else if stop < offset \<or> length (rd_data d) < stop then (Panic, d)
    else (Ok (vslice offset len (rd_data d)), d))"

definition rd_write_block :: "nat \<Rightarrow> byte list \<Rightarrow> (RamDisk, DevError, unit) act" where
  "rd_write_block block_id buf = (\<lambda>d.
    let offset = usize (block_id * BLOCK_SIZE);
        stop = usize (offset + length buf) in
    if stop > rd_size d then (Err DevIo, d)
    else if length buf mod BLOCK_SIZE \<noteq> 0 then (Err DevInvalidParam, d)
    else if stop < offset \<or> length (rd_data d) < stop then (Panic, d)
    else (Ok (), d\<lparr>rd_data := overwrite offset buf (rd_data d)\<rparr>))"

definition ramdisk_driver :: "RamDisk BlockDriver" where
  "ramdisk_driver =
    \<lparr>bd_num_blocks = (\<lambda>d. rd_size d div BLOCK_SIZE), bd_block_size = BLOCK_SIZE,
     bd_read = rd_read_block, bd_write = rd_write_block, bd_flush = act_ret ()\<rparr>"

subsection \<open>A disk in a buffered file\<close>

text \<open>\<open>BufStream<File>\<close> as a parameter: a read returns the bytes it got, a write their number.\<close>

record 's Stream =
  s_seek :: "nat \<Rightarrow> ('s, string, unit) act"
  s_read :: "nat \<Rightarrow> ('s, string, byte list) act"
  s_write :: "byte list \<Rightarrow> ('s, string, nat) act"
  s_flush :: "('s, string, unit) act"

record 's StreamDisk =
  sd_inner :: 's
  sd_size :: nat

text \<open>\<open>new\<close>: the length of the image and the opened file; either may fail, which panics.\<close>

definition StreamDisk_new :: "u64 option \<Rightarrow> 's option \<Rightarrow> (unit, 's StreamDisk) res" where
  "StreamDisk_new len file =
    (case (len, file) of
       (Some n, Some f) \<Rightarrow> Ok \<lparr>sd_inner = f, sd_size = unat (align_up n)\<rparr>
     | _ \<Rightarrow> Panic)"

definition on_inner :: "('s, string, 'a) act \<Rightarrow> ('s StreamDisk, DevError, 'a) act" where
  "on_inner m = (\<lambda>d. case m (sd_inner d) of (r, s) \<Rightarrow> (map_err (\<lambda>_. DevIo) r, d\<lparr>sd_inner := s\<rparr>))"

text \<open>The number of bytes \<open>read\<close> got is dropped: what it did not fill stays zero.\<close>

definition sd_read_block :: "'s Stream \<Rightarrow> nat \<Rightarrow> nat \<Rightarrow> ('s StreamDisk, DevError, byte list) act" where
  "sd_read_block st block_id len =
    (let offset = usize (block_id * BLOCK_SIZE) in
     act_bind (act_get sd_size) (\<lambda>size.
     if usize (offset + len) > size then act_err DevIo
     else if len mod BLOCK_SIZE \<noteq> 0 then act_err DevInvalidParam
     else act_bind (on_inner (s_seek st offset)) (\<lambda>_.
          act_bind (on_inner (s_read st len)) (\<lambda>bs.
          act_ret (bs @ replicate (len - length bs) 0)))))"

definition sd_write_block :: "'s Stream \<Rightarrow> nat \<Rightarrow> byte list \<Rightarrow> ('s StreamDisk, DevError, unit) act" where
  "sd_write_block st block_id buf =
    (let offset = usize (block_id * BLOCK_SIZE) in
     act_bind (act_get sd_size) (\<lambda>size.
     if usize (offset + length buf) > size then act_err DevIo
     else if length buf mod BLOCK_SIZE \<noteq> 0 then act_err DevInvalidParam
     else act_bind (on_inner (s_seek st offset)) (\<lambda>_.
          act_bind (on_inner (s_write st buf)) (\<lambda>_.
          on_inner (s_flush st)))))"

definition stream_driver :: "'s Stream \<Rightarrow> 's StreamDisk BlockDriver" where
  "stream_driver st =
    \<lparr>bd_num_blocks = (\<lambda>d. sd_size d div BLOCK_SIZE), bd_block_size = BLOCK_SIZE,
     bd_read = sd_read_block st, bd_write = sd_write_block st, bd_flush = act_ret ()\<rparr>"

section \<open>Adapters\<close>

text \<open>\<open>RamDiskDevice\<close> of \<open>sfs_apis.rs\<close>: it stops at the end of the block. A block size of 0
  would divide by zero.\<close>

definition dev_read_at :: "'d BlockDriver \<Rightarrow> nat \<Rightarrow> nat \<Rightarrow> ('d, unit, byte list) act" where
  "dev_read_at drv offset buf_len =
    (let bs = bd_block_size drv;
         read_len = min buf_len (bs - offset mod bs) in
     if bs = 0 then act_panic
     else act_bind (act_map_err (\<lambda>_. ()) (bd_read drv (offset div bs) bs)) (\<lambda>block.
          act_ret (vslice (offset mod bs) read_len block)))"

definition dev_write_at :: "'d BlockDriver \<Rightarrow> nat \<Rightarrow> byte list \<Rightarrow> ('d, unit, nat) act" where
  "dev_write_at drv offset buf =
    (let bs = bd_block_size drv;
         write_len = min (length buf) (bs - offset mod bs) in
     if bs = 0 then act_panic
     else act_bind (act_map_err (\<lambda>_. ()) (bd_read drv (offset div bs) bs)) (\<lambda>block.
          act_bind (act_map_err (\<lambda>_. ())
            (bd_write drv (offset div bs) (overwrite (offset mod bs) (take write_len buf) block))) (\<lambda>_.
          act_ret write_len)))"

definition dev_sync :: "'d BlockDriver \<Rightarrow> ('d, unit, unit) act" where
  "dev_sync drv = act_map_err (\<lambda>_. ()) (bd_flush drv)"

text \<open>\<open>RamDiskDevice\<close> of \<open>ext4_apis.rs\<close>. Each turn of its loops copies at least one byte.\<close>

lemma block_progress:
  fixes bs :: nat
  assumes "0 < bs" "got < len"
  shows "len - (got + min (len - got) (bs - a mod bs)) < len - got"
proof -
  have "a mod bs < bs" using assms(1) by simp
  then have "0 < min (len - got) (bs - a mod bs)" using assms(2) by simp
  with assms(2) show ?thesis by linarith
qed

function read_offset_loop ::
  "'d BlockDriver \<Rightarrow> nat \<Rightarrow> nat \<Rightarrow> nat \<Rightarrow> byte list \<Rightarrow> ('d, unit, byte list) act" where
  "read_offset_loop drv offset len got buf d =
    (let bs = bd_block_size drv;
         abs_offset = usize (offset + got);
         block_offset = abs_offset mod bs;
         to_copy = min (len - got) (bs - block_offset) in
     if len \<le> got then (Ok buf, d)
     else if bs = 0 then (Panic, d)
     else case bd_read drv (abs_offset div bs) bs d of
       (Ok block, d') \<Rightarrow>
         read_offset_loop drv offset len (got + to_copy)
           (overwrite got (vslice block_offset to_copy block) buf) d'
     | (Err _, d') \<Rightarrow> (Ok (replicate len 0), d')
     | (Panic, d') \<Rightarrow> (Panic, d'))"
  by pat_completeness auto
termination
  by (relation "measure (\<lambda>(drv, offset, len, got, buf, d). len - got)") (auto intro: block_progress)

declare read_offset_loop.simps [simp del]

definition read_offset :: "'d BlockDriver \<Rightarrow> nat \<Rightarrow> ('d, unit, byte list) act" where
  "read_offset drv offset =
    (let len = (if offset = 1024 then 1024 else bd_block_size drv)
     in read_offset_loop drv offset len 0 (replicate len 0))"

function write_offset_loop ::
  "'d BlockDriver \<Rightarrow> nat \<Rightarrow> byte list \<Rightarrow> nat \<Rightarrow> ('d, unit, unit) act" where
  "write_offset_loop drv offset data written d =
    (let bs = bd_block_size drv;
         abs_offset = usize (offset + written);
         block_offset = abs_offset mod bs;
         to_copy = min (length data - written) (bs - block_offset) in
     if length data \<le> written then (Ok (), d)
     else if bs = 0 then (Panic, d)
     else case bd_read drv (abs_offset div bs) bs d of
       (Ok block, d') \<Rightarrow>
         (case bd_write drv (abs_offset div bs)
             (overwrite block_offset (vslice written to_copy data) block) d' of
            (Ok _, d'') \<Rightarrow> write_offset_loop drv offset data (written + to_copy) d''
          | (Err _, d'') \<Rightarrow> (Ok (), d'')
          | (Panic, d'') \<Rightarrow> (Panic, d''))
     | (Err _, d') \<Rightarrow> (Ok (), d')
     | (Panic, d') \<Rightarrow> (Panic, d'))"
  by pat_completeness auto
termination
  by (relation "measure (\<lambda>(drv, offset, data, written, d). length data - written)") (auto intro: block_progress)

declare write_offset_loop.simps [simp del]

definition write_offset :: "'d BlockDriver \<Rightarrow> nat \<Rightarrow> byte list \<Rightarrow> ('d, unit, unit) act" where
  "write_offset drv offset data = write_offset_loop drv offset data 0"

section \<open>What the adapters rely on\<close>

text \<open>Writing a part of a block back is writing that part of the disk.\<close>

lemma overwrite_in_block:
  assumes "i + n \<le> length c" "k + length ys \<le> n"
  shows "overwrite i (overwrite k ys (vslice i n c)) c = overwrite (i + k) ys c"
proof (rule nth_equalityI)
  have len: "length (vslice i n c) = n" using assms(1) by simp
  then have len': "length (overwrite k ys (vslice i n c)) = n" using assms(2) by simp
  show "length (overwrite i (overwrite k ys (vslice i n c)) c) = length (overwrite (i + k) ys c)"
    using assms len' by simp
  fix j
  assume "j < length (overwrite i (overwrite k ys (vslice i n c)) c)"
  then have j: "j < length c" using assms(1) len' by simp
  show "overwrite i (overwrite k ys (vslice i n c)) c ! j = overwrite (i + k) ys c ! j"
  proof (cases "i \<le> j \<and> j < i + n")
    case True
    then have in_block: "j - i < n" by linarith
    then have "overwrite k ys (vslice i n c) ! (j - i) =
        (if k \<le> j - i \<and> j - i < k + length ys then ys ! (j - i - k) else vslice i n c ! (j - i))"
      using assms(2) len by (intro nth_overwrite) simp_all
    moreover have "vslice i n c ! (j - i) = c ! j" using True assms(1) nth_vslice [OF in_block, of i c] by simp
    moreover have "k \<le> j - i \<and> j - i < k + length ys \<longleftrightarrow> i + k \<le> j \<and> j < i + k + length ys"
      using True by linarith
    ultimately show ?thesis
      using True assms j len' by (simp add: nth_overwrite)
  next
    case False
    then show ?thesis using assms j len' by (simp add: nth_overwrite) linarith
  qed
qed

locale block_device =
  fixes drv :: "'d BlockDriver"
    and content :: "'d \<Rightarrow> byte list"
    and ok :: "'d \<Rightarrow> bool"
  assumes size_pos: "0 < bd_block_size drv"
    and whole_blocks: "ok d \<Longrightarrow> bd_block_size drv dvd length (content d)"
    and read_in: "ok d \<Longrightarrow> Suc i * bd_block_size drv \<le> length (content d) \<Longrightarrow>
      \<exists>d'. bd_read drv i (bd_block_size drv) d =
          (Ok (vslice (i * bd_block_size drv) (bd_block_size drv) (content d)), d') \<and>
        ok d' \<and> content d' = content d"
    and addressable: "ok d \<Longrightarrow> length (content d) < 2 ^ 64"
    and read_out: "ok d \<Longrightarrow> length (content d) < Suc i * bd_block_size drv \<Longrightarrow>
      Suc i * bd_block_size drv < 2 ^ 64 \<Longrightarrow>
      \<exists>d' e. bd_read drv i (bd_block_size drv) d = (Err e, d') \<and> ok d' \<and> content d' = content d"
    and write_in: "ok d \<Longrightarrow> Suc i * bd_block_size drv \<le> length (content d) \<Longrightarrow>
      length buf = bd_block_size drv \<Longrightarrow>
      \<exists>d'. bd_write drv i buf d = (Ok (), d') \<and> ok d' \<and>
        content d' = overwrite (i * bd_block_size drv) buf (content d)"
begin

abbreviation bsize :: nat where "bsize \<equiv> bd_block_size drv"

lemma block_of_offset: "x div bsize * bsize + x mod bsize = x" "x mod bsize < bsize"
  using size_pos by simp_all

text \<open>An offset inside the disk lies in a whole block of it.\<close>

lemma block_inside_iff:
  assumes "ok d"
  shows "Suc (x div bsize) * bsize \<le> length (content d) \<longleftrightarrow> x < length (content d)"
proof -
  obtain m where m: "length (content d) = m * bsize"
    using whole_blocks [OF assms] by (metis dvd_def mult.commute)
  have "x < m * bsize \<longleftrightarrow> x div bsize < m" using size_pos by (simp add: less_mult_imp_div_less div_less_iff_less_mult)
  then show ?thesis using size_pos by (simp add: m Suc_le_eq del: mult_Suc)
qed

lemma read_block_at:
  assumes "ok d" "x < length (content d)"
  shows "\<exists>d'. bd_read drv (x div bsize) bsize d =
      (Ok (vslice (x div bsize * bsize) bsize (content d)), d') \<and> ok d' \<and> content d' = content d"
  using read_in [OF assms(1)] block_inside_iff [OF assms(1)] assms(2) by blast

lemma read_block_beyond:
  assumes "ok d" "length (content d) \<le> x" "x + bsize < 2 ^ 64"
  shows "\<exists>d' e. bd_read drv (x div bsize) bsize d = (Err e, d') \<and> ok d' \<and> content d' = content d"
proof -
  have "Suc (x div bsize) * bsize < 2 ^ 64" using assms(3) block_of_offset(1) [of x]
    unfolding mult_Suc by linarith
  then show ?thesis
    using read_out [OF assms(1), of "x div bsize"] block_inside_iff [OF assms(1), of x] assms(2)
    by (auto simp: not_le not_less)
qed

lemma part_of_block:
  assumes "ok d" "x < length (content d)" "n \<le> bsize - x mod bsize"
  shows "vslice (x mod bsize) n (vslice (x div bsize * bsize) bsize (content d)) = vslice x n (content d)"
  using assms(3) block_of_offset [of x] by (simp add: vslice_slice)

lemma write_part_of_block:
  assumes "ok d" "x < length (content d)" "length ys \<le> bsize - x mod bsize"
  shows "\<exists>d'. bd_write drv (x div bsize)
      (overwrite (x mod bsize) ys (vslice (x div bsize * bsize) bsize (content d))) d = (Ok (), d') \<and>
    ok d' \<and> content d' = overwrite x ys (content d)"
proof -
  have inside: "Suc (x div bsize) * bsize \<le> length (content d)"
    using block_inside_iff [OF assms(1)] assms(2) by blast
  have fits: "x mod bsize + length ys \<le> bsize" using assms(3) block_of_offset [of x] by linarith
  let ?buf = "overwrite (x mod bsize) ys (vslice (x div bsize * bsize) bsize (content d))"
  have "length ?buf = bsize" using inside fits by simp
  with write_in [OF assms(1) inside] obtain d' where "bd_write drv (x div bsize) ?buf d = (Ok (), d')"
    "ok d'" "content d' = overwrite (x div bsize * bsize) ?buf (content d)" by blast
  moreover have "overwrite (x div bsize * bsize) ?buf (content d) = overwrite x ys (content d)"
    using overwrite_in_block [OF _ fits, of "x div bsize * bsize" "content d"] inside block_of_offset [of x]
    by simp
  ultimately show ?thesis by auto
qed

end

context block_device
begin

text \<open>The end of the block an offset lies in is inside the disk.\<close>

lemma block_end_inside:
  assumes "ok d" "x < length (content d)"
  shows "x + (bsize - x mod bsize) \<le> length (content d)"
proof -
  have "bsize + x div bsize * bsize \<le> length (content d)"
    using block_inside_iff [OF assms(1), of x] assms(2) by simp
  then show ?thesis using block_of_offset [of x] by linarith
qed

lemma read_offset_loop_in:
  assumes "ok d" "got \<le> len" "length buf = len" "offset + len \<le> length (content d)"
  shows "\<exists>d'. read_offset_loop drv offset len got buf d =
      (Ok (take got buf @ vslice (offset + got) (len - got) (content d)), d') \<and>
    ok d' \<and> content d' = content d"
  using assms
proof (induction "len - got" arbitrary: got buf d rule: less_induct)
  case less
  show ?case
  proof (cases "len \<le> got")
    case True
    then show ?thesis using less.prems by (simp add: read_offset_loop.simps [of drv offset])
  next
    case False
    define n where "n = min (len - got) (bsize - (offset + got) mod bsize)"
    have inside: "offset + got < length (content d)" using False less.prems(4) by linarith
    obtain d1 where d1: "bd_read drv ((offset + got) div bsize) bsize d =
        (Ok (vslice ((offset + got) div bsize * bsize) bsize (content d)), d1)"
      "ok d1" "content d1 = content d"
      using read_block_at [OF less.prems(1) inside] by blast
    let ?buf = "overwrite got (vslice (offset + got) n (content d)) buf"
    have n: "n \<le> bsize - (offset + got) mod bsize" "n \<le> len - got" by (simp_all add: n_def)
    have len: "length (vslice (offset + got) n (content d)) = n" using n(2) less.prems(4) False by simp
    have step: "read_offset_loop drv offset len got buf d =
        read_offset_loop drv offset len (got + n) ?buf d1"
      using False size_pos d1(1) part_of_block [OF less.prems(1) inside n(1)]
      usize_id [OF less_trans [OF inside addressable [OF less.prems(1)]]]
      by (simp add: read_offset_loop.simps [of drv offset len got] Let_def n_def)
    have "take (got + n) ?buf = take got buf @ vslice (offset + got) n (content d)"
      using less.prems(2,3) n(2) len by (simp add: overwrite_def)
    moreover have "vslice (offset + got) (len - got) (content d) =
        vslice (offset + got) n (content d) @ vslice (offset + (got + n)) (len - (got + n)) (content d)"
      using vslice_append_adjacent [of "offset + got" n "len - (got + n)" "content d"] n(2) False
      by (simp add: add.assoc)
    moreover have "len - (got + n) < len - got"
      using block_progress [OF size_pos, of got len "offset + got"] False by (simp add: n_def)
    ultimately show ?thesis
      using less.hyps [of "got + n" d1 ?buf] less.prems d1 n(2) len False step by simp
  qed
qed

lemma read_offset_loop_out:
  assumes "ok d" "got < len" "length (content d) < offset + len" "offset + len + bsize \<le> 2 ^ 64"
  shows "\<exists>d'. read_offset_loop drv offset len got buf d = (Ok (replicate len 0), d') \<and>
    ok d' \<and> content d' = content d"
  using assms
proof (induction "len - got" arbitrary: got buf d rule: less_induct)
  case less
  show ?case
  proof (cases "offset + got < length (content d)")
    case False
    then obtain d1 e where "bd_read drv ((offset + got) div bsize) bsize d = (Err e, d1)"
      "ok d1" "content d1 = content d"
      using read_block_beyond [OF less.prems(1), of "offset + got"] less.prems(2,4) by auto
    moreover have "usize (offset + got) = offset + got" using less.prems(2,4) by simp
    ultimately show ?thesis using less.prems(2) size_pos
      by (simp add: read_offset_loop.simps [of drv offset len got])
  next
    case True
    define n where "n = min (len - got) (bsize - (offset + got) mod bsize)"
    obtain d1 where d1: "bd_read drv ((offset + got) div bsize) bsize d =
        (Ok (vslice ((offset + got) div bsize * bsize) bsize (content d)), d1)"
      "ok d1" "content d1 = content d"
      using read_block_at [OF less.prems(1) True] by blast
    have "len - (got + n) < len - got"
      using block_progress [OF size_pos less.prems(2)] by (simp add: n_def)
    moreover have "got + n < len"
      using block_end_inside [OF less.prems(1) True] less.prems(2,3) by (simp add: n_def min_def)
    moreover have "usize (offset + got) = offset + got" using less.prems(2,4) by simp
    ultimately show ?thesis
      using less.hyps [of "got + n" d1] d1 less.prems size_pos
      by (simp add: read_offset_loop.simps [of drv offset len got] Let_def n_def)
  qed
qed

lemma write_offset_loop_content:
  assumes "ok d" "written \<le> length data" "offset + length data + bsize \<le> 2 ^ 64"
  shows "\<exists>d'. write_offset_loop drv offset data written d = (Ok (), d') \<and> ok d' \<and>
    content d' = overwrite (offset + written)
      (take (length (content d) - (offset + written)) (drop written data)) (content d)"
  using assms
proof (induction "length data - written" arbitrary: written d rule: less_induct)
  case less
  let ?x = "offset + written"
  have word: "usize ?x = ?x" if "written < length data" using that less.prems(3) by simp
  consider (finished) "length data \<le> written"
    | (beyond) "written < length data" "length (content d) \<le> ?x"
    | (inside) "written < length data" "?x < length (content d)" by linarith
  then show ?case
  proof cases
    case finished
    then show ?thesis using less.prems by (simp add: write_offset_loop.simps [of drv offset])
  next
    case beyond
    then obtain d1 e where "bd_read drv (?x div bsize) bsize d = (Err e, d1)" "ok d1" "content d1 = content d"
      using read_block_beyond [OF less.prems(1) beyond(2)] less.prems(3) by auto
    then show ?thesis using beyond size_pos word
      by (simp add: write_offset_loop.simps [of drv offset data written])
  next
    case inside
    define n where "n = min (length data - written) (bsize - ?x mod bsize)"
    define xs where "xs = vslice written n data"
    have xs: "length xs = n" "n \<le> bsize - ?x mod bsize" by (simp_all add: xs_def n_def)
    obtain d1 where d1: "bd_read drv (?x div bsize) bsize d =
        (Ok (vslice (?x div bsize * bsize) bsize (content d)), d1)" "ok d1" "content d1 = content d"
      using read_block_at [OF less.prems(1) inside(2)] by blast
    obtain d2 where d2: "bd_write drv (?x div bsize)
        (overwrite (?x mod bsize) xs (vslice (?x div bsize * bsize) bsize (content d))) d1 = (Ok (), d2)"
      "ok d2" "content d2 = overwrite ?x xs (content d)"
      using write_part_of_block [OF d1(2), of ?x xs] inside(2) xs d1(3) by auto
    have room: "?x + n \<le> length (content d)"
      using block_end_inside [OF less.prems(1) inside(2)] xs(2) by linarith
    have step: "write_offset_loop drv offset data written d = write_offset_loop drv offset data (written + n) d2"
      using inside size_pos d1(1) d2(1) word
      by (simp add: write_offset_loop.simps [of drv offset data written] Let_def n_def xs_def)
    have smaller: "length data - (written + n) < length data - written"
      using block_progress [OF size_pos inside(1)] by (simp add: n_def)
    have written: "written + n \<le> length data" using inside(1) by (simp add: n_def)
    obtain d' where d': "write_offset_loop drv offset data (written + n) d2 = (Ok (), d')" "ok d'"
      "content d' = overwrite (?x + n) (take (length (content d) - (?x + n)) (drop (written + n) data))
        (overwrite ?x xs (content d))"
      using less.hyps [OF smaller d2(2)] written less.prems(3) d2(3) room xs(1) by (auto simp: add.assoc)
    have "xs @ take (length (content d) - (?x + n)) (drop (written + n) data) =
        take (length (content d) - ?x) (drop written data)"
      using room take_add [of n "length (content d) - (?x + n)" "drop written data"]
      by (simp add: xs_def vslice_def add.commute)
    then have "content d' = overwrite ?x (take (length (content d) - ?x) (drop written data)) (content d)"
      using d'(3) overwrite_overwrite_adjacent
        [of ?x xs "take (length (content d) - (?x + n)) (drop (written + n) data)" "content d"] room xs(1)
      by simp
    with d'(1,2) step show ?thesis by auto
  qed
qed

end

context block_device
begin

text \<open>The operations of the two adapters on a flat array of bytes.\<close>

lemma read_offset_bytes:
  assumes "ok d" "offset + max 1024 bsize + bsize \<le> 2 ^ 64"
  shows "\<exists>d'. read_offset drv offset d =
      (Ok (let len = (if offset = 1024 then 1024 else bsize) in
           if offset + len \<le> length (content d) then vslice offset len (content d) else replicate len 0), d') \<and>
    ok d' \<and> content d' = content d"
proof -
  define len where "len = (if offset = 1024 then 1024 else bsize)"
  have "0 < len" "offset + len + bsize \<le> 2 ^ 64" using size_pos assms(2) by (simp_all add: len_def max_def split: if_splits)
  then show ?thesis
    using read_offset_loop_in [OF assms(1), of 0 len "replicate len 0" offset]
      read_offset_loop_out [OF assms(1), of 0 len offset "replicate len 0"]
    by (simp add: read_offset_def len_def [symmetric] Let_def not_le)
qed

lemma write_offset_bytes:
  assumes "ok d" "offset + length data + bsize \<le> 2 ^ 64"
  shows "\<exists>d'. write_offset drv offset data d = (Ok (), d') \<and> ok d' \<and>
    content d' = overwrite offset (take (length (content d) - offset) data) (content d)"
  using write_offset_loop_content [OF assms(1), of 0 data offset] assms(2) by (simp add: write_offset_def)

lemma dev_read_at_bytes:
  assumes "ok d" "offset < length (content d) \<or> offset + bsize < 2 ^ 64"
  shows "\<exists>d'. dev_read_at drv offset n d =
      (if offset < length (content d) then Ok (vslice offset (min n (bsize - offset mod bsize)) (content d))
       else Err (), d') \<and> ok d' \<and> content d' = content d"
proof (cases "offset < length (content d)")
  case True
  then show ?thesis
    using read_block_at [OF assms(1) True] part_of_block [OF assms(1) True, of "min n (bsize - offset mod bsize)"] size_pos
    by (auto simp: dev_read_at_def act_bind_def act_map_err_def act_ret_def Let_def)
next
  case False
  then obtain d' e where "bd_read drv (offset div bsize) bsize d = (Err e, d')" "ok d'" "content d' = content d"
    using read_block_beyond [OF assms(1), of offset] assms(2) by auto
  with False size_pos show ?thesis by (simp add: dev_read_at_def act_bind_def act_map_err_def Let_def)
qed

lemma dev_write_at_bytes:
  assumes "ok d" "offset < length (content d) \<or> offset + bsize < 2 ^ 64"
  shows "\<exists>d'. dev_write_at drv offset buf d =
      (if offset < length (content d) then Ok (min (length buf) (bsize - offset mod bsize)) else Err (), d') \<and>
    ok d' \<and> content d' = (if offset < length (content d)
      then overwrite offset (take (bsize - offset mod bsize) buf) (content d) else content d)"
proof (cases "offset < length (content d)")
  case True
  let ?ys = "take (min (length buf) (bsize - offset mod bsize)) buf"
  obtain d1 where d1: "bd_read drv (offset div bsize) bsize d =
      (Ok (vslice (offset div bsize * bsize) bsize (content d)), d1)" "ok d1" "content d1 = content d"
    using read_block_at [OF assms(1) True] by blast
  obtain d2 where d2: "bd_write drv (offset div bsize)
      (overwrite (offset mod bsize) ?ys (vslice (offset div bsize * bsize) bsize (content d))) d1 = (Ok (), d2)"
    "ok d2" "content d2 = overwrite offset ?ys (content d)"
    using write_part_of_block [OF d1(2), of offset ?ys] True d1(3) by auto
  have "?ys = take (bsize - offset mod bsize) buf" by (simp add: min_def)
  with True size_pos d1(1) d2 show ?thesis
    by (simp add: dev_write_at_def act_bind_def act_map_err_def act_ret_def Let_def)
next
  case False
  then obtain d' e where "bd_read drv (offset div bsize) bsize d = (Err e, d')" "ok d'" "content d' = content d"
    using read_block_beyond [OF assms(1), of offset] assms(2) by auto
  with False size_pos show ?thesis by (simp add: dev_write_at_def act_bind_def act_map_err_def Let_def)
qed

end

section \<open>The disk in memory\<close>

definition rd_ok :: "RamDisk \<Rightarrow> bool" where
  "rd_ok d = (length (rd_data d) = rd_size d \<and> BLOCK_SIZE dvd rd_size d \<and> rd_size d < 2 ^ 64)"

lemma block_range:
  assumes "Suc i * BLOCK_SIZE < 2 ^ 64"
  shows "usize (i * BLOCK_SIZE) = i * BLOCK_SIZE" "usize (i * BLOCK_SIZE + BLOCK_SIZE) = i * BLOCK_SIZE + BLOCK_SIZE"
  using assms by (simp_all add: add.commute)

interpretation ramdisk: block_device ramdisk_driver rd_data rd_ok
proof
  show "0 < bd_block_size ramdisk_driver" by (simp add: ramdisk_driver_def BLOCK_SIZE_def)
next
  fix d :: RamDisk and i and buf :: "byte list"
  assume ok: "rd_ok d"
  show "bd_block_size ramdisk_driver dvd length (rd_data d)" "length (rd_data d) < 2 ^ 64"
    using ok by (simp_all add: rd_ok_def ramdisk_driver_def)
  show "\<exists>d' e. bd_read ramdisk_driver i (bd_block_size ramdisk_driver) d = (Err e, d') \<and> rd_ok d' \<and>
      rd_data d' = rd_data d"
    if "length (rd_data d) < Suc i * bd_block_size ramdisk_driver" "Suc i * bd_block_size ramdisk_driver < 2 ^ 64"
    using that ok block_range [of i] by (simp add: ramdisk_driver_def rd_read_block_def rd_ok_def Let_def add.commute)
  assume inside: "Suc i * bd_block_size ramdisk_driver \<le> length (rd_data d)"
  then have word: "Suc i * BLOCK_SIZE < 2 ^ 64" using ok by (simp add: ramdisk_driver_def rd_ok_def)
  show "\<exists>d'. bd_read ramdisk_driver i (bd_block_size ramdisk_driver) d =
      (Ok (vslice (i * bd_block_size ramdisk_driver) (bd_block_size ramdisk_driver) (rd_data d)), d') \<and>
      rd_ok d' \<and> rd_data d' = rd_data d"
    using inside ok block_range [OF word]
    by (simp add: ramdisk_driver_def rd_read_block_def rd_ok_def Let_def add.commute)
  assume "length buf = bd_block_size ramdisk_driver"
  then show "\<exists>d'. bd_write ramdisk_driver i buf d = (Ok (), d') \<and> rd_ok d' \<and>
      rd_data d' = overwrite (i * bd_block_size ramdisk_driver) buf (rd_data d)"
    using inside ok block_range [OF word]
    by (simp add: ramdisk_driver_def rd_write_block_def rd_ok_def Let_def add.commute)
qed

lemma unat_align_up:
  assumes "unat x \<le> 2 ^ 64 - 4096"
  shows "unat (align_up x) = 4096 * ((unat x + 4095) div 4096)"
proof -
  have "align_up x = round_up x"
    by (simp add: align_up_def round_up_def page_mask PAGE_SIZE_def mask_eq_exp_minus_1)
  then show ?thesis using unat_round_up [OF assms] by simp
qed

lemma rd_ok_new: "unat size_hint \<le> 2 ^ 64 - 4096 \<Longrightarrow> rd_ok (RamDisk_new size_hint)"
  by (simp add: RamDisk_new_def rd_ok_def Let_def unat_align_up BLOCK_SIZE_def)

end
