(* ===== verification/Disk_Props.thy ===== *)
theory Disk_Props
  imports Block_Device
begin

text \<open>
  What the two disks and their adapters guarantee. The RAM disk under the SFS adapter is a flat
  array of bytes, up to the last block of the address space. The file-backed disk under the ext4
  adapter is one when every transfer of the stream is complete; on any stream that keeps to what
  \<open>Read\<close> and \<open>Write\<close> document, which allows short transfers, bytes may be lost but never moved.
\<close>

section \<open>The disk in a file\<close>

text \<open>A stream over a file: \<open>file\<close> is the content, \<open>pos\<close> the position. A seek sets the position, a
  read returns all that is asked for and there, a write puts the whole buffer at the position.\<close>

definition full_stream :: "'s Stream \<Rightarrow> ('s \<Rightarrow> byte list) \<Rightarrow> ('s \<Rightarrow> nat) \<Rightarrow> bool" where
  "full_stream st file pos =
    ((\<forall>p s. \<exists>s'. s_seek st p s = (Ok (), s') \<and> file s' = file s \<and> pos s' = p) \<and>
     (\<forall>n s. \<exists>s'. s_read st n s = (Ok (vslice (pos s) n (file s)), s') \<and> file s' = file s) \<and>
     (\<forall>bs s. bs \<noteq> [] \<longrightarrow> (\<exists>s'. s_write st bs s = (Ok (length bs), s') \<and>
        file s' = overwrite (pos s) bs (file s @ replicate (pos s - length (file s)) 0))) \<and>
     (\<forall>s. \<exists>s'. s_flush st s = (Ok (), s') \<and> file s' = file s))"

text \<open>The disk is the file, filled up with zeros to whole blocks.\<close>

definition disk_bytes :: "('s \<Rightarrow> byte list) \<Rightarrow> 's StreamDisk \<Rightarrow> byte list" where
  "disk_bytes file d = file (sd_inner d) @ replicate (sd_size d - length (file (sd_inner d))) 0"

definition sd_ok :: "('s \<Rightarrow> byte list) \<Rightarrow> 's StreamDisk \<Rightarrow> bool" where
  "sd_ok file d = (length (file (sd_inner d)) \<le> sd_size d \<and> BLOCK_SIZE dvd sd_size d \<and> sd_size d < 2 ^ 64)"

lemma length_disk_bytes: "sd_ok file d \<Longrightarrow> length (disk_bytes file d) = sd_size d"
  by (simp add: disk_bytes_def sd_ok_def)

lemma vslice_padded:
  assumes "i + n \<le> length xs + k"
  shows "vslice i n xs @ replicate (n - length (vslice i n xs)) z = vslice i n (xs @ replicate k z)"
  using assms by (auto simp: vslice_def min_def)

lemma overwrite_padded:
  assumes "i + length ys \<le> m" "length xs \<le> m"
  shows "overwrite i ys (xs @ replicate (i - length xs) z) @
      replicate (m - length (overwrite i ys (xs @ replicate (i - length xs) z))) z =
    overwrite i ys (xs @ replicate (m - length xs) z)"
proof (cases "length xs \<le> i")
  case True
  then show ?thesis using assms by (simp add: overwrite_def)
next
  case False
  then show ?thesis using assms by (simp add: overwrite_def)
qed

lemma stream_disk_read:
  assumes "full_stream st file pos" "sd_ok file d" "Suc i * BLOCK_SIZE \<le> sd_size d"
  shows "\<exists>d'. sd_read_block st i BLOCK_SIZE d =
      (Ok (vslice (i * BLOCK_SIZE) BLOCK_SIZE (disk_bytes file d)), d') \<and>
    sd_ok file d' \<and> disk_bytes file d' = disk_bytes file d"
proof -
  obtain s1 where s1: "s_seek st (i * BLOCK_SIZE) (sd_inner d) = (Ok (), s1)" "file s1 = file (sd_inner d)"
    "pos s1 = i * BLOCK_SIZE" using assms(1) unfolding full_stream_def by blast
  obtain s2 where s2: "s_read st BLOCK_SIZE s1 = (Ok (vslice (pos s1) BLOCK_SIZE (file s1)), s2)" "file s2 = file s1"
    using assms(1) unfolding full_stream_def by blast
  have "i * BLOCK_SIZE + BLOCK_SIZE \<le> length (file (sd_inner d)) + (sd_size d - length (file (sd_inner d)))"
    using assms(2,3) by (simp add: sd_ok_def)
  moreover have "Suc i * BLOCK_SIZE < 2 ^ 64" using assms(2,3) by (simp add: sd_ok_def)
  ultimately show ?thesis
    using vslice_padded [of "i * BLOCK_SIZE" BLOCK_SIZE "file (sd_inner d)" "sd_size d - length (file (sd_inner d))" 0]
      block_range [of i] assms(2,3) s1 s2
    by (simp add: sd_read_block_def act_bind_def act_get_def on_inner_def act_ret_def disk_bytes_def sd_ok_def
        Let_def add.commute)
qed

lemma stream_disk_write:
  assumes "full_stream st file pos" "sd_ok file d" "Suc i * BLOCK_SIZE \<le> sd_size d" "length buf = BLOCK_SIZE"
  shows "\<exists>d'. sd_write_block st i buf d = (Ok (), d') \<and> sd_ok file d' \<and>
    disk_bytes file d' = overwrite (i * BLOCK_SIZE) buf (disk_bytes file d)"
proof -
  let ?file = "file (sd_inner d)"
  obtain s1 where s1: "s_seek st (i * BLOCK_SIZE) (sd_inner d) = (Ok (), s1)" "file s1 = ?file"
    "pos s1 = i * BLOCK_SIZE" using assms(1) unfolding full_stream_def by blast
  have "buf \<noteq> []" using assms(4) by (auto simp: BLOCK_SIZE_def)
  then obtain s2 where s2: "s_write st buf s1 = (Ok (length buf), s2)"
    "file s2 = overwrite (pos s1) buf (file s1 @ replicate (pos s1 - length (file s1)) 0)"
    using assms(1) unfolding full_stream_def by blast
  obtain s3 where s3: "s_flush st s2 = (Ok (), s3)" "file s3 = file s2"
    using assms(1) unfolding full_stream_def by blast
  have fits: "i * BLOCK_SIZE + length buf \<le> sd_size d" using assms(3,4) by simp
  have word: "Suc i * BLOCK_SIZE < 2 ^ 64" using assms(2,3) by (simp add: sd_ok_def)
  have run: "sd_write_block st i buf d = (Ok (), d\<lparr>sd_inner := s3\<rparr>)"
    using s1(1) s2(1) s3(1) fits assms(4) block_range [OF word]
    by (simp add: sd_write_block_def act_bind_def act_get_def on_inner_def Let_def)
  have len: "length (file s3) \<le> sd_size d"
    using fits assms(2) by (auto simp: s1 s2 s3 sd_ok_def overwrite_def min_def)
  have "disk_bytes file (d\<lparr>sd_inner := s3\<rparr>) = overwrite (i * BLOCK_SIZE) buf (disk_bytes file d)"
    using overwrite_padded [OF fits, of ?file 0] assms(2) by (simp add: disk_bytes_def s1 s2 s3 sd_ok_def)
  with run len show ?thesis using assms(2) by (simp add: sd_ok_def)
qed

lemma stream_disk_is_device:
  assumes "full_stream st file pos"
  shows "block_device (stream_driver st) (disk_bytes file) (sd_ok file)"
proof
  show "0 < bd_block_size (stream_driver st)" by (simp add: stream_driver_def BLOCK_SIZE_def)
next
  fix d :: "'a StreamDisk" and i and buf :: "byte list"
  assume ok: "sd_ok file d"
  note len = length_disk_bytes [OF ok]
  show "bd_block_size (stream_driver st) dvd length (disk_bytes file d)" "length (disk_bytes file d) < 2 ^ 64"
    using ok by (simp_all add: len sd_ok_def stream_driver_def)
  show "\<exists>d' e. bd_read (stream_driver st) i (bd_block_size (stream_driver st)) d = (Err e, d') \<and>
      sd_ok file d' \<and> disk_bytes file d' = disk_bytes file d"
    if "length (disk_bytes file d) < Suc i * bd_block_size (stream_driver st)"
      "Suc i * bd_block_size (stream_driver st) < 2 ^ 64"
    using that ok len block_range [of i]
    by (simp add: stream_driver_def sd_read_block_def act_bind_def act_get_def act_err_def Let_def add.commute)
  assume inside: "Suc i * bd_block_size (stream_driver st) \<le> length (disk_bytes file d)"
  show "\<exists>d'. bd_read (stream_driver st) i (bd_block_size (stream_driver st)) d =
      (Ok (vslice (i * bd_block_size (stream_driver st)) (bd_block_size (stream_driver st)) (disk_bytes file d)), d') \<and>
      sd_ok file d' \<and> disk_bytes file d' = disk_bytes file d"
    using stream_disk_read [OF assms ok, of i] inside len by (simp add: stream_driver_def)
  assume "length buf = bd_block_size (stream_driver st)"
  then show "\<exists>d'. bd_write (stream_driver st) i buf d = (Ok (), d') \<and> sd_ok file d' \<and>
      disk_bytes file d' = overwrite (i * bd_block_size (stream_driver st)) buf (disk_bytes file d)"
    using stream_disk_write [OF assms ok, of i buf] inside len by (simp add: stream_driver_def)
qed

text \<open>A stream held in memory: content and position.\<close>

definition mem_stream :: "(byte list \<times> nat) Stream" where
  "mem_stream =
    \<lparr>s_seek = (\<lambda>p s. (Ok (), fst s, p)),
     s_read = (\<lambda>n s. (Ok (vslice (snd s) n (fst s)), s)),
     s_write = (\<lambda>bs s. (Ok (length bs), if bs = [] then s
       else (overwrite (snd s) bs (fst s @ replicate (snd s - length (fst s)) 0), snd s))),
     s_flush = (\<lambda>s. (Ok (), s))\<rparr>"

lemma mem_stream_full: "full_stream mem_stream fst snd"
  by (simp add: full_stream_def mem_stream_def)

section \<open>Short transfers\<close>

text \<open>What \<open>Read\<close>, \<open>Write\<close> and \<open>Seek\<close> document: a read gives a prefix of the bytes that are there,
  which may be shorter than what was asked for; a write takes a prefix of the buffer and reports its
  length; any call may fail, and then no bytes were written.\<close>

definition stream_contract :: "'s Stream \<Rightarrow> ('s \<Rightarrow> byte list) \<Rightarrow> ('s \<Rightarrow> nat) \<Rightarrow> bool" where
  "stream_contract st file pos =
    ((\<forall>p s r s'. s_seek st p s = (r, s') \<longrightarrow>
        r \<noteq> Panic \<and> file s' = file s \<and> (r = Ok () \<longrightarrow> pos s' = p)) \<and>
     (\<forall>n s r s'. s_read st n s = (r, s') \<longrightarrow>
        r \<noteq> Panic \<and> file s' = file s \<and> (\<forall>bs. r = Ok bs \<longrightarrow> prefix bs (vslice (pos s) n (file s)))) \<and>
     (\<forall>bs s r s'. s_write st bs s = (r, s') \<longrightarrow>
        r \<noteq> Panic \<and> (\<exists>k\<le>length bs. file s' = (if k = 0 then file s
          else overwrite (pos s) (take k bs) (file s @ replicate (pos s - length (file s)) 0)))) \<and>
     (\<forall>s r s'. s_flush st s = (r, s') \<longrightarrow> r \<noteq> Panic \<and> file s' = file s))"

text \<open>A byte that may have been lost: the right one or zero.\<close>

definition right_or_zero :: "byte list \<Rightarrow> nat \<Rightarrow> byte \<Rightarrow> bool" where
  "right_or_zero disk j b = (b = 0 \<or> j < length disk \<and> b = disk ! j)"

lemma on_inner_result:
  "on_inner m d = (r, d') \<longleftrightarrow> (\<exists>q s. m (sd_inner d) = (q, s) \<and> r = map_err (\<lambda>_. DevIo) q \<and> d' = d\<lparr>sd_inner := s\<rparr>)"
  by (auto simp: on_inner_def split: prod.splits)

lemma same_disk:
  assumes "file s = file (sd_inner d)"
  shows "disk_bytes file (d\<lparr>sd_inner := s\<rparr>) = disk_bytes file d" "sd_ok file (d\<lparr>sd_inner := s\<rparr>) = sd_ok file d"
  using assms by (simp_all add: disk_bytes_def sd_ok_def)

lemma written_disk:
  assumes "sd_ok file d" "p + length ys \<le> sd_size d"
    and "file s = overwrite p ys (file (sd_inner d) @ replicate (p - length (file (sd_inner d))) 0)"
  shows "sd_ok file (d\<lparr>sd_inner := s\<rparr>) \<and> disk_bytes file (d\<lparr>sd_inner := s\<rparr>) = overwrite p ys (disk_bytes file d)"
proof -
  have "length (file s) \<le> sd_size d" using assms by (auto simp: sd_ok_def overwrite_def min_def)
  then show ?thesis
    using overwrite_padded [OF assms(2), of "file (sd_inner d)" 0] assms(1,3)
    by (simp add: disk_bytes_def sd_ok_def)
qed

lemma short_read_bytes:
  assumes "prefix bs (vslice i n xs)" "k < n"
  shows "right_or_zero (xs @ replicate m 0) (i + k) ((bs @ replicate (n - length bs) 0) ! k)"
proof (cases "k < length bs")
  case True
  then have "bs ! k = vslice i n xs ! k" using assms(1) by (auto simp: prefix_def nth_append)
  moreover have "i + k < length xs" using True prefix_length_le [OF assms(1)] by simp linarith
  ultimately show ?thesis using True assms(2) by (simp add: right_or_zero_def nth_append nth_vslice)
next
  case False
  then show ?thesis using assms(2) by (simp add: right_or_zero_def nth_append)
qed

lemma block_read_bytes:
  assumes st: "stream_contract st file pos" and ok: "sd_ok file d" and word: "Suc i * BLOCK_SIZE < 2 ^ 64"
    and run: "sd_read_block st i BLOCK_SIZE d = (r, d')"
  shows "r \<noteq> Panic \<and> sd_ok file d' \<and> sd_size d' = sd_size d \<and> disk_bytes file d' = disk_bytes file d \<and>
    (\<forall>block. r = Ok block \<longrightarrow> length block = BLOCK_SIZE \<and> Suc i * BLOCK_SIZE \<le> sd_size d \<and>
      (\<forall>k<BLOCK_SIZE. right_or_zero (disk_bytes file d) (i * BLOCK_SIZE + k) (block ! k)))"
proof (cases "sd_size d < i * BLOCK_SIZE + BLOCK_SIZE")
  case True
  then show ?thesis using run ok block_range [OF word]
    by (auto simp: sd_read_block_def act_bind_def act_get_def act_err_def Let_def)
next
  case False
  obtain q1 s1 where s1: "s_seek st (i * BLOCK_SIZE) (sd_inner d) = (q1, s1)" by (rule prod.exhaust)
  obtain q2 s2 where s2: "s_read st BLOCK_SIZE s1 = (q2, s2)" by (rule prod.exhaust)
  have c1: "q1 \<noteq> Panic" "file s1 = file (sd_inner d)" "q1 = Ok () \<longrightarrow> pos s1 = i * BLOCK_SIZE"
    and c2: "q2 \<noteq> Panic" "file s2 = file s1" "\<forall>bs. q2 = Ok bs \<longrightarrow> prefix bs (vslice (pos s1) BLOCK_SIZE (file s1))"
    using st s1 s2 unfolding stream_contract_def by blast+
  have run': "(case q1 of Ok _ \<Rightarrow> (case q2 of
        Ok bs \<Rightarrow> (Ok (bs @ replicate (BLOCK_SIZE - length bs) 0), d\<lparr>sd_inner := s2\<rparr>)
      | Err e \<Rightarrow> (Err DevIo, d\<lparr>sd_inner := s2\<rparr>) | Panic \<Rightarrow> (Panic, d\<lparr>sd_inner := s2\<rparr>))
    | Err e \<Rightarrow> (Err DevIo, d\<lparr>sd_inner := s1\<rparr>) | Panic \<Rightarrow> (Panic, d\<lparr>sd_inner := s1\<rparr>)) = (r, d')"
    using run False s1 s2 block_range [OF word]
    by (cases q1; cases q2) (simp_all add: sd_read_block_def act_bind_def act_get_def act_ret_def on_inner_def Let_def)
  have same: "sd_ok file d' \<and> sd_size d' = sd_size d \<and> disk_bytes file d' = disk_bytes file d" "r \<noteq> Panic"
    using run' c1(1,2) c2(1,2) same_disk [of "file" s1 d] same_disk [of "file" s2 d] ok by (auto split: res.splits)
  have "length block = BLOCK_SIZE \<and> (\<forall>k<BLOCK_SIZE. right_or_zero (disk_bytes file d) (i * BLOCK_SIZE + k) (block ! k))"
    if "r = Ok block" for block
  proof -
    from that run' obtain bs where bs: "q1 = Ok ()" "q2 = Ok bs" "block = bs @ replicate (BLOCK_SIZE - length bs) 0"
      by (auto split: res.splits)
    then have pre: "prefix bs (vslice (i * BLOCK_SIZE) BLOCK_SIZE (file (sd_inner d)))" using c1 c2 by simp
    from prefix_length_le [OF this] have "length bs \<le> BLOCK_SIZE" by (auto simp: vslice_def)
    then show ?thesis using short_read_bytes [OF pre] by (simp add: bs(3) disk_bytes_def)
  qed
  with same False show ?thesis by auto
qed

lemma block_write_bytes:
  assumes st: "stream_contract st file pos" and ok: "sd_ok file d" and word: "Suc i * BLOCK_SIZE < 2 ^ 64"
    and len: "length buf = BLOCK_SIZE" and run: "sd_write_block st i buf d = (r, d')"
  shows "r \<noteq> Panic \<and> sd_ok file d' \<and> sd_size d' = sd_size d \<and>
    (\<forall>j < sd_size d. disk_bytes file d' ! j = disk_bytes file d ! j \<or>
      i * BLOCK_SIZE \<le> j \<and> j < i * BLOCK_SIZE + BLOCK_SIZE \<and> disk_bytes file d' ! j = buf ! (j - i * BLOCK_SIZE))"
proof (cases "sd_size d < i * BLOCK_SIZE + BLOCK_SIZE")
  case True
  then show ?thesis using run ok len block_range [OF word]
    by (auto simp: sd_write_block_def act_bind_def act_get_def act_err_def Let_def)
next
  case False
  obtain q1 s1 where s1: "s_seek st (i * BLOCK_SIZE) (sd_inner d) = (q1, s1)" by (rule prod.exhaust)
  obtain q2 s2 where s2: "s_write st buf s1 = (q2, s2)" by (rule prod.exhaust)
  obtain q3 s3 where s3: "s_flush st s2 = (q3, s3)" by (rule prod.exhaust)
  have c1: "q1 \<noteq> Panic" "file s1 = file (sd_inner d)" "q1 = Ok () \<longrightarrow> pos s1 = i * BLOCK_SIZE"
    and c3: "q3 \<noteq> Panic" "file s3 = file s2" using st s1 s3 unfolding stream_contract_def by blast+
  obtain k where c2: "q2 \<noteq> Panic" "k \<le> length buf" "file s2 = (if k = 0 then file s1
      else overwrite (pos s1) (take k buf) (file s1 @ replicate (pos s1 - length (file s1)) 0))"
    using st s2 unfolding stream_contract_def by blast
  have run': "(case q1 of Ok _ \<Rightarrow> (case q2 of
        Ok n \<Rightarrow> (map_err (\<lambda>_. DevIo) q3, d\<lparr>sd_inner := s3\<rparr>)
      | Err e \<Rightarrow> (Err DevIo, d\<lparr>sd_inner := s2\<rparr>) | Panic \<Rightarrow> (Panic, d\<lparr>sd_inner := s2\<rparr>))
    | Err e \<Rightarrow> (Err DevIo, d\<lparr>sd_inner := s1\<rparr>) | Panic \<Rightarrow> (Panic, d\<lparr>sd_inner := s1\<rparr>)) = (r, d')"
    using run False len s1 s2 s3 block_range [OF word]
    by (cases q1; cases q2; cases q3) (simp_all add: sd_write_block_def act_bind_def act_get_def on_inner_def Let_def)
  let ?o = "overwrite (i * BLOCK_SIZE) (take k buf) (disk_bytes file d)"
  have good: "sd_ok file (d\<lparr>sd_inner := s\<rparr>) \<and>
      (disk_bytes file (d\<lparr>sd_inner := s\<rparr>) = disk_bytes file d \<or> disk_bytes file (d\<lparr>sd_inner := s\<rparr>) = ?o)"
    if "q1 = Ok ()" "file s = file s2" for s
  proof (cases "k = 0")
    case True
    then show ?thesis using same_disk [of "file" s d] that c1 c2 ok by simp
  next
    case k: False
    show ?thesis
      using written_disk [OF ok, of "i * BLOCK_SIZE" "take k buf" s] that c1 c2(2,3) k len False by simp
  qed
  have main: "sd_ok file d' \<and> (disk_bytes file d' = disk_bytes file d \<or> disk_bytes file d' = ?o) \<and> r \<noteq> Panic \<and>
      sd_size d' = sd_size d"
  proof (cases q1)
    case (Ok u)
    then show ?thesis using run' c2(1) c3 good [of s2] good [of s3] by (cases q3) (auto split: res.splits)
  next
    case (Err e)
    then show ?thesis using run' same_disk [of "file" s1 d] c1(2) ok by auto
  qed (use c1(1) in simp)
  have byte: "\<forall>j < sd_size d. ?o ! j = disk_bytes file d ! j \<or> i * BLOCK_SIZE \<le> j \<and>
      j < i * BLOCK_SIZE + BLOCK_SIZE \<and> ?o ! j = buf ! (j - i * BLOCK_SIZE)"
    using False c2(2) len length_disk_bytes [OF ok] by (auto simp: nth_overwrite)
  show ?thesis using main byte by (elim conjE disjE) simp_all
qed

lemma stream_driver_ops [simp]:
  "bd_read (stream_driver st) = sd_read_block st" "bd_write (stream_driver st) = sd_write_block st"
  "bd_block_size (stream_driver st) = BLOCK_SIZE" "BLOCK_SIZE \<noteq> 0"
  by (simp_all add: stream_driver_def BLOCK_SIZE_def)

lemma read_loop_bytes:
  assumes st: "stream_contract st file pos"
  shows "sd_ok file d \<Longrightarrow> offset + len + BLOCK_SIZE \<le> 2 ^ 64 \<Longrightarrow> length buf = len \<Longrightarrow>
    (\<forall>k<len. right_or_zero (disk_bytes file d) (offset + k) (buf ! k)) \<Longrightarrow>
    \<exists>out d'. read_offset_loop (stream_driver st) offset len got buf d = (Ok out, d') \<and> length out = len \<and>
      disk_bytes file d' = disk_bytes file d \<and>
      (\<forall>k<len. right_or_zero (disk_bytes file d) (offset + k) (out ! k))"
proof (induction "len - got" arbitrary: got buf d rule: less_induct)
  case less
  show ?case
  proof (cases "len \<le> got")
    case True
    then show ?thesis using less.prems by (simp add: read_offset_loop.simps [of "stream_driver st"])
  next
    case False
    let ?x = "offset + got"
    define n where "n = min (len - got) (BLOCK_SIZE - ?x mod BLOCK_SIZE)"
    have x: "usize ?x = ?x" "Suc (?x div BLOCK_SIZE) * BLOCK_SIZE < 2 ^ 64" "?x mod BLOCK_SIZE < BLOCK_SIZE"
      "?x div BLOCK_SIZE * BLOCK_SIZE + ?x mod BLOCK_SIZE = ?x"
      using less.prems(2) False div_mult_mod_eq [of ?x BLOCK_SIZE] by (auto simp: BLOCK_SIZE_def)
    obtain r d1 where rd: "sd_read_block st (?x div BLOCK_SIZE) BLOCK_SIZE d = (r, d1)" by (rule prod.exhaust)
    note blk = block_read_bytes [OF st less.prems(1) x(2) rd]
    show ?thesis
    proof (cases r)
      case (Ok block)
      let ?buf = "overwrite got (vslice (?x mod BLOCK_SIZE) n block) buf"
      have n: "n \<le> len - got" "?x mod BLOCK_SIZE + n \<le> BLOCK_SIZE" using x(3) by (auto simp: n_def)
      have block: "length block = BLOCK_SIZE"
        "\<And>k. k < BLOCK_SIZE \<Longrightarrow> right_or_zero (disk_bytes file d) (?x div BLOCK_SIZE * BLOCK_SIZE + k) (block ! k)"
        using blk Ok by auto
      have fits: "got + n \<le> len" using n(1) False by linarith
      have part: "length (vslice (?x mod BLOCK_SIZE) n block) = n" using n(2) block(1) by simp
      have "right_or_zero (disk_bytes file d) (offset + k) (?buf ! k)" if k: "k < len" for k
      proof (cases "got \<le> k \<and> k < got + n")
        case True
        have "?x mod BLOCK_SIZE + (k - got) < BLOCK_SIZE" using True n(2) by linarith
        moreover have "?x div BLOCK_SIZE * BLOCK_SIZE + (?x mod BLOCK_SIZE + (k - got)) = offset + k"
          using True x(4) by linarith
        moreover have "?buf ! k = vslice (?x mod BLOCK_SIZE) n block ! (k - got)"
          using True k part fits less.prems(3) by (simp add: nth_overwrite)
        moreover have "vslice (?x mod BLOCK_SIZE) n block ! (k - got) = block ! (?x mod BLOCK_SIZE + (k - got))"
          using True n(2) block(1) by (intro nth_vslice) linarith+
        ultimately show ?thesis using block(2) [of "?x mod BLOCK_SIZE + (k - got)"] by simp
      next
        case outside: False
        then have "?buf ! k = buf ! k" using k part fits less.prems(3) by (auto simp: nth_overwrite)
        then show ?thesis using less.prems(4) k by simp
      qed
      moreover have "len - (got + n) < len - got"
        using block_progress [of BLOCK_SIZE got len ?x] False by (simp add: n_def BLOCK_SIZE_def)
      moreover have "length ?buf = len" using n part less.prems(3) False by simp
      ultimately have "\<exists>out d'. read_offset_loop (stream_driver st) offset len (got + n) ?buf d1 = (Ok out, d') \<and>
          length out = len \<and> disk_bytes file d' = disk_bytes file d1 \<and>
          (\<forall>k<len. right_or_zero (disk_bytes file d1) (offset + k) (out ! k))"
        using less.hyps [of "got + n" d1 ?buf] blk less.prems(2) by simp
      moreover have "read_offset_loop (stream_driver st) offset len got buf d =
          read_offset_loop (stream_driver st) offset len (got + n) ?buf d1"
        using False Ok rd x(1)
        by (simp add: read_offset_loop.simps [of "stream_driver st" offset len got] Let_def n_def)
      ultimately show ?thesis using blk by simp
    next
      case (Err e)
      then show ?thesis using False rd x(1) blk
        by (simp add: read_offset_loop.simps [of "stream_driver st" offset len got] Let_def right_or_zero_def)
    qed (use blk in simp)
  qed
qed

text \<open>A stream that gives at most two bytes at a time.\<close>

definition halting_stream :: "(byte list \<times> nat) Stream" where
  "halting_stream = mem_stream\<lparr>s_read := (\<lambda>n s. (Ok (vslice (snd s) (min n 2) (fst s)), s))\<rparr>"

lemma sample_contracts: "stream_contract mem_stream fst snd" "stream_contract halting_stream fst snd"
proof -
  have "\<exists>k\<le>length bs. overwrite p bs (xs @ replicate (p - length xs) 0) = (if k = 0 then xs
      else overwrite p (take k bs) (xs @ replicate (p - length xs) 0))" if "bs \<noteq> []" for bs xs :: "byte list" and p
    using that by (intro exI [of _ "length bs"]) simp
  moreover have "prefix (take 2 xs) (take n xs)" if "\<not> n \<le> 2" for n and xs :: "byte list"
    using take_is_prefix [of 2 "take n xs"] that by simp
  ultimately show "stream_contract mem_stream fst snd" "stream_contract halting_stream fst snd"
    unfolding stream_contract_def halting_stream_def mem_stream_def
    by (auto simp: vslice_def take_is_prefix min_def)
qed

text \<open>What a byte of the disk may be after data was written at an offset.\<close>

definition old_new_or_zero :: "byte list \<Rightarrow> nat \<Rightarrow> byte list \<Rightarrow> nat \<Rightarrow> byte \<Rightarrow> bool" where
  "old_new_or_zero disk offset data j b =
    (b = 0 \<or> b = disk ! j \<or> offset \<le> j \<and> j < offset + length data \<and> b = data ! (j - offset))"

lemma write_step_bytes:
  assumes st: "stream_contract st file pos" and ok: "sd_ok file d"
    and word: "offset + length data + BLOCK_SIZE \<le> 2 ^ 64" and more: "written < length data"
    and disk: "\<forall>j < sd_size d. old_new_or_zero D offset data j (disk_bytes file d ! j)"
    and x: "x = offset + written" and n: "n = min (length data - written) (BLOCK_SIZE - x mod BLOCK_SIZE)"
    and rd: "sd_read_block st (x div BLOCK_SIZE) BLOCK_SIZE d = (Ok block, d1)"
    and wr: "sd_write_block st (x div BLOCK_SIZE) (overwrite (x mod BLOCK_SIZE) (vslice written n data) block) d1 = (r, d2)"
  shows "r \<noteq> Panic \<and> sd_ok file d2 \<and> sd_size d2 = sd_size d \<and>
    (\<forall>j < sd_size d. old_new_or_zero D offset data j (disk_bytes file d2 ! j))"
proof -
  let ?i = "x div BLOCK_SIZE" and ?o = "x mod BLOCK_SIZE"
  let ?buf = "overwrite ?o (vslice written n data) block"
  have i: "Suc ?i * BLOCK_SIZE < 2 ^ 64" "?i * BLOCK_SIZE + ?o = x" "?o < BLOCK_SIZE"
    using word more x div_mult_mod_eq [of x BLOCK_SIZE] by (auto simp: BLOCK_SIZE_def)
  note blk = block_read_bytes [OF st ok i(1) rd, simplified]
  have size: "length (disk_bytes file d) = sd_size d" by (rule length_disk_bytes [OF ok])
  have part: "length (vslice written n data) = n" "?o + n \<le> BLOCK_SIZE" using i(3) by (auto simp: n)
  have len: "length ?buf = BLOCK_SIZE" using blk part by simp
  have new: "old_new_or_zero D offset data (?i * BLOCK_SIZE + k) (?buf ! k)" if k: "k < BLOCK_SIZE" for k
  proof (cases "?o \<le> k \<and> k < ?o + n")
    case True
    have "?buf ! k = vslice written n data ! (k - ?o)" using True k blk part by (simp add: nth_overwrite)
    also have "\<dots> = data ! (written + (k - ?o))" using True by (intro nth_vslice) (auto simp: n)
    finally have "?buf ! k = data ! (written + (k - ?o))" .
    moreover have "?i * BLOCK_SIZE + k - offset = written + (k - ?o)" "offset \<le> ?i * BLOCK_SIZE + k"
      "?i * BLOCK_SIZE + k < offset + length data"
      using True i(2) x n by linarith+
    ultimately show ?thesis unfolding old_new_or_zero_def by metis
  next
    case False
    then have "?buf ! k = block ! k" using k blk part by (auto simp: nth_overwrite)
    moreover have "right_or_zero (disk_bytes file d) (?i * BLOCK_SIZE + k) (block ! k)" using blk k by blast
    ultimately show ?thesis using disk size by (auto simp: right_or_zero_def old_new_or_zero_def)
  qed
  have ok1: "sd_ok file d1" "sd_size d1 = sd_size d" "disk_bytes file d1 = disk_bytes file d" using blk by auto
  note res = block_write_bytes [OF st ok1(1) i(1) len wr, unfolded ok1(2,3)]
  have "old_new_or_zero D offset data j (disk_bytes file d2 ! j)" if "j < sd_size d" for j
  proof (cases "disk_bytes file d2 ! j = disk_bytes file d ! j")
    case True
    then show ?thesis using disk that by simp
  next
    case False
    then have "?i * BLOCK_SIZE \<le> j" "j - ?i * BLOCK_SIZE < BLOCK_SIZE" "disk_bytes file d2 ! j = ?buf ! (j - ?i * BLOCK_SIZE)"
      using res that by auto
    then show ?thesis using new [of "j - ?i * BLOCK_SIZE"] by simp
  qed
  with res show ?thesis by blast
qed

lemma write_loop_bytes:
  assumes st: "stream_contract st file pos" and word: "offset + length data + BLOCK_SIZE \<le> 2 ^ 64"
  shows "sd_ok file d \<Longrightarrow> \<forall>j < sd_size d. old_new_or_zero D offset data j (disk_bytes file d ! j) \<Longrightarrow>
    \<exists>d'. write_offset_loop (stream_driver st) offset data written d = (Ok (), d') \<and> sd_ok file d' \<and>
      sd_size d' = sd_size d \<and> (\<forall>j < sd_size d. old_new_or_zero D offset data j (disk_bytes file d' ! j))"
proof (induction "length data - written" arbitrary: written d rule: less_induct)
  case less
  show ?case
  proof (cases "length data \<le> written")
    case True
    then show ?thesis using less.prems by (simp add: write_offset_loop.simps [of "stream_driver st"])
  next
    case False
    define x where "x = offset + written"
    define n where "n = min (length data - written) (BLOCK_SIZE - x mod BLOCK_SIZE)"
    have x: "usize (offset + written) = x" "Suc (x div BLOCK_SIZE) * BLOCK_SIZE < 2 ^ 64"
      using word False div_mult_mod_eq [of x BLOCK_SIZE] by (auto simp: x_def BLOCK_SIZE_def)
    obtain q d1 where rd: "sd_read_block st (x div BLOCK_SIZE) BLOCK_SIZE d = (q, d1)" by (rule prod.exhaust)
    note blk = block_read_bytes [OF st less.prems(1) x(2) rd]
    show ?thesis
    proof (cases q)
      case (Ok block)
      let ?buf = "overwrite (x mod BLOCK_SIZE) (vslice written n data) block"
      obtain r d2 where wr: "sd_write_block st (x div BLOCK_SIZE) ?buf d1 = (r, d2)" by (rule prod.exhaust)
      note step = write_step_bytes [OF st less.prems(1) word _ less.prems(2) x_def n_def rd [unfolded Ok] wr]
      have loop: "write_offset_loop (stream_driver st) offset data written d =
          (case r of Ok _ \<Rightarrow> write_offset_loop (stream_driver st) offset data (written + n) d2
           | Err _ \<Rightarrow> (Ok (), d2) | Panic \<Rightarrow> (Panic, d2))"
        using False Ok rd wr x(1)
        by (cases r) (simp_all add: write_offset_loop.simps [of "stream_driver st" offset data written] Let_def n_def)
      have "length data - (written + n) < length data - written"
        using block_progress [of BLOCK_SIZE written "length data" x] False by (simp add: n_def BLOCK_SIZE_def)
      from less.hyps [OF this, of d2] step False loop show ?thesis by (cases r) auto
    next
      case (Err e)
      then show ?thesis using False rd x(1) blk less.prems
        by (simp add: write_offset_loop.simps [of "stream_driver st" offset data written] Let_def)
    qed (use blk in simp)
  qed
qed

text \<open>C15: The device that the ext4 file system sees through the block device adapter, on any stream that
  keeps to the contracts of \<open>Read\<close>, \<open>Write\<close> and \<open>Seek\<close>, for offsets that do not wrap around. A read returns
  (1024 bytes at offset 1024, a block's worth elsewhere), each byte being the one of the disk at its
  place or zero, and leaves the disk as it is. A write returns, and leaves each byte of the disk its old
  value, zero, or, inside the range written, the new value: bytes are lost when a transfer is short, since
  the lengths of transfers are ignored, but none is ever put at a wrong place. If every transfer of the
  stream is complete, the disk is exactly a flat array of bytes: a write changes the bytes at the offset
  up to the end of the disk, a read gives them, or only zeros when they do not all lie on the disk.\<close>

theorem ext4_device_is_byte_array:
  assumes "stream_contract st file pos" and "sd_ok file d" and "offset + length data + 8192 \<le> 2 ^ 64"
  shows "(\<exists>out d'. read_offset (stream_driver st) offset d = (Ok out, d') \<and>
      length out = (if offset = 1024 then 1024 else 4096) \<and> disk_bytes file d' = disk_bytes file d \<and>
      (\<forall>k<length out. right_or_zero (disk_bytes file d) (offset + k) (out ! k))) \<and>
    (\<exists>d'. write_offset (stream_driver st) offset data d = (Ok (), d') \<and> sd_ok file d' \<and>
      sd_size d' = sd_size d \<and>
      (\<forall>j < sd_size d. old_new_or_zero (disk_bytes file d) offset data j (disk_bytes file d' ! j))) \<and>
    (full_stream st file pos \<longrightarrow>
      (\<exists>d'. write_offset (stream_driver st) offset data d = (Ok (), d') \<and>
        disk_bytes file d' = overwrite offset (take (sd_size d - offset) data) (disk_bytes file d)) \<and>
      (\<exists>d'. read_offset (stream_driver st) offset d =
        (Ok (let len = (if offset = 1024 then 1024 else 4096) in
           if offset + len \<le> sd_size d then vslice offset len (disk_bytes file d) else replicate len 0), d')))"
proof (intro conjI impI)
  define len where "len = (if offset = 1024 then 1024 else BLOCK_SIZE)"
  have "offset + len + BLOCK_SIZE \<le> 2 ^ 64" using assms(3) by (simp add: len_def BLOCK_SIZE_def)
  from read_loop_bytes [OF assms(1,2) this, of "replicate len 0" 0]
  show "\<exists>out d'. read_offset (stream_driver st) offset d = (Ok out, d') \<and>
      length out = (if offset = 1024 then 1024 else 4096) \<and> disk_bytes file d' = disk_bytes file d \<and>
      (\<forall>k<length out. right_or_zero (disk_bytes file d) (offset + k) (out ! k))"
    by (auto simp: read_offset_def len_def [symmetric] Let_def right_or_zero_def) (auto simp: len_def BLOCK_SIZE_def)
  have word: "offset + length data + BLOCK_SIZE \<le> 2 ^ 64" using assms(3) by (simp add: BLOCK_SIZE_def)
  from write_loop_bytes [OF assms(1) word assms(2), of "disk_bytes file d" 0]
  show "\<exists>d'. write_offset (stream_driver st) offset data d = (Ok (), d') \<and> sd_ok file d' \<and> sd_size d' = sd_size d \<and>
      (\<forall>j < sd_size d. old_new_or_zero (disk_bytes file d) offset data j (disk_bytes file d' ! j))"
    by (simp add: write_offset_def old_new_or_zero_def)
  assume full: "full_stream st file pos"
  note dev = stream_disk_is_device [OF full]
  show "\<exists>d'. write_offset (stream_driver st) offset data d = (Ok (), d') \<and>
      disk_bytes file d' = overwrite offset (take (sd_size d - offset) data) (disk_bytes file d)"
    using block_device.write_offset_bytes [OF dev assms(2), of offset data] word
    by (auto simp: length_disk_bytes [OF assms(2)])
  show "\<exists>d'. read_offset (stream_driver st) offset d =
      (Ok (let len = (if offset = 1024 then 1024 else 4096) in
         if offset + len \<le> sd_size d then vslice offset len (disk_bytes file d) else replicate len 0), d')"
    using block_device.read_offset_bytes [OF dev assms(2), of offset] assms(3)
    by (auto simp: length_disk_bytes [OF assms(2)] BLOCK_SIZE_def)
qed

theorem ext4_device_is_byte_array_witness:
  "(\<exists>d'. write_offset (stream_driver mem_stream) 4095 [7, 8, 9] \<lparr>sd_inner = ([5], 0), sd_size = 4096\<rparr> = (Ok (), d') \<and>
      disk_bytes fst d' = overwrite 4095 [7] (5 # replicate 4095 0)) \<and>
   (\<exists>out d'. read_offset (stream_driver halting_stream) 4095 \<lparr>sd_inner = ([5], 0), sd_size = 4096\<rparr> = (Ok out, d') \<and>
      length out = 4096)"
proof -
  have ok: "sd_ok fst \<lparr>sd_inner = ([5], 0 :: nat), sd_size = 4096\<rparr>" by (simp add: sd_ok_def BLOCK_SIZE_def)
  from ext4_device_is_byte_array [OF sample_contracts(1) ok, of 4095 "[7, 8, 9]"] mem_stream_full
    ext4_device_is_byte_array [OF sample_contracts(2) ok, of 4095 "[]"]
  show ?thesis by (auto simp: disk_bytes_def)
qed

text \<open>a read of the file that returns fewer bytes than a block, which \<open>Read::read\<close> may do at
  any time, is not noticed: the block is reported as read, with zeros for the bytes that were
  not.\<close>

theorem short_read_goes_unnoticed:
  assumes "s_seek st (i * BLOCK_SIZE) (sd_inner d) = (Ok (), s1)" "s_read st BLOCK_SIZE s1 = (Ok bs, s2)"
    and "Suc i * BLOCK_SIZE \<le> sd_size d" "sd_size d < 2 ^ 64" "length bs < BLOCK_SIZE"
  shows "fst (sd_read_block st i BLOCK_SIZE d) = Ok (bs @ replicate (BLOCK_SIZE - length bs) 0)"
  using assms block_range [of i]
  by (simp add: sd_read_block_def act_bind_def act_get_def on_inner_def act_ret_def Let_def add.commute)

theorem short_read_goes_unnoticed_witness:
  "fst (sd_read_block halting_stream 0 BLOCK_SIZE \<lparr>sd_inner = (replicate 4096 1, 0), sd_size = 4096\<rparr>) =
    Ok ([1, 1] @ replicate (BLOCK_SIZE - 2) 0)"
proof -
  let ?d = "\<lparr>sd_inner = (replicate 4096 (1 :: byte), 0 :: nat), sd_size = 4096\<rparr>"
  have "take 2 (replicate 4096 (1 :: byte)) = [1, 1]" by (simp add: numeral_2_eq_2)
  then have "s_read halting_stream BLOCK_SIZE (replicate 4096 1, 0) = (Ok [1, 1], replicate 4096 1, 0)"
    by (simp add: halting_stream_def BLOCK_SIZE_def vslice_def)
  moreover have "s_seek halting_stream (0 * BLOCK_SIZE) (sd_inner ?d) = (Ok (), replicate 4096 1, 0)"
    by (simp add: halting_stream_def mem_stream_def)
  ultimately show ?thesis
    using short_read_goes_unnoticed [of halting_stream 0 ?d "(replicate 4096 1, 0)" "[1, 1]"
        "(replicate 4096 1, 0)"] by (simp add: BLOCK_SIZE_def)
qed

section \<open>The disk in memory\<close>

lemma ramdisk_sizes:
  assumes "rd_ok d"
  shows "bd_block_size ramdisk_driver = 4096" "length (rd_data d) = rd_size d"
  using assms by (simp_all add: ramdisk_driver_def BLOCK_SIZE_def rd_ok_def)

text \<open>The last block of the address space: the end of its range wraps around to 0.\<close>

lemma last_block:
  assumes "2 ^ 64 \<le> offset + 4096" "offset < 2 ^ 64"
  shows "rd_read_block (offset div 4096) BLOCK_SIZE d = (Panic, d)"
proof -
  have "offset div 4096 = 4503599627370495" using assms by (intro div_nat_eqI) simp_all
  then have "usize (offset div 4096 * BLOCK_SIZE) = 18446744073709547520"
    "usize (18446744073709547520 + BLOCK_SIZE) = 0"
    by (simp_all add: usize_def BLOCK_SIZE_def)
  then show ?thesis by (simp add: rd_read_block_def Let_def)
qed

text \<open>C16: the device that SFS sees is the RAM disk as one flat array of bytes, read and written
  up to the end of the block an offset lies in. An offset behind the end is an error that changes
  nothing, except in the last block of the address space: there the check of the driver wraps around
  and the call panics, also without a change.\<close>

theorem sfs_device_is_byte_array:
  assumes "rd_ok d" and "offset < 2 ^ 64"
  shows "(\<exists>d'. dev_read_at ramdisk_driver offset n d =
      (if offset < rd_size d then Ok (vslice offset (min n (4096 - offset mod 4096)) (rd_data d))
       else if offset + 4096 < 2 ^ 64 then Err () else Panic, d') \<and>
      rd_ok d' \<and> rd_data d' = rd_data d) \<and>
    (\<exists>d'. dev_write_at ramdisk_driver offset buf d =
      (if offset < rd_size d then Ok (min (length buf) (4096 - offset mod 4096))
       else if offset + 4096 < 2 ^ 64 then Err () else Panic, d') \<and> rd_ok d' \<and>
      rd_data d' = (if offset < rd_size d then overwrite offset (take (4096 - offset mod 4096) buf) (rd_data d)
        else rd_data d))"
proof (cases "offset < rd_size d \<or> offset + 4096 < 2 ^ 64")
  case True
  with ramdisk.dev_read_at_bytes [OF assms(1), of offset n] ramdisk.dev_write_at_bytes [OF assms(1), of offset buf]
  show ?thesis unfolding ramdisk_sizes [OF assms(1)] by auto
next
  case False
  then have "rd_read_block (offset div 4096) BLOCK_SIZE d = (Panic, d)" using assms(2) by (intro last_block) auto
  then show ?thesis using False assms(1)
    by (simp add: dev_read_at_def dev_write_at_def ramdisk_driver_def BLOCK_SIZE_def act_bind_def act_map_err_def Let_def)
qed

theorem sfs_device_is_byte_array_witness:
  "rd_ok (RamDisk_new 1) \<and>
   (\<exists>d'. dev_write_at ramdisk_driver 4095 [7, 8] (RamDisk_new 1) = (Ok 1, d') \<and>
      rd_data d' = overwrite 4095 [7] (rd_data (RamDisk_new 1))) \<and>
   fst (dev_read_at ramdisk_driver (2 ^ 64 - 1) 1 (RamDisk_new 1)) = Panic"
proof -
  have new: "rd_ok (RamDisk_new 1)" by (rule rd_ok_new) simp
  moreover have "rd_size (RamDisk_new 1) = 4096" by (simp add: RamDisk_new_def unat_align_up Let_def)
  ultimately show ?thesis using sfs_device_is_byte_array [OF new, of 4095 0 "[7, 8]"]
      sfs_device_is_byte_array [OF new, of "2 ^ 64 - 1" 1 "[]"] by auto
qed

end
