(* ===== verification/Vfs_Fdtab.thy ===== *)
theory Vfs_Fdtab
  imports Handle_Table Effects Rust_Fmt Fatfs
begin

text \<open>
  The descriptor services over \<open>rcore-fs\<close>: \<open>common_service/rcorefdtab/src/rc_apis.rs\<close> with
  \<open>img2ramfs.rs\<close> (a RAM file system) and \<open>common_service/rcore_sfsfdtab/src/sfs_apis.rs\<close> with
  \<open>img2sfs.rs\<close> (SFS on a RAM disk). The two files repeat most functions word for word; the
  \<open>sfs_\<close> definitions below say where. The \<open>rcore-fs\<close> crates are a parameter: \<open>'i\<close> is an inode
  (an \<open>Arc\<close>, so a handle), \<open>'w\<close> the state of the mounted file system. Debug output is left out.
\<close>

datatype FsError = InvalidParam | EntryExist | OtherFsError string

record Metadata =
  m_dev :: nat
  m_inode :: nat
  m_nlinks :: nat
  m_mode :: nat
  m_uid :: nat
  m_gid :: nat
  m_rdev :: nat
  m_size :: nat
  m_blk_size :: nat
  m_blocks :: nat
  m_atime :: TimeSpec
  m_mtime :: TimeSpec
  m_ctime :: TimeSpec
  m_type :: u32

record ('w, 'i) Vfs =
  v_new :: "'w \<Rightarrow> 'w"
  v_root :: "'w \<Rightarrow> 'i"
  v_lookup :: "'i \<Rightarrow> string \<Rightarrow> ('w, FsError, 'i) act"
  v_find :: "'i \<Rightarrow> string \<Rightarrow> ('w, FsError, 'i) act"
  v_list :: "'i \<Rightarrow> ('w, FsError, string list) act"
  v_metadata :: "'i \<Rightarrow> ('w, FsError, Metadata) act"
  v_read_at :: "'i \<Rightarrow> nat \<Rightarrow> nat \<Rightarrow> ('w, FsError, byte list) act"
  v_write_at :: "'i \<Rightarrow> nat \<Rightarrow> byte list \<Rightarrow> ('w, FsError, nat) act"
  v_resize :: "'i \<Rightarrow> nat \<Rightarrow> ('w, FsError, unit) act"
  v_create :: "'i \<Rightarrow> string \<Rightarrow> u32 \<Rightarrow> u32 \<Rightarrow> ('w, FsError, 'i) act"
  v_link :: "'i \<Rightarrow> string \<Rightarrow> 'i \<Rightarrow> ('w, FsError, unit) act"
  v_unlink :: "'i \<Rightarrow> string \<Rightarrow> ('w, FsError, unit) act"
  v_move :: "'i \<Rightarrow> string \<Rightarrow> 'i \<Rightarrow> string \<Rightarrow> ('w, FsError, unit) act"
  v_set_metadata :: "'i \<Rightarrow> Metadata \<Rightarrow> ('w, FsError, unit) act"
  v_sync_all :: "'i \<Rightarrow> ('w, FsError, unit) act"
  v_sync_data :: "'i \<Rightarrow> ('w, FsError, unit) act"
  v_poll :: "'i \<Rightarrow> ('w, FsError, bool \<times> bool \<times> bool) act"
  v_stdout :: "byte list \<Rightarrow> 'w \<Rightarrow> nat \<times> 'w"
  ft_File :: u32
  ft_Dir :: u32
  debug_err :: "FsError \<Rightarrow> string"

section \<open>Open files\<close>

record 'i FileWrapper =
  fw_inode :: 'i
  fw_offset :: nat
  fw_readable :: bool
  fw_writable :: bool

definition FileWrapper_new :: "'i \<Rightarrow> bool \<Rightarrow> bool \<Rightarrow> 'i FileWrapper" where
  "FileWrapper_new inode readable writable =
    \<lparr>fw_inode = inode, fw_offset = 0, fw_readable = readable, fw_writable = writable\<rparr>"

text \<open>The methods that take \<open>&mut self\<close> run on the wrapper and the file system.\<close>

definition fw_read ::
  "('w, 'i) Vfs \<Rightarrow> nat \<Rightarrow> ('i FileWrapper \<times> 'w, FsError, byte list) act" where
  "fw_read v buf_len = (\<lambda>(f, w).
    if \<not> fw_readable f then (Err InvalidParam, f, w)
    else case v_read_at v (fw_inode f) (fw_offset f) buf_len w of
      (Ok bs, w') \<Rightarrow> (Ok bs, f\<lparr>fw_offset := fw_offset f + length bs\<rparr>, w')
    | (r, w') \<Rightarrow> (r, f, w'))"

definition fw_write ::
  "('w, 'i) Vfs \<Rightarrow> byte list \<Rightarrow> ('i FileWrapper \<times> 'w, FsError, nat) act" where
  "fw_write v buf = (\<lambda>(f, w).
    if \<not> fw_writable f then (Err InvalidParam, f, w)
    else case v_write_at v (fw_inode f) (fw_offset f) buf w of
      (Ok len, w') \<Rightarrow> (Ok len, f\<lparr>fw_offset := fw_offset f + len\<rparr>, w')
    | (r, w') \<Rightarrow> (r, f, w'))"

definition fw_seek :: "nat \<Rightarrow> ('i FileWrapper \<times> 'w, FsError, unit) act" where
  "fw_seek pos = (\<lambda>(f, w). (Ok (), f\<lparr>fw_offset := pos\<rparr>, w))"

text \<open>\<open>convert\<close>: the casts to 64 and 32 bits truncate, those to signed types reinterpret.\<close>

definition convert :: "Metadata \<Rightarrow> Stat" where
  "convert m =
    \<lparr>st_dev = word_of_nat (m_dev m), st_ino = word_of_nat (m_inode m),
     st_nlink = word_of_nat (m_nlinks m), st_mode = word_of_nat (m_mode m),
     st_uid = word_of_nat (m_uid m), st_gid = word_of_nat (m_gid m), pad0 = 0,
     st_rdev = word_of_nat (m_rdev m), st_size = word_of_nat (m_size m),
     st_blksize = sint (word_of_nat (m_blk_size m) :: u64),
     st_blocks = sint (word_of_nat (m_blocks m) :: u64),
     st_atime = m_atime m, st_mtime = m_mtime m, st_ctime = m_ctime m, st_unused = [0, 0, 0]\<rparr>"

section \<open>State and initialisation\<close>

text \<open>\<open>lazy_static\<close>: a panic of the initialiser poisons it.\<close>

datatype lazy = Unset | Forced | Poisoned

record ('w, 'i) VfsState =
  vfs_table :: "'i FileWrapper fd_map"
  GLOBAL_FS :: bool
  INIT_DONE :: lazy
  vfs :: 'w

type_synonym ('w, 'i, 'a) vfs_act = "(('w, 'i) VfsState, FdtabError, 'a) act"

definition on_vfs :: "('w, FsError, 'a) act \<Rightarrow> (('w, 'i) VfsState, FsError, 'a) act" where
  "on_vfs m = (\<lambda>s. case m (vfs s) of (r, w) \<Rightarrow> (r, s\<lparr>vfs := w\<rparr>))"

text \<open>A \<open>match\<close> on a result: neither branch is left by \<open>?\<close>.\<close>

definition act_match ::
  "('s, 'e, 'a) act \<Rightarrow> ('a \<Rightarrow> ('s, 'g, 'b) act) \<Rightarrow> ('e \<Rightarrow> ('s, 'g, 'b) act) \<Rightarrow> ('s, 'g, 'b) act" where
  "act_match m f g = (\<lambda>s. case m s of
    (Ok a, s') \<Rightarrow> f a s' | (Err e, s') \<Rightarrow> g e s' | (Panic, s') \<Rightarrow> (Panic, s'))"

text \<open>An image as the \<open>fatfs\<close> crate reads it: an entry that cannot be read, a directory, a file
  (its length and its content, unless reading it fails), or something else.\<close>

datatype fat_entry =
    FatBad
  | FatDir string "fat_entry list"
  | FatFile string nat "byte list option"
  | FatOther string

fun entry_name_of :: "fat_entry \<Rightarrow> string" where
  "entry_name_of FatBad = []"
| "entry_name_of (FatDir n es) = n"
| "entry_name_of (FatFile n len c) = n"
| "entry_name_of (FatOther n) = n"

definition dot_entry :: "string \<Rightarrow> bool" where
  "dot_entry name = (name = ''.'' \<or> name = ''..'')"

text \<open>The modes are \<open>0o755\<close> and \<open>0o644\<close>.\<close>

fun unpack_dir_to_ramfs ::
  "('w, 'i) Vfs \<Rightarrow> 'i \<Rightarrow> fat_entry list \<Rightarrow> ('w, unit, unit) act" where
  "unpack_dir_to_ramfs v dir [] = act_ret ()"
| "unpack_dir_to_ramfs v dir (FatBad # es) = unpack_dir_to_ramfs v dir es"
| "unpack_dir_to_ramfs v dir (FatOther n # es) = unpack_dir_to_ramfs v dir es"
| "unpack_dir_to_ramfs v dir (FatDir name sub # es) =
    act_bind
      (if dot_entry name then act_ret ()
       else act_match (v_create v dir name (ft_Dir v) 493)
         (\<lambda>d. unpack_dir_to_ramfs v d sub)
         (\<lambda>e. if e = EntryExist
              then act_match (v_find v dir name) (\<lambda>d. unpack_dir_to_ramfs v d sub) (\<lambda>_. act_ret ())
              else act_ret ()))
      (\<lambda>_. unpack_dir_to_ramfs v dir es)"
| "unpack_dir_to_ramfs v dir (FatFile name len content # es) =
    act_bind
      (if dot_entry name \<or> 100 * 1024 * 1024 < len then act_ret ()
       else act_match (v_create v dir name (ft_File v) 420)
         (\<lambda>f. case content of
            None \<Rightarrow> act_ret ()
          | Some buf \<Rightarrow> act_match (v_write_at v f 0 buf) (\<lambda>_. act_ret ()) (\<lambda>_. act_ret ()))
         (\<lambda>_. act_ret ()))
      (\<lambda>_. unpack_dir_to_ramfs v dir es)"

text \<open>The SFS variant has no size limit and resizes a file before it writes it.\<close>

fun unpack_dir_to_sfs ::
  "('w, 'i) Vfs \<Rightarrow> 'i \<Rightarrow> fat_entry list \<Rightarrow> ('w, unit, unit) act" where
  "unpack_dir_to_sfs v dir [] = act_ret ()"
| "unpack_dir_to_sfs v dir (FatBad # es) = unpack_dir_to_sfs v dir es"
| "unpack_dir_to_sfs v dir (FatOther n # es) = unpack_dir_to_sfs v dir es"
| "unpack_dir_to_sfs v dir (FatDir name sub # es) =
    act_bind
      (if dot_entry name then act_ret ()
       else act_match (v_create v dir name (ft_Dir v) 493)
         (\<lambda>d. unpack_dir_to_sfs v d sub)
         (\<lambda>e. if e = EntryExist
              then act_match (v_find v dir name) (\<lambda>d. unpack_dir_to_sfs v d sub) (\<lambda>_. act_ret ())
              else act_ret ()))
      (\<lambda>_. unpack_dir_to_sfs v dir es)"
| "unpack_dir_to_sfs v dir (FatFile name len content # es) =
    act_bind
      (if dot_entry name then act_ret ()
       else act_match (v_create v dir name (ft_File v) 420)
         (\<lambda>f. case content of
            None \<Rightarrow> act_ret ()
          | Some buf \<Rightarrow>
              act_match (v_resize v f (length buf))
                (\<lambda>_. act_match (v_write_at v f 0 buf) (\<lambda>_. act_ret ()) (\<lambda>_. act_ret ()))
                (\<lambda>_. act_ret ()))
         (\<lambda>_. act_ret ()))
      (\<lambda>_. unpack_dir_to_sfs v dir es)"

text \<open>The bridges: \<open>None\<close> is an image that cannot be opened or parsed.\<close>

definition img_to_ramfs_bridge ::
  "('w, 'i) Vfs \<Rightarrow> 'i \<Rightarrow> fat_entry list option \<Rightarrow> ('w, unit, unit) act" where
  "img_to_ramfs_bridge v root img =
    (case img of None \<Rightarrow> act_ret () | Some es \<Rightarrow> unpack_dir_to_ramfs v root es)"

definition img_to_sfs_bridge ::
  "('w, 'i) Vfs \<Rightarrow> 'i \<Rightarrow> fat_entry list option \<Rightarrow> ('w, unit, unit) act" where
  "img_to_sfs_bridge v root img =
    (case img of None \<Rightarrow> act_ret () | Some es \<Rightarrow> unpack_dir_to_sfs v root es)"

definition in_vfs :: "('w, 'e, 'a) act \<Rightarrow> (('w, 'i) VfsState, 'g, unit) act" where
  "in_vfs m = (\<lambda>s. case m (vfs s) of
    (Panic, w) \<Rightarrow> (Panic, s\<lparr>vfs := w\<rparr>) | (_, w) \<Rightarrow> (Ok (), s\<lparr>vfs := w\<rparr>))"

definition insert_fd :: "Fd \<Rightarrow> 'i FileWrapper \<Rightarrow> (('w, 'i) VfsState, 'e, unit) act" where
  "insert_fd fd f = act_modify (\<lambda>s. s\<lparr>vfs_table :=
    (btree_insert fd f (fst (vfs_table s)), snd (vfs_table s))\<rparr>)"

text \<open>\<open>root.lookup(p).unwrap_or_else(|_| root.clone())\<close>.\<close>

definition lookup_or_root :: "('w, 'i) Vfs \<Rightarrow> 'i \<Rightarrow> string \<Rightarrow> (('w, 'i) VfsState, 'e, 'i) act" where
  "lookup_or_root v root p = act_match (on_vfs (v_lookup v root p)) act_ret (\<lambda>_. act_ret root)"

definition rc_init :: "('w, 'i) Vfs \<Rightarrow> fat_entry list option \<Rightarrow> ('w, 'i, unit) vfs_act" where
  "rc_init v img =
    act_bind (act_modify (\<lambda>s. s\<lparr>vfs := v_new v (vfs s)\<rparr>)) (\<lambda>_.
    act_bind (act_get (\<lambda>s. v_root v (vfs s))) (\<lambda>root.
    act_bind (in_vfs (img_to_ramfs_bridge v root img)) (\<lambda>_.
    act_bind (act_modify (\<lambda>s. s\<lparr>GLOBAL_FS := True\<rparr>)) (\<lambda>_.
    act_bind (lookup_or_root v root ''/dev/stdin'') (\<lambda>stdin_inode.
    act_bind (insert_fd 0 (FileWrapper_new stdin_inode True False)) (\<lambda>_.
    act_bind (lookup_or_root v root ''/dev/stdout'') (\<lambda>stdout_inode.
    act_bind (insert_fd 1 (FileWrapper_new stdout_inode False True)) (\<lambda>_.
    act_bind (lookup_or_root v root ''/dev/stderr'') (\<lambda>stderr_inode.
    insert_fd 2 (FileWrapper_new stderr_inode False True))))))))))"

text \<open>\<open>init\<close> of the SFS service, with the feature \<open>ramdisk\<close>: \<open>mkfs\<close> makes the file system on
  the block device, if the driver found one and \<open>SimpleFileSystem::create\<close> succeeds.\<close>

definition sfs_init ::
  "('w, 'i) Vfs \<Rightarrow> ('w \<Rightarrow> 'w option) \<Rightarrow> fat_entry list option \<Rightarrow> ('w, 'i, unit) vfs_act" where
  "sfs_init v mkfs img = (\<lambda>s.
    case mkfs (vfs s) of
      None \<Rightarrow> (Ok (), s)
    | Some w \<Rightarrow>
        in_vfs (img_to_sfs_bridge v (v_root v w) img) (s\<lparr>GLOBAL_FS := True, vfs := w\<rparr>))"

text \<open>\<open>let _ = *INIT_DONE;\<close>: the first access runs the initialiser.\<close>

definition with_init ::
  "('w, 'i, unit) vfs_act \<Rightarrow> ('w, 'i, 'a) vfs_act \<Rightarrow> ('w, 'i, 'a) vfs_act" where
  "with_init init m = (\<lambda>s.
    case INIT_DONE s of
      Forced \<Rightarrow> m s
    | Poisoned \<Rightarrow> (Panic, s)
    | Unset \<Rightarrow>
        (case init s of
           (Ok _, s') \<Rightarrow> m (s'\<lparr>INIT_DONE := Forced\<rparr>)
         | (_, s') \<Rightarrow> (Panic, s'\<lparr>INIT_DONE := Poisoned\<rparr>)))"

section \<open>Operations\<close>

definition vfs_lookup :: "('w, 'i) VfsState \<Rightarrow> Fd \<Rightarrow> 'i FileWrapper option" where
  "vfs_lookup s fd = fdmap_lookup (vfs_table s) fd"

definition vfs_alloc_fd :: "'i \<Rightarrow> bool \<Rightarrow> bool \<Rightarrow> (('w, 'i) VfsState, 'e, Fd) act" where
  "vfs_alloc_fd inode readable writable = (\<lambda>s.
    case alloc_fd (FileWrapper_new inode readable writable) (vfs_table s) of
      (fd, t) \<Rightarrow> (Ok fd, s\<lparr>vfs_table := t\<rparr>))"

definition root_inode :: "('w, 'i) Vfs \<Rightarrow> ('w, 'i, 'i) vfs_act" where
  "root_inode v = (\<lambda>s.
    if GLOBAL_FS s then (Ok (v_root v (vfs s)), s)
    else (Err (FsErr ''global fs not initialized''), s))"

definition mode_readable :: "OpenMode \<Rightarrow> bool" where
  "mode_readable mode = (flags_contain mode RD \<or> flags_contain mode RDWR)"

definition mode_writable :: "OpenMode \<Rightarrow> bool" where
  "mode_writable mode = (flags_contain mode WR \<or> flags_contain mode RDWR)"

text \<open>The metadata read after a successful lookup is only printed.\<close>

definition rc_open ::
  "('w, 'i) Vfs \<Rightarrow> string \<Rightarrow> OpenFlags \<Rightarrow> OpenMode \<Rightarrow> ('w, 'i, Fd) vfs_act" where
  "rc_open v path flags mode =
    act_bind (root_inode v) (\<lambda>root.
    act_match (on_vfs (v_lookup v root path))
      (\<lambda>inode. act_bind (in_vfs (v_metadata v inode)) (\<lambda>_.
        vfs_alloc_fd inode (mode_readable mode) (mode_writable mode)))
      (\<lambda>_. act_err (FsErr (''file not found: '' @ path))))"

definition trim_start_slashes :: "string \<Rightarrow> string" where
  "trim_start_slashes p = dropWhile (\<lambda>c. c = CHR ''/'') p"

definition sfs_open ::
  "('w, 'i) Vfs \<Rightarrow> string \<Rightarrow> OpenFlags \<Rightarrow> OpenMode \<Rightarrow> ('w, 'i, Fd) vfs_act" where
  "sfs_open v path flags mode =
    act_bind (root_inode v) (\<lambda>root.
    act_match (on_vfs (v_lookup v root path))
      (\<lambda>inode. act_bind (in_vfs (v_metadata v inode)) (\<lambda>_.
        vfs_alloc_fd inode (mode_readable mode) (mode_writable mode)))
      (\<lambda>_. if flags_contain flags O_CREAT
           then act_match (on_vfs (v_create v root (trim_start_slashes path) (ft_File v) 420))
             (\<lambda>inode. vfs_alloc_fd inode (mode_readable mode) (mode_writable mode))
             (\<lambda>e. act_err (FsErr (''create failed: '' @ debug_err v e)))
           else act_err (FsErr ''invalid fd'')))"

text \<open>\<open>fdtab.get_mut(&fd)\<close> and an operation on the wrapper, its error rendered.\<close>

definition on_wrapper ::
  "('w, 'i) Vfs \<Rightarrow> string \<Rightarrow> Fd \<Rightarrow> ('i FileWrapper \<times> 'w, FsError, 'a) act \<Rightarrow> ('w, 'i, 'a) vfs_act" where
  "on_wrapper v what fd m = (\<lambda>s.
    case vfs_lookup s fd of
      None \<Rightarrow> (Err (FsErr ''invalid fd''), s)
    | Some f \<Rightarrow>
        (case m (f, vfs s) of (r, f', w) \<Rightarrow>
          (map_err (\<lambda>e. FsErr (what @ '' failed: '' @ debug_err v e)) r,
           s\<lparr>vfs_table := (btree_insert fd f' (fst (vfs_table s)), snd (vfs_table s)), vfs := w\<rparr>)))"

definition rc_read :: "('w, 'i) Vfs \<Rightarrow> Fd \<Rightarrow> nat \<Rightarrow> ('w, 'i, byte list) vfs_act" where
  "rc_read v fd buf_len = on_wrapper v ''read'' fd (fw_read v buf_len)"

definition rc_write :: "('w, 'i) Vfs \<Rightarrow> Fd \<Rightarrow> byte list \<Rightarrow> ('w, 'i, nat) vfs_act" where
  "rc_write v fd buf =
    (if fd = 1 \<or> fd = 2
     then (\<lambda>s. case v_stdout v buf (vfs s) of (n, w) \<Rightarrow> (Ok n, s\<lparr>vfs := w\<rparr>))
     else on_wrapper v ''write'' fd (fw_write v buf))"

definition rc_close :: "Fd \<Rightarrow> ('w, 'i, unit) vfs_act" where
  "rc_close fd = act_modify (\<lambda>s. s\<lparr>vfs_table := remove_fd fd (vfs_table s)\<rparr>)"

definition rc_lseek :: "('w, 'i) Vfs \<Rightarrow> Fd \<Rightarrow> u32 \<Rightarrow> ('w, 'i, unit) vfs_act" where
  "rc_lseek v fd pos = on_wrapper v ''lseek'' fd (fw_seek (unat pos))"

definition rc_stat :: "('w, 'i) Vfs \<Rightarrow> Fd \<Rightarrow> ('w, 'i, Stat) vfs_act" where
  "rc_stat v fd = (\<lambda>s.
    case vfs_lookup s fd of
      None \<Rightarrow> (Err (FsErr ''invalid fd''), s)
    | Some f \<Rightarrow>
        act_match (on_vfs (v_metadata v (fw_inode f))) (\<lambda>m. act_ret (convert m))
          (\<lambda>e. act_err (FsErr (''stat failed: '' @ debug_err v e))) s)"

text \<open>The entries of a directory: those that cannot be found or have no metadata are left out.\<close>

fun dir_entries ::
  "('w, 'i) Vfs \<Rightarrow> string \<Rightarrow> 'i \<Rightarrow> string list \<Rightarrow> ('w, FdtabError, DirEntry list) act" where
  "dir_entries v path dir [] = act_ret []"
| "dir_entries v path dir (name # names) =
    act_bind
      (act_match (v_find v dir name)
        (\<lambda>child. act_match (v_metadata v child)
          (\<lambda>m. act_ret [\<lparr>dir_path = path, entry_name = name, entry_type = m_type m\<rparr>])
          (\<lambda>_. act_ret []))
        (\<lambda>_. act_ret []))
      (\<lambda>es. act_bind (dir_entries v path dir names) (\<lambda>rest. act_ret (es @ rest)))"

definition lift_vfs :: "('w, FdtabError, 'a) act \<Rightarrow> ('w, 'i, 'a) vfs_act" where
  "lift_vfs m = (\<lambda>s. case m (vfs s) of (r, w) \<Rightarrow> (r, s\<lparr>vfs := w\<rparr>))"

definition rc_readdir :: "('w, 'i) Vfs \<Rightarrow> string \<Rightarrow> ('w, 'i, DirEntry list) vfs_act" where
  "rc_readdir v path =
    (let failed = (\<lambda>e. act_err (FsErr (''readdir failed: '' @ debug_err v e))) in
     act_bind (root_inode v) (\<lambda>root.
     act_match
       (on_vfs (if path \<noteq> [] \<and> hd path = CHR ''/'' then v_lookup v root path else v_find v root path))
       (\<lambda>dir. act_match (on_vfs (v_list v dir)) (\<lambda>names. lift_vfs (dir_entries v path dir names)) failed)
       failed))"

text \<open>A call that takes the table's lock while its caller holds it spins forever.\<close>

datatype 'a spin = Done 'a | Spins

definition locked_alloc_fd ::
  "bool \<Rightarrow> 'i \<Rightarrow> bool \<Rightarrow> bool \<Rightarrow> ('w, 'i) VfsState \<Rightarrow> Fd spin \<times> ('w, 'i) VfsState" where
  "locked_alloc_fd held inode readable writable s =
    (if held then (Spins, s)
     else case alloc_fd (FileWrapper_new inode readable writable) (vfs_table s) of
       (fd, t) \<Rightarrow> (Done fd, s\<lparr>vfs_table := t\<rparr>))"

text \<open>\<open>create\<close>: the guard \<open>fdtab\<close> lives to the end of the function.\<close>

definition rc_create ::
  "('w, 'i) Vfs \<Rightarrow> nat \<Rightarrow> string \<Rightarrow> u32 \<Rightarrow> u32 \<Rightarrow> ('w, 'i, (Fd option) spin) vfs_act" where
  "rc_create v parent_fd name ftype mode = (\<lambda>s.
    case vfs_lookup s (word_of_nat parent_fd) of
      None \<Rightarrow> (Ok (Done None), s)
    | Some parent \<Rightarrow>
        act_match (on_vfs (v_metadata v (fw_inode parent)))
          (\<lambda>meta.
            if m_type meta \<noteq> ft_Dir v then act_ret (Done None)
            else act_match (on_vfs (v_create v (fw_inode parent) name ftype mode))
              (\<lambda>inode s1. case locked_alloc_fd True inode True True s1 of
                 (Spins, s2) \<Rightarrow> (Ok Spins, s2)
               | (Done fd, s2) \<Rightarrow> (Ok (Done (Some fd)), s2))
              (\<lambda>_. act_ret (Done None)))
          (\<lambda>_. act_ret (Done None)) s)"

text \<open>\<open>true\<close> iff the file is open and the operation on its inode succeeds.\<close>

definition inode_ok ::
  "nat \<Rightarrow> ('i \<Rightarrow> ('w, FsError, 'a) act) \<Rightarrow> ('w, 'i, bool) vfs_act" where
  "inode_ok fd f = (\<lambda>s.
    case vfs_lookup s (word_of_nat fd) of
      None \<Rightarrow> (Ok False, s)
    | Some fw \<Rightarrow> act_match (on_vfs (f (fw_inode fw))) (\<lambda>_. act_ret True) (\<lambda>_. act_ret False) s)"

definition rc_link :: "('w, 'i) Vfs \<Rightarrow> nat \<Rightarrow> string \<Rightarrow> nat \<Rightarrow> ('w, 'i, bool) vfs_act" where
  "rc_link v parent_fd name target_fd = (\<lambda>s.
    case (vfs_lookup s (word_of_nat parent_fd), vfs_lookup s (word_of_nat target_fd)) of
      (Some parent, Some target) \<Rightarrow>
        act_match (on_vfs (v_link v (fw_inode parent) name (fw_inode target)))
          (\<lambda>_. act_ret True) (\<lambda>_. act_ret False) s
    | _ \<Rightarrow> (Ok False, s))"

definition rc_unlink :: "('w, 'i) Vfs \<Rightarrow> nat \<Rightarrow> string \<Rightarrow> ('w, 'i, bool) vfs_act" where
  "rc_unlink v parent_fd name = inode_ok parent_fd (\<lambda>i. v_unlink v i name)"

text \<open>\<open>rename\<close> asks the new parent to move the entry named by the old file's inode number.\<close>

definition rc_rename :: "('w, 'i) Vfs \<Rightarrow> nat \<Rightarrow> nat \<Rightarrow> string \<Rightarrow> ('w, 'i, bool) vfs_act" where
  "rc_rename v old_fd new_parent_fd new_name = (\<lambda>s.
    case (vfs_lookup s (word_of_nat old_fd), vfs_lookup s (word_of_nat new_parent_fd)) of
      (Some old, Some new_parent) \<Rightarrow>
        act_match (on_vfs (v_metadata v (fw_inode old)))
          (\<lambda>meta. act_match
            (on_vfs (v_move v (fw_inode new_parent) (to_string (m_inode meta)) (fw_inode new_parent) new_name))
            (\<lambda>_. act_ret True) (\<lambda>_. act_ret False))
          (\<lambda>_. act_ret False) s
    | _ \<Rightarrow> (Ok False, s))"

definition rc_set_metadata :: "('w, 'i) Vfs \<Rightarrow> nat \<Rightarrow> Metadata \<Rightarrow> ('w, 'i, bool) vfs_act" where
  "rc_set_metadata v fd meta = inode_ok fd (\<lambda>i. v_set_metadata v i meta)"

definition rc_flush :: "('w, 'i) Vfs \<Rightarrow> nat \<Rightarrow> ('w, 'i, bool) vfs_act" where
  "rc_flush v fd = inode_ok fd (v_sync_all v)"

definition rc_sync :: "('w, 'i) Vfs \<Rightarrow> nat \<Rightarrow> ('w, 'i, bool) vfs_act" where
  "rc_sync v fd = inode_ok fd (v_sync_data v)"

definition rc_poll ::
  "('w, 'i) Vfs \<Rightarrow> nat \<Rightarrow> ('w, 'i, (bool \<times> bool \<times> bool) option) vfs_act" where
  "rc_poll v fd = (\<lambda>s.
    case vfs_lookup s (word_of_nat fd) of
      None \<Rightarrow> (Ok None, s)
    | Some fw \<Rightarrow>
        act_match (on_vfs (v_poll v (fw_inode fw))) (\<lambda>p. act_ret (Some p)) (\<lambda>_. act_ret None) s)"

definition rc_set_nonblocking :: "nat \<Rightarrow> bool \<Rightarrow> bool" where
  "rc_set_nonblocking fd nonblocking = True"

section \<open>The SFS service\<close>

text \<open>These functions of \<open>sfs_apis.rs\<close> have the text of their counterparts in \<open>rc_apis.rs\<close>.\<close>

definition sfs_convert :: "Metadata \<Rightarrow> Stat" where
  "sfs_convert = convert"

definition sfs_read :: "('w, 'i) Vfs \<Rightarrow> Fd \<Rightarrow> nat \<Rightarrow> ('w, 'i, byte list) vfs_act" where
  "sfs_read = rc_read"

definition sfs_write :: "('w, 'i) Vfs \<Rightarrow> Fd \<Rightarrow> byte list \<Rightarrow> ('w, 'i, nat) vfs_act" where
  "sfs_write = rc_write"

definition sfs_close :: "Fd \<Rightarrow> ('w, 'i, unit) vfs_act" where
  "sfs_close = rc_close"

definition sfs_lseek :: "('w, 'i) Vfs \<Rightarrow> Fd \<Rightarrow> u32 \<Rightarrow> ('w, 'i, unit) vfs_act" where
  "sfs_lseek = rc_lseek"

definition sfs_stat :: "('w, 'i) Vfs \<Rightarrow> Fd \<Rightarrow> ('w, 'i, Stat) vfs_act" where
  "sfs_stat = rc_stat"

definition sfs_readdir :: "('w, 'i) Vfs \<Rightarrow> string \<Rightarrow> ('w, 'i, DirEntry list) vfs_act" where
  "sfs_readdir = rc_readdir"

definition sfs_create ::
  "('w, 'i) Vfs \<Rightarrow> nat \<Rightarrow> string \<Rightarrow> u32 \<Rightarrow> u32 \<Rightarrow> ('w, 'i, (Fd option) spin) vfs_act" where
  "sfs_create = rc_create"

definition sfs_link :: "('w, 'i) Vfs \<Rightarrow> nat \<Rightarrow> string \<Rightarrow> nat \<Rightarrow> ('w, 'i, bool) vfs_act" where
  "sfs_link = rc_link"

definition sfs_unlink :: "('w, 'i) Vfs \<Rightarrow> nat \<Rightarrow> string \<Rightarrow> ('w, 'i, bool) vfs_act" where
  "sfs_unlink = rc_unlink"

definition sfs_rename :: "('w, 'i) Vfs \<Rightarrow> nat \<Rightarrow> nat \<Rightarrow> string \<Rightarrow> ('w, 'i, bool) vfs_act" where
  "sfs_rename = rc_rename"

definition sfs_set_metadata :: "('w, 'i) Vfs \<Rightarrow> nat \<Rightarrow> Metadata \<Rightarrow> ('w, 'i, bool) vfs_act" where
  "sfs_set_metadata = rc_set_metadata"

definition sfs_flush :: "('w, 'i) Vfs \<Rightarrow> nat \<Rightarrow> ('w, 'i, bool) vfs_act" where
  "sfs_flush = rc_flush"

definition sfs_sync :: "('w, 'i) Vfs \<Rightarrow> nat \<Rightarrow> ('w, 'i, bool) vfs_act" where
  "sfs_sync = rc_sync"

definition sfs_poll ::
  "('w, 'i) Vfs \<Rightarrow> nat \<Rightarrow> ('w, 'i, (bool \<times> bool \<times> bool) option) vfs_act" where
  "sfs_poll = rc_poll"

section \<open>A descriptor is a cursor into a file\<close>

datatype file_op = RdFile nat | WrFile "byte list" | SkFile u32

datatype file_res = GotBytes "byte list" | GotSize nat | GotUnit

definition rc_file_op :: "('w, 'i) Vfs \<Rightarrow> Fd \<Rightarrow> file_op \<Rightarrow> ('w, 'i, file_res) vfs_act" where
  "rc_file_op v fd op =
    (case op of
       RdFile n \<Rightarrow> act_bind (rc_read v fd n) (\<lambda>bs. act_ret (GotBytes bs))
     | WrFile bs \<Rightarrow> act_bind (rc_write v fd bs) (\<lambda>n. act_ret (GotSize n))
     | SkFile pos \<Rightarrow> act_bind (rc_lseek v fd pos) (\<lambda>_. act_ret GotUnit))"

definition pad_zero :: "nat \<Rightarrow> byte list \<Rightarrow> byte list" where
  "pad_zero n xs = xs @ replicate (n - length xs) 0"

text \<open>The specification: a byte array and a position.\<close>

fun cursor_step :: "file_op \<Rightarrow> byte list \<times> nat \<Rightarrow> file_res \<times> byte list \<times> nat" where
  "cursor_step (RdFile n) (c, off) = (GotBytes (vslice off n c), c, off + length (vslice off n c))"
| "cursor_step (WrFile bs) (c, off) =
    (GotSize (length bs), overwrite off bs (pad_zero off c), off + length bs)"
| "cursor_step (SkFile pos) (c, off) = (GotUnit, c, unat pos)"

fun cursor_run :: "file_op list \<Rightarrow> byte list \<times> nat \<Rightarrow> file_res list \<times> byte list \<times> nat" where
  "cursor_run [] st = ([], st)"
| "cursor_run (op # ops) st =
    (case cursor_step op st of (x, st1) \<Rightarrow> (case cursor_run ops st1 of (xs, st2) \<Rightarrow> (x # xs, st2)))"

text \<open>What the file system is documented to do for a file's content: a read returns the bytes
  at the offset, as many as there are; a write puts the buffer there, extending the file with
  zeros if the offset is behind its end, and leaves other files alone.\<close>

definition stores_files :: "('w, 'i) Vfs \<Rightarrow> ('w \<Rightarrow> 'i \<Rightarrow> byte list) \<Rightarrow> bool" where
  "stores_files v content =
    ((\<forall>i off n w. v_read_at v i off n w = (Ok (vslice off n (content w i)), w)) \<and>
     (\<forall>i off bs w. \<exists>w'. v_write_at v i off bs w = (Ok (length bs), w') \<and>
        content w' = (content w)(i := overwrite off bs (pad_zero off (content w i)))))"

lemma vfs_lookup_set:
  assumes "btree_ok (fst t)"
  shows "fdmap_lookup (btree_insert fd f (fst t), n) = (fdmap_lookup t)(fd \<mapsto> f)"
  using assms by (auto simp: fdmap_lookup_def btree.get_insert fun_eq_iff)

lemma rc_file_op_step:
  assumes "stores_files v content" "btree_ok (fst (vfs_table s))" "vfs_lookup s fd = Some f"
    and "fw_readable f" "fw_writable f" "fd \<noteq> 1" "fd \<noteq> 2"
    and "cursor_step op (content (vfs s) (fw_inode f), fw_offset f) = (x, c', off')"
  shows "\<exists>s'. rc_file_op v fd op s = (Ok x, s') \<and> btree_ok (fst (vfs_table s')) \<and>
    vfs_lookup s' = (vfs_lookup s)(fd \<mapsto> f\<lparr>fw_offset := off'\<rparr>) \<and>
    content (vfs s') = (content (vfs s))(fw_inode f := c')"
proof -
  have tab: "btree_ok (btree_insert fd f' (fst (vfs_table s)))"
    "fdmap_lookup (btree_insert fd f' (fst (vfs_table s)), snd (vfs_table s)) = (vfs_lookup s)(fd \<mapsto> f')"
    for f'
    using btree.ok_insert [OF assms(2)] vfs_lookup_set [OF assms(2)]
    by (auto simp: vfs_lookup_def [abs_def])
  show ?thesis
  proof (cases op)
    case (RdFile n)
    then show ?thesis using assms tab
      by (auto simp: rc_file_op_def act_bind_def act_ret_def rc_read_def on_wrapper_def fw_read_def
          stores_files_def vfs_lookup_def [abs_def])
  next
    case (WrFile bs)
    obtain w' where w': "v_write_at v (fw_inode f) (fw_offset f) bs (vfs s) = (Ok (length bs), w')"
      "content w' = (content (vfs s))(fw_inode f :=
        overwrite (fw_offset f) bs (pad_zero (fw_offset f) (content (vfs s) (fw_inode f))))"
      using assms(1) unfolding stores_files_def by blast
    show ?thesis using WrFile assms w' tab
      by (auto simp: rc_file_op_def act_bind_def act_ret_def rc_write_def on_wrapper_def fw_write_def
          vfs_lookup_def [abs_def])
  next
    case (SkFile pos)
    then show ?thesis using assms tab
      by (auto simp: rc_file_op_def act_bind_def act_ret_def rc_lseek_def on_wrapper_def fw_seek_def
          vfs_lookup_def [abs_def])
  qed
qed

lemma rc_file_ops_run:
  assumes "stores_files v content" "btree_ok (fst (vfs_table s))" "vfs_lookup s fd = Some f"
    and "fw_readable f" "fw_writable f" "fd \<noteq> 1" "fd \<noteq> 2"
    and "cursor_run ops (content (vfs s) (fw_inode f), fw_offset f) = (xs, c', off')"
  shows "\<exists>s'. act_collect (rc_file_op v fd) ops s = (Ok xs, s') \<and>
    vfs_lookup s' = (vfs_lookup s)(fd \<mapsto> f\<lparr>fw_offset := off'\<rparr>) \<and>
    content (vfs s') = (content (vfs s))(fw_inode f := c')"
  using assms(2-)
proof (induction ops arbitrary: s f xs)
  case Nil
  then have "(vfs_lookup s)(fd \<mapsto> f) = vfs_lookup s" by (auto simp: fun_eq_iff)
  with Nil show ?case by (auto simp: act_ret_def)
next
  case (Cons op ops)
  obtain x c1 off1 where st: "cursor_step op (content (vfs s) (fw_inode f), fw_offset f) = (x, c1, off1)"
    by (metis prod_cases3)
  obtain ys where run: "cursor_run ops (c1, off1) = (ys, c', off')" "xs = x # ys"
    using Cons.prems(7) st by (auto split: prod.splits)
  obtain s1 where s1: "rc_file_op v fd op s = (Ok x, s1)" "btree_ok (fst (vfs_table s1))"
    "vfs_lookup s1 = (vfs_lookup s)(fd \<mapsto> f\<lparr>fw_offset := off1\<rparr>)"
    "content (vfs s1) = (content (vfs s))(fw_inode f := c1)"
    using rc_file_op_step [OF assms(1) Cons.prems(1-6) st] by blast
  have "vfs_lookup s1 fd = Some (f\<lparr>fw_offset := off1\<rparr>)" "content (vfs s1) (fw_inode f) = c1"
    using s1(3,4) by simp_all
  with Cons.IH [of s1 "f\<lparr>fw_offset := off1\<rparr>" ys] Cons.prems s1(2) run(1)
  obtain s' where "act_collect (rc_file_op v fd) ops s1 = (Ok ys, s')"
    "vfs_lookup s' = (vfs_lookup s1)(fd \<mapsto> f\<lparr>fw_offset := off'\<rparr>)"
    "content (vfs s') = (content (vfs s1))(fw_inode f := c')" by (auto simp del: fun_upd_apply)
  then show ?case using s1 run(2) by (simp add: act_bind_def act_ret_def del: fun_upd_apply)
qed

text \<open>C14: a descriptor open for reading and writing behaves as a cursor into the file's bytes.
  Any sequence of reads, writes and seeks succeeds with the results of the byte-array
  specification and leaves that array as the file's content; other descriptors keep their
  positions and other files their contents.\<close>

theorem rc_descriptor_is_cursor:
  assumes "stores_files v content" "btree_ok (fst (vfs_table s))" "vfs_lookup s fd = Some f"
    and "fw_readable f" "fw_writable f" "fd \<noteq> 1" "fd \<noteq> 2"
    and "cursor_run ops (content (vfs s) (fw_inode f), fw_offset f) = (xs, c', off')"
  shows "\<exists>s'. act_collect (rc_file_op v fd) ops s = (Ok xs, s') \<and>
    vfs_lookup s' = (vfs_lookup s)(fd \<mapsto> f\<lparr>fw_offset := off'\<rparr>) \<and>
    content (vfs s') = (content (vfs s))(fw_inode f := c')"
  by (rule rc_file_ops_run [OF assms])

text \<open>A file system whose inodes are numbers, with their contents in an association list.\<close>

definition toy_content :: "(nat \<times> byte list) list \<Rightarrow> nat \<Rightarrow> byte list" where
  "toy_content w i = (case map_of w i of Some c \<Rightarrow> c | None \<Rightarrow> [])"

definition toy_meta :: Metadata where
  "toy_meta = \<lparr>m_dev = 0, m_inode = 17, m_nlinks = 1, m_mode = 0, m_uid = 0, m_gid = 0, m_rdev = 0,
    m_size = 0, m_blk_size = 0, m_blocks = 0, m_atime = \<lparr>tv_sec = 0, tv_nsec = 0\<rparr>,
    m_mtime = \<lparr>tv_sec = 0, tv_nsec = 0\<rparr>, m_ctime = \<lparr>tv_sec = 0, tv_nsec = 0\<rparr>, m_type = 2\<rparr>"

definition toy_write :: "nat \<Rightarrow> nat \<Rightarrow> byte list \<Rightarrow> ((nat \<times> byte list) list, FsError, nat) act" where
  "toy_write i off bs = (\<lambda>w.
    (Ok (length bs), (i, overwrite off bs (pad_zero off (toy_content w i))) # w))"

definition toy_move :: "nat \<Rightarrow> string \<Rightarrow> nat \<Rightarrow> string \<Rightarrow> ((nat \<times> byte list) list, FsError, unit) act" where
  "toy_move i old j new = (\<lambda>w. if old = ''a.txt'' then (Ok (), w) else (Err (OtherFsError ''none''), w))"

definition toy_vfs :: "((nat \<times> byte list) list, nat) Vfs" where
  "toy_vfs =
    \<lparr>v_new = (\<lambda>w. []), v_root = (\<lambda>w. 0), v_lookup = (\<lambda>i p w. (Err (OtherFsError p), w)),
     v_find = (\<lambda>i p w. (Err (OtherFsError p), w)), v_list = (\<lambda>i w. (Ok [], w)),
     v_metadata = (\<lambda>i w. (Ok toy_meta, w)),
     v_read_at = (\<lambda>i off n w. (Ok (vslice off n (toy_content w i)), w)), v_write_at = toy_write,
     v_resize = (\<lambda>i n w. (Ok (), w)), v_create = (\<lambda>i p t m w. (Ok 5, w)),
     v_link = (\<lambda>i p j w. (Ok (), w)), v_unlink = (\<lambda>i p w. (Ok (), w)), v_move = toy_move,
     v_set_metadata = (\<lambda>i m w. (Ok (), w)), v_sync_all = (\<lambda>i w. (Ok (), w)),
     v_sync_data = (\<lambda>i w. (Ok (), w)), v_poll = (\<lambda>i w. (Ok (True, True, False), w)),
     v_stdout = (\<lambda>bs w. (length bs, w)), ft_File = 1, ft_Dir = 2, debug_err = (\<lambda>e. ''e'')\<rparr>"

definition toy_state :: "((nat \<times> byte list) list, nat) VfsState" where
  "toy_state = \<lparr>vfs_table = ([(3, FileWrapper_new 7 True True)], 4), GLOBAL_FS = True,
    INIT_DONE = Forced, vfs = []\<rparr>"

lemma toy_stores_files: "stores_files toy_vfs toy_content"
proof -
  have "toy_content ((i, c) # w) = (toy_content w)(i := c)" for i c w
    by (auto simp: toy_content_def fun_eq_iff)
  then show ?thesis by (simp add: stores_files_def toy_vfs_def toy_write_def)
qed

theorem rc_descriptor_is_cursor_witness:
  "\<exists>s'. act_collect (rc_file_op toy_vfs 3) [SkFile 1, WrFile [8, 9], SkFile 0, RdFile 9] toy_state =
      (Ok [GotUnit, GotSize 2, GotUnit, GotBytes [0, 8, 9]], s') \<and>
    toy_content (vfs s') 7 = [0, 8, 9]"
proof -
  have lookup: "vfs_lookup toy_state 3 = Some (FileWrapper_new 7 True True)"
    and table: "btree_ok (fst (vfs_table toy_state))"
    by (simp_all add: toy_state_def vfs_lookup_def fdmap_lookup_def btree_get_def btree_ok_def)
  have run: "cursor_run [SkFile 1, WrFile [8, 9], SkFile 0, RdFile 9]
      (toy_content (vfs toy_state) (fw_inode (FileWrapper_new 7 True True)),
       fw_offset (FileWrapper_new 7 True True)) =
      ([GotUnit, GotSize 2, GotUnit, GotBytes [0, 8, 9]], [0, 8, 9], 3)"
    by (simp add: FileWrapper_new_def toy_state_def toy_content_def pad_zero_def overwrite_def vslice_def)
  from rc_descriptor_is_cursor [OF toy_stores_files table lookup _ _ _ _ run]
  show ?thesis by (auto simp: FileWrapper_new_def)
qed

section \<open>Creating and renaming\<close>

text \<open>\<open>create\<close> never hands out a descriptor. When the parent is an open directory and the
  file system creates the entry, \<open>alloc_fd\<close> waits for the table's lock, which \<open>create\<close> itself
  holds, and the call never returns.\<close>

theorem rc_create_never_succeeds:
  "fst (rc_create v parent_fd name ftype mode s) \<noteq> Ok (Done (Some fd)) \<and>
   (vfs_lookup s (word_of_nat parent_fd) = Some parent \<and>
    v_metadata v (fw_inode parent) (vfs s) = (Ok meta, w) \<and> m_type meta = ft_Dir v \<and>
    v_create v (fw_inode parent) name ftype mode w = (Ok inode, w') \<longrightarrow>
    fst (rc_create v parent_fd name ftype mode s) = Ok Spins)"
  by (auto simp: rc_create_def act_match_def on_vfs_def act_ret_def locked_alloc_fd_def
      split: option.splits prod.splits res.splits)

theorem rc_create_never_succeeds_witness:
  "fst (rc_create toy_vfs 3 ''new'' 1 0 toy_state) = Ok Spins"
  using rc_create_never_succeeds [of toy_vfs 3 "''new''" 1 0 toy_state 0 "FileWrapper_new 7 True True"
    toy_meta "[]" 5 "[]"]
  by (simp add: toy_state_def toy_vfs_def toy_meta_def vfs_lookup_def fdmap_lookup_def btree_get_def
      FileWrapper_new_def)

text \<open>\<open>rename\<close> does not move the file it is given: it asks the new parent for an entry named
  by the decimal inode number. Where no entry has such a name, so that moving it fails, every
  rename fails, the file's own name and parent playing no role.\<close>

theorem rc_rename_uses_inode_number:
  assumes "vfs_lookup s (word_of_nat old_fd) = Some old" "vfs_lookup s (word_of_nat dir_fd) = Some dir"
    and "v_metadata v (fw_inode old) (vfs s) = (Ok meta, w)"
    and "\<And>name. list_all is_ascii_digit name \<Longrightarrow>
      \<exists>e w'. v_move v (fw_inode dir) name (fw_inode dir) new_name w = (Err e, w')"
  shows "fst (rc_rename v old_fd dir_fd new_name s) = Ok False"
proof -
  have "\<exists>e w'. v_move v (fw_inode dir) (to_string (m_inode meta)) (fw_inode dir) new_name w = (Err e, w')"
    by (rule assms(4)) (auto simp: list_all_iff to_string_digits)
  with assms(1-3) show ?thesis
    by (auto simp: rc_rename_def act_match_def on_vfs_def act_ret_def)
qed

theorem rc_rename_uses_inode_number_witness:
  "fst (toy_move 7 ''a.txt'' 7 ''b.txt'' []) = Ok () \<and>
    fst (rc_rename toy_vfs 3 3 ''b.txt'' toy_state) = Ok False"
proof -
  have lookup: "vfs_lookup toy_state (word_of_nat 3) = Some (FileWrapper_new 7 True True)"
    by (simp add: toy_state_def vfs_lookup_def fdmap_lookup_def btree_get_def)
  have meta: "v_metadata toy_vfs (fw_inode (FileWrapper_new 7 True True)) (vfs toy_state) = (Ok toy_meta, [])"
    by (simp add: toy_vfs_def toy_state_def)
  have "\<exists>e w'. v_move toy_vfs i name i ''b.txt'' [] = (Err e, w')" if "list_all is_ascii_digit name" for i name
    using that by (auto simp: toy_vfs_def toy_move_def is_ascii_digit_def)
  from rc_rename_uses_inode_number [OF lookup lookup meta this] show ?thesis by (simp add: toy_move_def)
qed

end
