(* ===== verification/Ext4_Fdtab.thy ===== *)
theory Ext4_Fdtab
  imports Disk_Props Vfs_Fdtab
begin

text \<open>
  The descriptor service over ext4 (\<open>common_service/ext4fdtab/src/ext4_apis.rs\<close>) and the device
  containers it gets its disk from (\<open>ramdisk/ramdriver\<close>). The \<open>ext4_rs\<close> crate is a parameter: \<open>'w\<close>
  is the mounted file system, \<open>'r\<close> an inode reference, which is a copy of the inode.
\<close>

section \<open>Device containers\<close>

text \<open>The static device model: a container holds at most one device, the first one pushed.\<close>

type_synonym 'd AxDeviceContainer = "'d option"

definition container_len :: "'d AxDeviceContainer \<Rightarrow> nat" where
  "container_len c = (if c = None then 0 else 1)"

definition container_push :: "'d \<Rightarrow> 'd AxDeviceContainer \<Rightarrow> 'd AxDeviceContainer" where
  "container_push dev c = (if c = None then Some dev else c)"

definition take_one :: "'d AxDeviceContainer \<Rightarrow> 'd option \<times> 'd AxDeviceContainer" where
  "take_one c = (c, None)"

text \<open>\<open>probe\<close> asks every registered driver, here the RAM disk driver alone; \<open>init_drivers\<close> starts
  from empty containers.\<close>

definition probe :: "(unit, 'd option) res \<Rightarrow> 'd AxDeviceContainer \<Rightarrow> (unit, 'd AxDeviceContainer) res" where
  "probe found c =
    bind_res found (\<lambda>dev. Ok (case dev of Some d \<Rightarrow> container_push d c | None \<Rightarrow> c))"

definition init_drivers :: "(unit, 'd option) res \<Rightarrow> (unit, 'd AxDeviceContainer) res" where
  "init_drivers found = probe found None"

definition ext4_probe_global :: "u64 option \<Rightarrow> 's option \<Rightarrow> (unit, 's StreamDisk option) res" where
  "ext4_probe_global image_len image_file = map_ok Some (StreamDisk_new image_len image_file)"

definition sfs_probe_global :: "u64 option \<Rightarrow> (unit, RamDisk option) res" where
  "sfs_probe_global image_len = (case image_len of Some n \<Rightarrow> Ok (Some (RamDisk_new n)) | None \<Rightarrow> Panic)"

section \<open>Open files\<close>

record LinuxStat =
  ls_dev :: nat
  ls_ino :: nat
  ls_nlink :: nat
  ls_mode :: nat
  ls_uid :: nat
  ls_gid :: nat
  ls_rdev :: nat
  ls_size :: nat
  ls_blksize :: nat
  ls_blocks :: nat
  ls_atime :: TimeSpec
  ls_mtime :: TimeSpec
  ls_ctime :: TimeSpec

record ('w, 'r) Ext4 =
  e_mount :: "'w \<Rightarrow> 'w"
  e_file_open :: "string \<Rightarrow> string \<Rightarrow> ('w, string, u32) act"
  e_inode_ref :: "u32 \<Rightarrow> 'w \<Rightarrow> 'r"
  e_inode_num :: "'r \<Rightarrow> u32"
  e_from_inode_ref :: "'r \<Rightarrow> LinuxStat"
  e_read_at :: "u32 \<Rightarrow> nat \<Rightarrow> nat \<Rightarrow> ('w, string, byte list) act"
  e_write_at :: "u32 \<Rightarrow> nat \<Rightarrow> byte list \<Rightarrow> ('w, string, nat) act"
  e_dir_open :: "string \<Rightarrow> ('w, string, u32) act"
  e_dir_entries :: "u32 \<Rightarrow> 'w \<Rightarrow> (string \<times> nat) list"
  e_stdout :: "byte list \<Rightarrow> 'w \<Rightarrow> nat \<times> 'w"
  e_eacces :: string

record 'r E4File =
  e4_inode_ref :: 'r
  e4_offset :: nat
  e4_readable :: bool
  e4_writable :: bool

definition E4File_new :: "'r \<Rightarrow> bool \<Rightarrow> bool \<Rightarrow> 'r E4File" where
  "E4File_new inode_ref readable writable =
    \<lparr>e4_inode_ref = inode_ref, e4_offset = 0, e4_readable = readable, e4_writable = writable\<rparr>"

definition e4_file_read :: "('w, 'r) Ext4 \<Rightarrow> nat \<Rightarrow> ('r E4File \<times> 'w, string, byte list) act" where
  "e4_file_read e buf_len = (\<lambda>(f, w).
    if \<not> e4_readable f then (Err (e_eacces e), f, w)
    else case e_read_at e (e_inode_num e (e4_inode_ref f)) (e4_offset f) buf_len w of
      (Ok bs, w') \<Rightarrow> (Ok bs, f\<lparr>e4_offset := e4_offset f + length bs\<rparr>, w')
    | (r, w') \<Rightarrow> (r, f, w'))"

definition e4_file_write :: "('w, 'r) Ext4 \<Rightarrow> byte list \<Rightarrow> ('r E4File \<times> 'w, string, nat) act" where
  "e4_file_write e buf = (\<lambda>(f, w).
    if \<not> e4_writable f then (Err (e_eacces e), f, w)
    else case e_write_at e (e_inode_num e (e4_inode_ref f)) (e4_offset f) buf w of
      (Ok len, w') \<Rightarrow> (Ok len, f\<lparr>e4_offset := e4_offset f + len\<rparr>, w')
    | (r, w') \<Rightarrow> (r, f, w'))"

definition e4_convert :: "LinuxStat \<Rightarrow> Stat" where
  "e4_convert m =
    \<lparr>st_dev = word_of_nat (ls_dev m), st_ino = word_of_nat (ls_ino m),
     st_nlink = word_of_nat (ls_nlink m), st_mode = word_of_nat (ls_mode m),
     st_uid = word_of_nat (ls_uid m), st_gid = word_of_nat (ls_gid m), pad0 = 0,
     st_rdev = word_of_nat (ls_rdev m), st_size = word_of_nat (ls_size m),
     st_blksize = sint (word_of_nat (ls_blksize m) :: u64),
     st_blocks = sint (word_of_nat (ls_blocks m) :: u64),
     st_atime = ls_atime m, st_mtime = ls_mtime m, st_ctime = ls_ctime m, st_unused = [0, 0, 0]\<rparr>"

section \<open>Operations\<close>

record ('w, 'r) E4State =
  e4_table :: "'r E4File fd_map"
  e4_global :: bool
  e4_init_done :: lazy
  e4 :: 'w

type_synonym ('w, 'r, 'a) e4_act = "(('w, 'r) E4State, FdtabError, 'a) act"

definition e4_lookup :: "('w, 'r) E4State \<Rightarrow> Fd \<Rightarrow> 'r E4File option" where
  "e4_lookup s = fdmap_lookup (e4_table s)"

text \<open>\<open>init\<close>: \<open>found\<close> is what probing the driver gives.\<close>

definition ext4_init :: "('w, 'r) Ext4 \<Rightarrow> (unit, 'd option) res \<Rightarrow> ('w, 'r, unit) e4_act" where
  "ext4_init e found = (\<lambda>s.
    case init_drivers found of
      Ok c \<Rightarrow>
        (case fst (take_one c) of
           Some dev \<Rightarrow> (Ok (), s\<lparr>e4_global := True, e4 := e_mount e (e4 s)\<rparr>)
         | None \<Rightarrow> (Ok (), s))
    | _ \<Rightarrow> (Panic, s))"

definition e4_with_init ::
  "('w, 'r) Ext4 \<Rightarrow> (unit, 'd option) res \<Rightarrow> ('w, 'r, 'a) e4_act \<Rightarrow> ('w, 'r, 'a) e4_act" where
  "e4_with_init e found m = (\<lambda>s.
    case e4_init_done s of
      Forced \<Rightarrow> m s
    | Poisoned \<Rightarrow> (Panic, s)
    | Unset \<Rightarrow>
        (case ext4_init e found s of
           (Ok _, s') \<Rightarrow> m (s'\<lparr>e4_init_done := Forced\<rparr>)
         | (_, s') \<Rightarrow> (Panic, s'\<lparr>e4_init_done := Poisoned\<rparr>)))"

text \<open>A call of the crate whose error is rendered and wrapped.\<close>

definition e4_call :: "string \<Rightarrow> ('w, string, 'a) act \<Rightarrow> ('w, 'r, 'a) e4_act" where
  "e4_call what m = (\<lambda>s. case m (e4 s) of (r, w) \<Rightarrow>
    (map_err (\<lambda>x. Ext4Err (what @ '' failed: '' @ x)) r, s\<lparr>e4 := w\<rparr>))"

definition get_global_ext4 :: "('w, 'r, unit) e4_act" where
  "get_global_ext4 = (\<lambda>s.
    if e4_global s then (Ok (), s) else (Err (FsErr ''global fs not initialized''), s))"

definition ext4_open ::
  "('w, 'r) Ext4 \<Rightarrow> string \<Rightarrow> OpenFlags \<Rightarrow> OpenMode \<Rightarrow> ('w, 'r, Fd) e4_act" where
  "ext4_open e path flags mode =
    act_bind get_global_ext4 (\<lambda>_.
    act_bind (e4_call ''open'' (e_file_open e path ''r'')) (\<lambda>inode_num s.
      case alloc_fd (E4File_new (e_inode_ref e inode_num (e4 s)) (mode_readable mode) (mode_writable mode))
        (e4_table s) of (fd, t) \<Rightarrow> (Ok fd, s\<lparr>e4_table := t\<rparr>)))"

text \<open>\<open>fdtab.get_mut(&fd)\<close>, with \<open>get_global_ext4().as_ref().unwrap()\<close> for the operation.\<close>

definition e4_on_file ::
  "string \<Rightarrow> Fd \<Rightarrow> ('r E4File \<times> 'w, string, 'a) act \<Rightarrow> ('w, 'r, 'a) e4_act" where
  "e4_on_file what fd m = (\<lambda>s.
    case e4_lookup s fd of
      None \<Rightarrow> (Err (FsErr ''invalid fd''), s)
    | Some f \<Rightarrow>
        if \<not> e4_global s then (Panic, s)
        else case m (f, e4 s) of (r, f', w) \<Rightarrow>
          (map_err (\<lambda>x. Ext4Err (what @ '' failed: '' @ x)) r,
           s\<lparr>e4_table := (btree_insert fd f' (fst (e4_table s)), snd (e4_table s)), e4 := w\<rparr>))"

definition ext4_read :: "('w, 'r) Ext4 \<Rightarrow> Fd \<Rightarrow> nat \<Rightarrow> ('w, 'r, byte list) e4_act" where
  "ext4_read e fd buf_len = e4_on_file ''read'' fd (e4_file_read e buf_len)"

definition ext4_stat :: "('w, 'r) Ext4 \<Rightarrow> Fd \<Rightarrow> ('w, 'r, Stat) e4_act" where
  "ext4_stat e fd = (\<lambda>s.
    case e4_lookup s fd of
      Some f \<Rightarrow> (Ok (e4_convert (e_from_inode_ref e (e4_inode_ref f))), s)
    | None \<Rightarrow> (Err (FsErr ''invalid fd''), s))"

definition ext4_write :: "('w, 'r) Ext4 \<Rightarrow> Fd \<Rightarrow> byte list \<Rightarrow> ('w, 'r, nat) e4_act" where
  "ext4_write e fd buf =
    (if fd = 1 \<or> fd = 2
     then (\<lambda>s. case e_stdout e buf (e4 s) of (n, w) \<Rightarrow> (Ok n, s\<lparr>e4 := w\<rparr>))
     else e4_on_file ''write'' fd (e4_file_write e buf))"

definition ext4_close :: "Fd \<Rightarrow> ('w, 'r, unit) e4_act" where
  "ext4_close fd = act_modify (\<lambda>s. s\<lparr>e4_table := remove_fd fd (e4_table s)\<rparr>)"

definition ext4_lseek :: "Fd \<Rightarrow> u32 \<Rightarrow> ('w, 'r, unit) e4_act" where
  "ext4_lseek fd pos = (\<lambda>s.
    case e4_lookup s fd of
      Some f \<Rightarrow> (Ok (), s\<lparr>e4_table :=
        (btree_insert fd (f\<lparr>e4_offset := unat pos\<rparr>) (fst (e4_table s)), snd (e4_table s))\<rparr>)
    | None \<Rightarrow> (Err (FsErr ''invalid fd''), s))"

definition ext4_readdir :: "('w, 'r) Ext4 \<Rightarrow> string \<Rightarrow> ('w, 'r, DirEntry list) e4_act" where
  "ext4_readdir e path =
    act_bind get_global_ext4 (\<lambda>_.
    act_bind (e4_call ''readdir'' (e_dir_open e path)) (\<lambda>dir_inode.
    act_get (\<lambda>s. map (\<lambda>(name, de_type).
      \<lparr>dir_path = path, entry_name = name, entry_type = word_of_nat de_type\<rparr>) (e_dir_entries e dir_inode (e4 s)))))"

section \<open>Calls\<close>

datatype e4_req =
    E4Open string OpenFlags OpenMode | E4Read Fd nat | E4Write Fd "byte list" | E4Seek Fd u32
  | E4Stat Fd | E4Close Fd | E4Readdir string

text \<open>A call as a client makes it; \<open>stat\<close> alone does not force the initialisation.\<close>

definition e4_exec :: "('w, 'r) Ext4 \<Rightarrow> (unit, 'd option) res \<Rightarrow> e4_req \<Rightarrow> ('w, 'r, unit) e4_act" where
  "e4_exec e found req =
    (case req of
       E4Open path flags mode \<Rightarrow> e4_with_init e found (act_bind (ext4_open e path flags mode) (\<lambda>_. act_ret ()))
     | E4Read fd n \<Rightarrow> e4_with_init e found (act_bind (ext4_read e fd n) (\<lambda>_. act_ret ()))
     | E4Write fd buf \<Rightarrow> e4_with_init e found (act_bind (ext4_write e fd buf) (\<lambda>_. act_ret ()))
     | E4Seek fd pos \<Rightarrow> e4_with_init e found (ext4_lseek fd pos)
     | E4Stat fd \<Rightarrow> act_bind (ext4_stat e fd) (\<lambda>_. act_ret ())
     | E4Close fd \<Rightarrow> e4_with_init e found (ext4_close fd)
     | E4Readdir path \<Rightarrow> e4_with_init e found (act_bind (ext4_readdir e path) (\<lambda>_. act_ret ())))"

fun e4_run :: "('w, 'r) Ext4 \<Rightarrow> (unit, 'd option) res \<Rightarrow> e4_req list \<Rightarrow> ('w, 'r) E4State \<Rightarrow> ('w, 'r) E4State" where
  "e4_run e found [] s = s"
| "e4_run e found (req # reqs) s = e4_run e found reqs (snd (e4_exec e found req s))"

lemmas ext4_op_defs = ext4_open_def ext4_read_def ext4_stat_def ext4_write_def ext4_close_def
  ext4_lseek_def ext4_readdir_def

subsection \<open>Descriptors keep their inode\<close>

text \<open>A step that keeps every open file, apart from its offset, and the table well formed, using
  up at most one number.\<close>

definition e4_keeps :: "nat \<Rightarrow> Fd set \<Rightarrow> ('w, 'r) E4State \<Rightarrow> ('w, 'r) E4State \<Rightarrow> bool" where
  "e4_keeps n closed s s' =
    (fdmap_ok (Suc n) (e4_table s) \<longrightarrow>
      fdmap_ok n (e4_table s') \<and>
      (\<forall>fd f. fd \<notin> closed \<longrightarrow> e4_lookup s fd = Some f \<longrightarrow>
        (\<exists>f'. e4_lookup s' fd = Some f' \<and> e4_inode_ref f' = e4_inode_ref f)))"

lemma fdmap_ok_mono: "fdmap_ok (Suc n) t \<Longrightarrow> fdmap_ok n t"
  by (auto simp: fdmap_ok_def)

lemma e4_keeps_same: "e4_table s' = e4_table s \<Longrightarrow> e4_keeps n closed s s'"
  by (simp add: e4_keeps_def e4_lookup_def fdmap_ok_mono)

lemma fdmap_ok_update:
  assumes "fdmap_ok n t" "fdmap_lookup t fd = Some f"
  shows "fdmap_ok n (btree_insert fd f' (fst t), snd t)"
  using assms by (auto simp: fdmap_ok_def fdmap_lookup_def btree.ok_insert btree.get_insert)

lemma e4_keeps_update:
  assumes "e4_lookup s fd = Some f" "e4_inode_ref f' = e4_inode_ref f"
    and "e4_table s' = (btree_insert fd f' (fst (e4_table s)), snd (e4_table s))"
  shows "e4_keeps n closed s s'"
proof -
  have "fdmap_lookup (e4_table s') = (fdmap_lookup (e4_table s))(fd \<mapsto> f')" if "fdmap_ok (Suc n) (e4_table s)"
    using that vfs_lookup_set [of "e4_table s"] unfolding assms(3) by (simp add: fdmap_ok_def)
  then show ?thesis
    using assms fdmap_ok_update [OF fdmap_ok_mono, of n "e4_table s" fd f f']
    by (auto simp: e4_keeps_def e4_lookup_def)
qed

lemma e4_file_ops_keep_inode:
  "e4_file_read e n (f, w) = (r, f', w') \<Longrightarrow> e4_inode_ref f' = e4_inode_ref f"
  "e4_file_write e buf (f, w) = (r', f', w') \<Longrightarrow> e4_inode_ref f' = e4_inode_ref f"
  by (auto simp: e4_file_read_def e4_file_write_def split: if_splits prod.splits res.splits)

lemma on_file_keeps:
  assumes "\<And>f w r f' w'. m (f, w) = (r, f', w') \<Longrightarrow> e4_inode_ref f' = e4_inode_ref f"
  shows "e4_keeps n closed s (snd (e4_on_file what fd m s))"
proof (cases "e4_lookup s fd")
  case (Some f)
  obtain r f' w where m: "m (f, e4 s) = (r, f', w)" by (metis prod_cases3)
  show ?thesis
  proof (cases "e4_global s")
    case True
    then show ?thesis using Some m
      by (intro e4_keeps_update [OF Some assms [OF m]]) (simp add: e4_on_file_def)
  qed (simp add: e4_on_file_def Some e4_keeps_same)
qed (simp add: e4_on_file_def e4_keeps_same)

lemma e4_call_table: "e4_call what m s = (r, s') \<Longrightarrow> e4_table s' = e4_table s \<and> e4_global s' = e4_global s"
  by (auto simp: e4_call_def split: prod.splits)

lemma get_global_ext4_state: "get_global_ext4 s = (r, s') \<Longrightarrow> s' = s \<and> (r = Ok () \<longrightarrow> e4_global s)"
  by (auto simp: get_global_ext4_def split: if_splits)

lemma ext4_open_effect:
  assumes "ext4_open e path flags mode s = (r, s')"
  shows "e4_table s' = e4_table s \<or> (e4_global s' \<and> (\<exists>f fd. alloc_fd f (e4_table s) = (fd, e4_table s')))"
  using assms
  by (auto simp: ext4_open_def act_bind_apply alloc_fd_def dest!: e4_call_table get_global_ext4_state)

lemma open_keeps: "e4_keeps n closed s (snd (ext4_open e path flags mode s))"
proof -
  consider "e4_table (snd (ext4_open e path flags mode s)) = e4_table s"
    | f fd t where "alloc_fd f (e4_table s) = (fd, t)" "e4_table (snd (ext4_open e path flags mode s)) = t"
    using ext4_open_effect [OF surjective_pairing, of e path flags mode s] by blast
  then show ?thesis
  proof cases
    case (2 f fd t)
    show ?thesis
      unfolding e4_keeps_def 2(2)
    proof (intro impI conjI allI)
      assume ok: "fdmap_ok (Suc n) (e4_table s)"
      show "fdmap_ok n t" by (rule fdmap.ok_add [OF ok 2(1)])
      fix fd' g
      assume "e4_lookup s fd' = Some g"
      moreover have "fdmap_lookup t fd' = (if fd' = fd then Some f else fdmap_lookup (e4_table s) fd')"
        by (rule fdmap.lookup_add [OF ok 2(1)])
      ultimately show "\<exists>f'. e4_lookup (snd (ext4_open e path flags mode s)) fd' = Some f' \<and> e4_inode_ref f' = e4_inode_ref g"
        using fdmap.add_fresh [OF ok 2(1)] by (auto simp: e4_lookup_def 2(2))
    qed
  qed (rule e4_keeps_same)
qed

lemma close_keeps: "e4_keeps n {fd} s (snd (ext4_close fd s))"
  using fdmap.lookup_rm [OF fdmap_ok_mono, of n "e4_table s" fd] fdmap.ok_rm [OF fdmap_ok_mono, of n "e4_table s" fd]
  by (auto simp: e4_keeps_def ext4_close_def act_modify_def e4_lookup_def)

lemma ext4_init_table: "ext4_init e found s = (r, s') \<Longrightarrow> e4_table s' = e4_table s"
  by (auto simp: ext4_init_def split: res.splits option.splits)

lemma e4_keeps_table_eq: "e4_table s1 = e4_table s \<Longrightarrow> e4_keeps n closed s1 s' \<Longrightarrow> e4_keeps n closed s s'"
  by (simp add: e4_keeps_def e4_lookup_def)

lemma with_init_keeps:
  assumes "\<And>s. e4_keeps n closed s (snd (m s))"
  shows "e4_keeps n closed s (snd (e4_with_init e found m s))"
proof (cases "e4_init_done s")
  case Unset
  obtain r s1 where init: "ext4_init e found s = (r, s1)" by (cases "ext4_init e found s")
  have "e4_keeps n closed s (snd (m (s1\<lparr>e4_init_done := Forced\<rparr>)))"
    using e4_keeps_table_eq [OF _ assms, of "s1\<lparr>e4_init_done := Forced\<rparr>" s] ext4_init_table [OF init] by simp
  with Unset init ext4_init_table [OF init] show ?thesis
    by (cases r) (simp_all add: e4_with_init_def e4_keeps_same)
qed (simp_all add: e4_with_init_def assms e4_keeps_same)

lemma with_init_ignore_keeps:
  "(\<And>s. e4_keeps n closed s (snd (m s))) \<Longrightarrow>
    e4_keeps n closed s (snd (e4_with_init e found (act_bind m (\<lambda>_. act_ret ())) s))"
  by (rule with_init_keeps) (simp add: snd_ignore)

definition closed_by :: "e4_req \<Rightarrow> Fd set" where
  "closed_by req = (case req of E4Close fd \<Rightarrow> {fd} | _ \<Rightarrow> {})"

lemma exec_keeps: "e4_keeps n (closed_by req) s (snd (e4_exec e found req s))"
proof (cases req)
  case (E4Write fd buf)
  have "e4_keeps n {} s (snd (ext4_write e fd buf s))" for s
    using on_file_keeps [OF e4_file_ops_keep_inode(2)]
    by (auto simp: ext4_write_def intro: e4_keeps_same split: prod.splits)
  then show ?thesis
    using E4Write by (simp add: e4_exec_def closed_by_def with_init_ignore_keeps)
next
  case (E4Seek fd pos)
  have "e4_keeps n {} s (snd (ext4_lseek fd pos s))" for s :: "('a, 'b) E4State"
  proof (cases "e4_lookup s fd")
    case (Some f)
    show ?thesis
      by (rule e4_keeps_update [OF Some, of "f\<lparr>e4_offset := unat pos\<rparr>"]) (simp_all add: ext4_lseek_def Some)
  qed (simp add: ext4_lseek_def e4_keeps_same)
  then show ?thesis
    using E4Seek by (simp add: e4_exec_def closed_by_def with_init_keeps)
next
  case (E4Readdir path)
  have "e4_table (snd (ext4_readdir e path s)) = e4_table s" for s
    using act_bind_apply by (auto simp: ext4_readdir_def act_bind_def act_get_def e4_call_def get_global_ext4_def
        split: prod.splits res.splits)
  then show ?thesis
    using E4Readdir by (simp add: e4_exec_def closed_by_def with_init_ignore_keeps e4_keeps_same)
next
  case (E4Read fd n')
  have "e4_keeps n {} s (snd (ext4_read e fd n' s))" for s
    unfolding ext4_read_def by (rule on_file_keeps [OF e4_file_ops_keep_inode(1)])
  then show ?thesis
    using E4Read by (simp add: e4_exec_def closed_by_def with_init_ignore_keeps)
next
  case (E4Stat fd)
  then show ?thesis
    by (simp add: e4_exec_def closed_by_def snd_ignore ext4_stat_def e4_keeps_same split: option.split)
qed (simp_all add: e4_exec_def closed_by_def with_init_ignore_keeps with_init_keeps open_keeps close_keeps)

lemma run_keeps_inode:
  assumes "fdmap_ok (length reqs) (e4_table s)" "E4Close fd \<notin> set reqs" "e4_lookup s fd = Some f"
  shows "\<exists>f'. e4_lookup (e4_run e found reqs s) fd = Some f' \<and> e4_inode_ref f' = e4_inode_ref f"
  using assms
proof (induction reqs arbitrary: s f)
  case (Cons req reqs)
  have "fd \<notin> closed_by req" using Cons.prems(2) by (auto simp: closed_by_def split: e4_req.splits)
  with exec_keeps [of "length reqs" req s e found] Cons.prems obtain f1 where
    "fdmap_ok (length reqs) (e4_table (snd (e4_exec e found req s)))"
    "e4_lookup (snd (e4_exec e found req s)) fd = Some f1" "e4_inode_ref f1 = e4_inode_ref f"
    by (auto simp: e4_keeps_def)
  with Cons.IH [of "snd (e4_exec e found req s)" f1] Cons.prems(2) show ?case by auto
qed simp

text \<open>\<open>stat\<close> of the ext4 service answers from the copy of the inode made when the file was
  opened: whatever calls are made in between, writes that grow the file included, an open
  descriptor keeps reporting the status it had at first.\<close>

theorem ext4_stat_is_a_snapshot:
  assumes "fdmap_ok (length reqs) (e4_table s)" "E4Close fd \<notin> set reqs" "e4_lookup s fd = Some f"
  shows "fst (ext4_stat e fd (e4_run e found reqs s)) = fst (ext4_stat e fd s)"
  using run_keeps_inode [OF assms, of e found] assms(3) by (auto simp: ext4_stat_def)

text \<open>An ext4 file system with one file; an inode reference is the size of the file.\<close>

definition one_file :: "(byte list, nat) Ext4" where
  "one_file =
    \<lparr>e_mount = (\<lambda>w. w), e_file_open = (\<lambda>p fl w. (Ok 12, w)), e_inode_ref = (\<lambda>i w. length w),
     e_inode_num = (\<lambda>r. 12),
     e_from_inode_ref = (\<lambda>r. \<lparr>ls_dev = 0, ls_ino = 12, ls_nlink = 1, ls_mode = 0, ls_uid = 0, ls_gid = 0,
       ls_rdev = 0, ls_size = r, ls_blksize = 0, ls_blocks = 0, ls_atime = \<lparr>tv_sec = 0, tv_nsec = 0\<rparr>,
       ls_mtime = \<lparr>tv_sec = 0, tv_nsec = 0\<rparr>, ls_ctime = \<lparr>tv_sec = 0, tv_nsec = 0\<rparr>\<rparr>),
     e_read_at = (\<lambda>i off n w. (Ok (vslice off n w), w)),
     e_write_at = (\<lambda>i off bs w. (Ok (length bs), overwrite off bs (w @ replicate (off - length w) 0))),
     e_dir_open = (\<lambda>p w. (Ok 2, w)), e_dir_entries = (\<lambda>i w. []), e_stdout = (\<lambda>bs w. (length bs, w)),
     e_eacces = ''EACCES''\<rparr>"

definition one_file_state :: "(byte list, nat) E4State" where
  "one_file_state =
    \<lparr>e4_table = ([(3, E4File_new 0 True True)], 4), e4_global = True, e4_init_done = Forced, e4 = []\<rparr>"

text \<open>After a write of three bytes the file has three, and \<open>stat\<close> still says it is empty.\<close>

theorem ext4_stat_is_a_snapshot_witness:
  "e4 (e4_run one_file (Ok (None :: unit option)) [E4Write 3 [1, 2, 3]] one_file_state) = [1, 2, 3] \<and>
   fst (ext4_stat one_file 3 (e4_run one_file (Ok (None :: unit option)) [E4Write 3 [1, 2, 3]] one_file_state)) =
     fst (ext4_stat one_file 3 one_file_state)"
proof -
  have ok: "fdmap_ok (length [E4Write 3 [1, 2, 3]]) (e4_table one_file_state)"
    by (auto simp: fdmap_ok_def one_file_state_def btree_ok_def btree_get_def split: if_splits)
  have lookup: "e4_lookup one_file_state 3 = Some (E4File_new 0 True True)"
    by (simp add: one_file_state_def e4_lookup_def fdmap_lookup_def btree_get_def)
  have "e4 (e4_run one_file (Ok (None :: unit option)) [E4Write 3 [1, 2, 3]] one_file_state) = [1, 2, 3]"
    by (simp add: e4_exec_def e4_with_init_def one_file_state_def act_bind_def ext4_write_def e4_on_file_def
        e4_lookup_def fdmap_lookup_def btree_get_def e4_file_write_def E4File_new_def one_file_def act_ret_def
        overwrite_def)
  with ext4_stat_is_a_snapshot [OF ok _ lookup, of one_file "Ok (None :: unit option)"] show ?thesis by simp
qed

subsection \<open>The unwrap of the global file system\<close>

text \<open>None of the functions of the crate panics.\<close>

definition ext4_returns :: "('w, 'r) Ext4 \<Rightarrow> bool" where
  "ext4_returns e =
    ((\<forall>p fl. returns (e_file_open e p fl)) \<and> (\<forall>i off n. returns (e_read_at e i off n)) \<and>
     (\<forall>i off bs. returns (e_write_at e i off bs)) \<and> (\<forall>p. returns (e_dir_open e p)))"

definition e4_inv :: "('w, 'r) E4State \<Rightarrow> bool" where
  "e4_inv s = ((e4_global s \<or> fst (e4_table s) = []) \<and> e4_init_done s \<noteq> Poisoned)"

text \<open>A run that keeps the invariant and returns.\<close>

definition e4_safe :: "('w, 'r, 'a) e4_act \<Rightarrow> bool" where
  "e4_safe m = (\<forall>s. e4_inv s \<longrightarrow> fst (m s) \<noteq> Panic \<and> e4_inv (snd (m s)))"

lemma e4_safe_ignore: "e4_safe m \<Longrightarrow> e4_safe (act_bind m (\<lambda>_. act_ret ()))"
  by (auto simp: e4_safe_def act_bind_def act_ret_def split: prod.splits res.splits)

lemma e4_safe_on_file:
  assumes "\<And>f w. fst (m (f, w)) \<noteq> Panic"
  shows "e4_safe (e4_on_file what fd m)"
  unfolding e4_safe_def
proof (intro allI impI)
  fix s :: "('b, 'a) E4State"
  assume inv: "e4_inv s"
  show "fst (e4_on_file what fd m s) \<noteq> Panic \<and> e4_inv (snd (e4_on_file what fd m s))"
  proof (cases "e4_lookup s fd")
    case None
    then show ?thesis using inv by (simp add: e4_on_file_def)
  next
    case (Some f)
    then have "fst (e4_table s) \<noteq> []" by (auto simp: e4_lookup_def fdmap_lookup_def btree_get_def)
    then have global: "e4_global s" using inv by (simp add: e4_inv_def)
    obtain r f' w where m: "m (f, e4 s) = (r, f', w)" by (metis prod_cases3)
    have "r \<noteq> Panic" using assms [of f "e4 s"] by (simp add: m)
    then show ?thesis using inv global by (cases r) (simp_all add: e4_on_file_def Some m e4_inv_def)
  qed
qed

lemma file_ops_return:
  assumes "ext4_returns e"
  shows "fst (e4_file_read e n (f, w)) \<noteq> Panic" "fst (e4_file_write e buf (f, w)) \<noteq> Panic"
proof -
  let ?i = "e_inode_num e (e4_inode_ref f)"
  have "fst (e_read_at e ?i (e4_offset f) n w) \<noteq> Panic" "fst (e_write_at e ?i (e4_offset f) buf w) \<noteq> Panic"
    using assms by (auto simp: ext4_returns_def returns_def)
  then show "fst (e4_file_read e n (f, w)) \<noteq> Panic" "fst (e4_file_write e buf (f, w)) \<noteq> Panic"
    by (auto simp: e4_file_read_def e4_file_write_def split: prod.splits res.splits)
qed

lemma e4_safe_open:
  assumes "ext4_returns e"
  shows "e4_safe (ext4_open e path flags mode)"
  unfolding e4_safe_def
proof (intro allI impI)
  fix s :: "('a, 'b) E4State"
  assume inv: "e4_inv s"
  have "fst (e_file_open e path ''r'' (e4 s)) \<noteq> Panic"
    using assms by (auto simp: ext4_returns_def returns_def)
  then show "fst (ext4_open e path flags mode s) \<noteq> Panic \<and> e4_inv (snd (ext4_open e path flags mode s))"
    using inv
    by (cases "e_file_open e path ''r'' (e4 s)"; cases "fst (e_file_open e path ''r'' (e4 s))")
       (auto simp: ext4_open_def act_bind_def get_global_ext4_def e4_call_def alloc_fd_def e4_inv_def)
qed

lemma e4_safe_readdir:
  assumes "ext4_returns e"
  shows "e4_safe (ext4_readdir e path)"
  unfolding e4_safe_def
proof (intro allI impI)
  fix s :: "('a, 'b) E4State"
  assume inv: "e4_inv s"
  have "fst (e_dir_open e path (e4 s)) \<noteq> Panic"
    using assms by (auto simp: ext4_returns_def returns_def)
  then show "fst (ext4_readdir e path s) \<noteq> Panic \<and> e4_inv (snd (ext4_readdir e path s))"
    using inv
    by (cases "e_dir_open e path (e4 s)"; cases "fst (e_dir_open e path (e4 s))")
       (auto simp: ext4_readdir_def act_bind_def get_global_ext4_def e4_call_def act_get_def e4_inv_def)
qed

lemma e4_safe_with_init:
  assumes "e4_safe m" "found \<noteq> Panic" "\<And>x. found \<noteq> Err x"
  shows "e4_safe (e4_with_init e found m)"
  unfolding e4_safe_def
proof (intro allI impI)
  fix s :: "('a, 'b) E4State"
  assume inv: "e4_inv s"
  obtain dev where found: "found = Ok dev" using assms(2,3) by (cases found) auto
  obtain s1 where init: "ext4_init e found s = (Ok (), s1)" "e4_table s1 = e4_table s" "e4_global s \<longrightarrow> e4_global s1"
    by (cases dev) (auto simp: ext4_init_def init_drivers_def probe_def take_one_def container_push_def found)
  have "e4_inv (s1\<lparr>e4_init_done := Forced\<rparr>)" using inv init(2,3) by (auto simp: e4_inv_def)
  with assms(1) inv init(1) show "fst (e4_with_init e found m s) \<noteq> Panic \<and> e4_inv (snd (e4_with_init e found m s))"
    by (cases "e4_init_done s") (auto simp: e4_with_init_def e4_safe_def e4_inv_def)
qed

lemma e4_safe_exec:
  fixes e :: "('w, 'r) Ext4"
  assumes "ext4_returns e" "found = Ok dev"
  shows "e4_safe (e4_exec e found req)"
proof -
  have simple: "e4_safe (ext4_stat e fd)" "e4_safe (ext4_lseek fd pos :: ('w, 'r, unit) e4_act)"
    "e4_safe (ext4_close fd :: ('w, 'r, unit) e4_act)" for fd pos
    by (auto simp: e4_safe_def ext4_stat_def ext4_lseek_def ext4_close_def act_modify_def e4_inv_def remove_fd_def
        e4_lookup_def fdmap_lookup_def btree_get_def split: option.splits)
  have io: "e4_safe (ext4_read e fd n)" "e4_safe (ext4_write e fd buf)" for fd n buf
    using e4_safe_on_file [where m = "e4_file_read e n" and fd = fd] e4_safe_on_file [where m = "e4_file_write e buf" and fd = fd]
      file_ops_return [OF assms(1)]
    by (auto simp: ext4_read_def ext4_write_def) (auto simp: e4_safe_def e4_inv_def split: prod.splits)
  show ?thesis
    using e4_safe_ignore [OF e4_safe_open [OF assms(1)]] e4_safe_ignore [OF e4_safe_readdir [OF assms(1)]]
      e4_safe_ignore [OF io(1)] e4_safe_ignore [OF io(2)] e4_safe_ignore [OF simple(1)] simple assms(2)
    by (cases req) (simp_all add: e4_exec_def e4_safe_with_init)
qed

lemma e4_run_inv:
  assumes "ext4_returns e" "found = Ok dev" "e4_inv s"
  shows "e4_inv (e4_run e found reqs s)"
  using assms(3)
proof (induction reqs arbitrary: s)
  case (Cons req reqs)
  then show ?case using e4_safe_exec [OF assms(1,2), of req] by (simp add: e4_safe_def)
qed simp

text \<open>the ext4 service never panics at \<open>get_global_ext4().unwrap()\<close>: from the initial state,
  whether or not a block device was found, and after any calls, a file is in the table only if
  the file system was mounted.\<close>

theorem ext4_never_panics:
  assumes "ext4_returns e" "found = Ok dev"
  shows "fst (e4_exec e found req (e4_run e found reqs
    \<lparr>e4_table = ([], 3), e4_global = False, e4_init_done = Unset, e4 = w\<rparr>)) \<noteq> Panic"
proof -
  have "e4_inv \<lparr>e4_table = ([], 3), e4_global = False, e4_init_done = Unset, e4 = w\<rparr>" by (simp add: e4_inv_def)
  from e4_run_inv [OF assms this] e4_safe_exec [OF assms] show ?thesis by (simp add: e4_safe_def)
qed

theorem ext4_never_panics_witness:
  "fst (e4_exec one_file (Ok (None :: unit option)) (E4Read 3 1) (e4_run one_file
    (Ok (None :: unit option)) [E4Open ''a'' 0 RD]
    \<lparr>e4_table = ([], 3), e4_global = False, e4_init_done = Unset, e4 = []\<rparr>)) \<noteq> Panic"
  by (rule ext4_never_panics [of one_file "Ok None" None])
     (simp_all add: ext4_returns_def returns_def one_file_def)

end
