(* ===== verification/Wasi_Errno.thy ===== *)
theory Wasi_Errno
  imports Rust_Prelude
begin

text \<open>
  Error numbers of WASI (\<open>Errno\<close> of \<open>wasmtime_wasi_api/src/types.rs\<close>), with the names and messages
  the source gives them.
\<close>

section \<open>Error numbers\<close>

datatype (plugins only: size) Errno =
    E_Success | E_Toobig | E_Access | E_Addrinuse | E_Addrnotavail | E_Afnosupport | E_Again |
    E_Already | E_Badf | E_Badmsg | E_Busy | E_Canceled | E_Child | E_Connaborted |
    E_Connrefused | E_Connreset | E_Deadlk | E_Destaddrreq | E_Dom | E_Dquot | E_Exist |
    E_Fault | E_Fbig | E_Hostunreach | E_Idrm | E_Ilseq | E_Inprogress | E_Intr | E_Inval |
    E_Io | E_Isconn | E_Isdir | E_Loop | E_Mfile | E_Mlink | E_Msgsize | E_Multihop |
    E_Nametoolong | E_Netdown | E_Netreset | E_Netunreach | E_Nfile | E_Nobufs | E_Nodev |
    E_Noent | E_Noexec | E_Nolck | E_Nolink | E_Nomem | E_Nomsg | E_Noprotoopt | E_Nospc |
    E_Nosys | E_Notconn | E_Notdir | E_Notempty | E_Notrecoverable | E_Notsock | E_Notsup |
    E_Notty | E_Nxio | E_Overflow | E_Ownerdead | E_Perm | E_Pipe | E_Proto |
    E_Protonosupport | E_Prototype | E_Range | E_Rofs | E_Spipe | E_Srch | E_Stale |
    E_Timedout | E_Txtbsy | E_Xdev | E_Notcapable | E_Shutdown | E_Memviolation | E_Unknown

text \<open>The variants in the order of the declaration, which fixes their numbers.\<close>

definition errnos :: "Errno list" where
  "errnos = [
    E_Success, E_Toobig, E_Access, E_Addrinuse, E_Addrnotavail, E_Afnosupport, E_Again,
    E_Already, E_Badf, E_Badmsg, E_Busy, E_Canceled, E_Child, E_Connaborted, E_Connrefused,
    E_Connreset, E_Deadlk, E_Destaddrreq, E_Dom, E_Dquot, E_Exist, E_Fault, E_Fbig,
    E_Hostunreach, E_Idrm, E_Ilseq, E_Inprogress, E_Intr, E_Inval, E_Io, E_Isconn, E_Isdir,
    E_Loop, E_Mfile, E_Mlink, E_Msgsize, E_Multihop, E_Nametoolong, E_Netdown, E_Netreset,
    E_Netunreach, E_Nfile, E_Nobufs, E_Nodev, E_Noent, E_Noexec, E_Nolck, E_Nolink, E_Nomem,
    E_Nomsg, E_Noprotoopt, E_Nospc, E_Nosys, E_Notconn, E_Notdir, E_Notempty, E_Notrecoverable,
    E_Notsock, E_Notsup, E_Notty, E_Nxio, E_Overflow, E_Ownerdead, E_Perm, E_Pipe, E_Proto,
    E_Protonosupport, E_Prototype, E_Range, E_Rofs, E_Spipe, E_Srch, E_Stale, E_Timedout,
    E_Txtbsy, E_Xdev, E_Notcapable, E_Shutdown, E_Memviolation, E_Unknown]"

definition errno_code :: "Errno \<Rightarrow> u32" where
  "errno_code e = (case first_index (\<lambda>x. x = e) errnos of Some i \<Rightarrow> word_of_nat i | None \<Rightarrow> 0)"

text \<open>The arms of \<open>name\<close> and \<open>message\<close>, one row per variant.\<close>

definition errno_table :: "(Errno \<times> string \<times> string) list" where
  "errno_table = [
    (E_Success, ''success'', ''No error occurred. System call completed successfully.''),
    (E_Toobig, ''toobig'', ''Argument list too long.''),
    (E_Access, ''access'', ''Permission denied.''),
    (E_Addrinuse, ''addrinuse'', ''Address in use.''),
    (E_Addrnotavail, ''addrnotavail'', ''Address not available.''),
    (E_Afnosupport, ''afnosupport'', ''Address family not supported.''),
    (E_Again, ''again'', ''Resource unavailable, or operation would block.''),
    (E_Already, ''already'', ''Connection already in progress.''),
    (E_Badf, ''badf'', ''Bad file descriptor.''),
    (E_Badmsg, ''badmsg'', ''Bad message.''),
    (E_Busy, ''busy'', ''Device or resource busy.''),
    (E_Canceled, ''canceled'', ''Operation canceled.''),
    (E_Child, ''child'', ''No child processes.''),
    (E_Connaborted, ''connaborted'', ''Connection aborted.''),
    (E_Connrefused, ''connrefused'', ''Connection refused.''),
    (E_Connreset, ''connreset'', ''Connection reset.''),
    (E_Deadlk, ''deadlk'', ''Resource deadlock would occur.''),
    (E_Destaddrreq, ''destaddrreq'', ''Destination address required.''),
    (E_Dom, ''dom'', ''Mathematics argument out of domain of function.''),
    (E_Dquot, ''dquot'', ''Reserved.''),
    (E_Exist, ''exist'', ''File exists.''),
    (E_Fault, ''fault'', ''Bad address.''),
    (E_Fbig, ''fbig'', ''File too large.''),
    (E_Hostunreach, ''hostunreach'', ''Host is unreachable.''),
    (E_Idrm, ''idrm'', ''Identifier removed.''),
    (E_Ilseq, ''ilseq'', ''Illegal byte sequence.''),
    (E_Inprogress, ''inprogress'', ''Operation in progress.''),
    (E_Intr, ''intr'', ''Interrupted function.''),
    (E_Inval, ''inval'', ''Invalid argument.''),
    (E_Io, ''io'', ''I/O error.''),
    (E_Isconn, ''isconn'', ''Socket is connected.''),
    (E_Isdir, ''isdir'', ''Is a directory.''),
    (E_Loop, ''loop'', ''Too many levels of symbolic links.''),
    (E_Mfile, ''mfile'', ''File descriptor value too large.''),
    (E_Mlink, ''mlink'', ''Too many links.''),
    (E_Msgsize, ''msgsize'', ''Message too large.''),
    (E_Multihop, ''multihop'', ''Reserved.''),
    (E_Nametoolong, ''nametoolong'', ''Filename too long.''),
    (E_Netdown, ''netdown'', ''Network is down.''),
    (E_Netreset, ''netreset'', ''Connection aborted by network.''),
    (E_Netunreach, ''netunreach'', ''Network unreachable.''),
    (E_Nfile, ''nfile'', ''Too many files open in system.''),
    (E_Nobufs, ''nobufs'', ''No buffer space available.''),
    (E_Nodev, ''nodev'', ''No such device.''),
    (E_Noent, ''noent'', ''No such file or directory.''),
    (E_Noexec, ''noexec'', ''Executable file format error.''),
    (E_Nolck, ''nolck'', ''No locks available.''),
    (E_Nolink, ''nolink'', ''Reserved.''),
    (E_Nomem, ''nomem'', ''Not enough space.''),
    (E_Nomsg, ''nomsg'', ''No message of the desired type.''),
    (E_Noprotoopt, ''noprotoopt'', ''Protocol not available.''),
    (E_Nospc, ''nospc'', ''No space left on device.''),
    (E_Nosys, ''nosys'', ''Function not supported.''),
    (E_Notconn, ''notconn'', ''The socket is not connected.''),
    (E_Notdir, ''notdir'', ''Not a directory or a symbolic link to a directory.''),
    (E_Notempty, ''notempty'', ''Directory not empty.''),
    (E_Notrecoverable, ''notrecoverable'', ''State not recoverable.''),
    (E_Notsock, ''notsock'', ''Not a socket.''),
    (E_Notsup, ''notsup'', ''Not supported, or operation not supported on socket.''),
    (E_Notty, ''notty'', ''Inappropriate I/O control operation.''),
    (E_Nxio, ''nxio'', ''No such device or address.''),
    (E_Overflow, ''overflow'', ''Value too large to be stored in data type.''),
    (E_Ownerdead, ''ownerdead'', ''Previous owner died.''),
    (E_Perm, ''perm'', ''Operation not permitted.''),
    (E_Pipe, ''pipe'', ''Broken pipe.''),
    (E_Proto, ''proto'', ''Protocol error.''),
    (E_Protonosupport, ''protonosupport'', ''Protocol not supported.''),
    (E_Prototype, ''prototype'', ''Protocol wrong type for socket.''),
    (E_Range, ''range'', ''Result too large.''),
    (E_Rofs, ''rofs'', ''Read-only file system.''),
    (E_Spipe, ''spipe'', ''Invalid seek.''),
    (E_Srch, ''srch'', ''No such process.''),
    (E_Stale, ''stale'', ''Reserved.''),
    (E_Timedout, ''timedout'', ''Connection timed out.''),
    (E_Txtbsy, ''txtbsy'', ''Text file busy.''),
    (E_Xdev, ''xdev'', ''Cross-device link.''),
    (E_Notcapable, ''notcapable'', ''Extension: Capabilities insufficient.''),
    (E_Shutdown, ''shutdown'', ''Cannot send after socket shutdown.''),
    (E_Memviolation, ''memviolation'', ''Memory access violation.''),
    (E_Unknown, ''unknown'', ''An unknown error has occured'')]"

definition errno_name :: "Errno \<Rightarrow> string" where
  "errno_name e = (case map_of errno_table e of Some (n, m) \<Rightarrow> n | None \<Rightarrow> [])"

definition errno_message :: "Errno \<Rightarrow> string" where
  "errno_message e = (case map_of errno_table e of Some (n, m) \<Rightarrow> m | None \<Rightarrow> [])"

text \<open>Numbers of the errors the calls return.\<close>

lemma errno_codes [simp]:
  "errno_code E_Success = 0" "errno_code E_Badf = 8" "errno_code E_Noent = 44" "errno_code E_Overflow = 61"
  by (simp_all add: errno_code_def errnos_def)

end
