(* ===== verification/Wasi_Abi.thy ===== *)
theory Wasi_Abi
  imports Rust_Prelude
begin

text \<open>
  What the WASI layer writes to the memory of a guest (\<open>wasmtime_wasi_api/src/types.rs\<close>): the C layout
  of the structures, the little-endian encoding of integers that \<open>to_ne_bytes\<close> gives on the target,
  and the bytes of strings. Padding bytes of a structure have no specified value: they are an argument.
\<close>

type_synonym i32 = "32 word"
type_synonym i64 = "64 word"

section \<open>Integers in memory\<close>

definition le_bytes :: "nat \<Rightarrow> nat \<Rightarrow> byte list" where
  "le_bytes k v = map (\<lambda>i. word_of_nat (v div 256 ^ i)) [0..<k]"

fun le_value :: "byte list \<Rightarrow> nat" where
  "le_value [] = 0"
| "le_value (b # bs) = unat b + 256 * le_value bs"

text \<open>\<open>x as usize\<close> for a 32 bit signed integer extends its sign.\<close>

definition as_usize :: "i32 \<Rightarrow> u64" where
  "as_usize x = scast x"

section \<open>Structures\<close>

record WasiCiovec =
  ci_buf :: u32
  ci_buf_len :: u32

definition ciovec_of :: "byte list \<Rightarrow> WasiCiovec" where
  "ciovec_of bs = \<lparr>ci_buf = word_of_nat (le_value (take 4 bs)),
                   ci_buf_len = word_of_nat (le_value (take 4 (drop 4 bs)))\<rparr>"

record WasiDirent =
  d_next :: u64
  d_ino :: u64
  d_namelen :: u32
  d_type :: byte

record WasiFdstat =
  fs_filetype :: byte
  fs_flags :: "16 word"
  fs_rights_base :: u64
  fs_rights_inheriting :: u64

record WasiFilestat =
  fst_dev :: u64
  fst_ino :: u64
  fst_filetype :: byte
  fst_nlink :: u64
  fst_size :: u64
  fst_atim :: u64
  fst_mtim :: u64
  fst_ctim :: u64

record WasiPrestat =
  pr_tag :: byte
  pr_dirname_len :: u32

type_synonym padding = "nat \<Rightarrow> byte"

definition dirent_bytes :: "padding \<Rightarrow> WasiDirent \<Rightarrow> byte list" where
  "dirent_bytes pad d = le_bytes 8 (unat (d_next d)) @ le_bytes 8 (unat (d_ino d)) @
     le_bytes 4 (unat (d_namelen d)) @ [d_type d] @ map pad [21, 22, 23]"

definition fdstat_bytes :: "padding \<Rightarrow> WasiFdstat \<Rightarrow> byte list" where
  "fdstat_bytes pad f = [fs_filetype f, pad 1] @ le_bytes 2 (unat (fs_flags f)) @ map pad [4, 5, 6, 7] @
     le_bytes 8 (unat (fs_rights_base f)) @ le_bytes 8 (unat (fs_rights_inheriting f))"

definition filestat_bytes :: "padding \<Rightarrow> WasiFilestat \<Rightarrow> byte list" where
  "filestat_bytes pad f = le_bytes 8 (unat (fst_dev f)) @ le_bytes 8 (unat (fst_ino f)) @
     [fst_filetype f] @ map pad [17, 18, 19, 20, 21, 22, 23] @
     le_bytes 8 (unat (fst_nlink f)) @ le_bytes 8 (unat (fst_size f)) @ le_bytes 8 (unat (fst_atim f)) @
     le_bytes 8 (unat (fst_mtim f)) @ le_bytes 8 (unat (fst_ctim f))"

definition prestat_bytes :: "padding \<Rightarrow> WasiPrestat \<Rightarrow> byte list" where
  "prestat_bytes pad p = [pr_tag p] @ map pad [1, 2, 3] @ le_bytes 4 (unat (pr_dirname_len p))"

section \<open>Strings\<close>

definition is_cont :: "byte \<Rightarrow> bool" where
  "is_cont b = (0x80 \<le> b \<and> b \<le> 0xBF)"

text \<open>What \<open>String::from_utf8\<close> accepts.\<close>

fun utf8_valid :: "byte list \<Rightarrow> bool" where
  "utf8_valid [] = True"
| "utf8_valid (b # bs) =
    (if b < 0x80 then utf8_valid bs
     else if 0xC2 \<le> b \<and> b \<le> 0xDF then
       (case bs of c # r \<Rightarrow> is_cont c \<and> utf8_valid r | _ \<Rightarrow> False)
     else if 0xE0 \<le> b \<and> b \<le> 0xEF then
       (case bs of c # d # r \<Rightarrow> is_cont c \<and> is_cont d \<and> (b = 0xE0 \<longrightarrow> 0xA0 \<le> c) \<and>
                                (b = 0xED \<longrightarrow> c \<le> 0x9F) \<and> utf8_valid r | _ \<Rightarrow> False)
     else if 0xF0 \<le> b \<and> b \<le> 0xF4 then
       (case bs of c # d # e # r \<Rightarrow> is_cont c \<and> is_cont d \<and> is_cont e \<and> (b = 0xF0 \<longrightarrow> 0x90 \<le> c) \<and>
                                    (b = 0xF4 \<longrightarrow> c \<le> 0x8F) \<and> utf8_valid r | _ \<Rightarrow> False)
     else False)"

definition as_bytes :: "string \<Rightarrow> byte list" where
  "as_bytes s = map (\<lambda>c. word_of_nat (of_char c)) s"

definition from_utf8 :: "byte list \<Rightarrow> string option" where
  "from_utf8 bs = (if utf8_valid bs then Some (map (\<lambda>b. char_of (unat b)) bs) else None)"

section \<open>Facts\<close>

lemma length_le_bytes [simp]: "length (le_bytes k v) = k"
  by (simp add: le_bytes_def)

lemma le_bytes_Suc: "le_bytes (Suc k) v = word_of_nat v # le_bytes k (v div 256)"
proof -
  have "[0..<Suc k] = 0 # map Suc [0..<k]" by (simp add: map_Suc_upt upt_conv_Cons del: upt_Suc)
  then show ?thesis by (simp add: le_bytes_def div_mult2_eq del: upt_Suc)
qed

lemma le_value_le_bytes: "v < 256 ^ k \<Longrightarrow> le_value (le_bytes k v) = v"
proof (induction k arbitrary: v)
  case 0
  then show ?case by (simp add: le_bytes_def)
next
  case (Suc k)
  have "v div 256 < 256 ^ k" using Suc.prems by (intro less_mult_imp_div_less) (simp only: power_Suc mult.commute)
  then have "le_value (le_bytes (Suc k) v) = unat (word_of_nat v :: byte) + 256 * (v div 256)"
    by (simp only: le_bytes_Suc le_value.simps Suc.IH)
  moreover have "unat (word_of_nat v :: byte) = v mod 256"
    using unat_of_nat [of v, where ?'a = 8] by simp
  ultimately show ?case by (simp only: mod_mult_div_eq)
qed

lemma le_value_u32 [simp]: "le_value (le_bytes 4 (unat (x :: u32))) = unat x"
  by (rule le_value_le_bytes) (use unsigned_less [of x] in simp)

lemma le_value_u64 [simp]: "le_value (le_bytes 8 (unat (x :: u64))) = unat x"
  by (rule le_value_le_bytes) (use unsigned_less [of x] in simp)

lemma struct_sizes [simp]:
  "length (dirent_bytes pad d) = 24" "length (fdstat_bytes pad f) = 24"
  "length (filestat_bytes pad s) = 64" "length (prestat_bytes pad p) = 8"
  by (simp_all add: dirent_bytes_def fdstat_bytes_def filestat_bytes_def prestat_bytes_def)

lemma length_as_bytes [simp]: "length (as_bytes s) = length s"
  by (simp add: as_bytes_def)

lemma utf8_ascii_Cons: "b < 0x80 \<Longrightarrow> utf8_valid (b # bs) = utf8_valid bs"
  by (subst utf8_valid.simps(2)) (rule if_P)

lemma unat_of_char [simp]: "unat (word_of_nat (of_char c) :: byte) = of_char c"
proof -
  have "of_char c < (2 :: nat) ^ 8" by (simp add: nat_of_char_less_256)
  then show ?thesis by (simp add: unat_of_nat)
qed

lemma utf8_ascii:
  assumes "\<And>c. c \<in> set s \<Longrightarrow> of_char c < (128 :: nat)"
  shows "utf8_valid (as_bytes s)"
  using assms
proof (induction s)
  case Nil
  then show ?case by (simp add: as_bytes_def)
next
  case (Cons c s)
  have "(word_of_nat (of_char c) :: byte) < 0x80" using Cons.prems [of c] by (simp add: word_less_nat_alt)
  then have "utf8_valid (as_bytes (c # s)) = utf8_valid (as_bytes s)"
    unfolding as_bytes_def list.map by (rule utf8_ascii_Cons)
  with Cons show ?case by (simp del: utf8_valid.simps)
qed

lemma from_utf8_ascii:
  assumes "\<And>c. c \<in> set s \<Longrightarrow> of_char c < (128 :: nat)"
  shows "from_utf8 (as_bytes s) = Some s"
  using utf8_ascii [OF assms] by (simp add: from_utf8_def as_bytes_def o_def)

end
