(* ===== verification/Wasi.thy ===== *)
theory Wasi
  imports Wasi_Errno Wasi_Abi Effects Fs_Types "HOL-Library.List_Lexorder" "HOL-Library.Char_ord"
begin

text \<open>
  The WASI calls offered to WebAssembly guests (\<open>wasmtime_wasi_api/src/wasi.rs\<close>, names prefixed with
  \<open>wasi_\<close>), and the exchange of buffers between guests (\<open>data_buffer.rs\<close>). A guest's memory is a list
  of bytes: wasmtime refuses an access outside it, which every call unwraps. The LibOS calls and the
  clock are the fields of \<open>WasiHost\<close>. Pointers are the guest's 32 bit integers; addresses are added as
  64 bit words that wrap, as in a release build. Output behind the \<open>log\<close> feature is not modelled.
\<close>

record 'w WasiHost =
  h_read :: "Fd \<Rightarrow> nat \<Rightarrow> ('w, FdtabError, byte list) act"
  h_write :: "Fd \<Rightarrow> byte list \<Rightarrow> ('w, FdtabError, nat) act"
  h_open :: "string \<Rightarrow> OpenFlags \<Rightarrow> OpenMode \<Rightarrow> ('w, FdtabError, Fd) act"
  h_close :: "Fd \<Rightarrow> ('w, FdtabError, unit) act"
  h_stat :: "Fd \<Rightarrow> ('w, FdtabError, Stat) act"
  h_readdir :: "string \<Rightarrow> ('w, FdtabError, DirEntry list) act"
  h_nanos :: "'w \<Rightarrow> nat \<times> 'w"
  h_pad :: padding

record 'w WasiCtx =
  caller_id :: string
  linear :: "byte list"
  WASI_STATE :: "string \<rightharpoonup> string list"
  FD2PATH :: "u32 \<rightharpoonup> string"
  JMP_BUF_MAP :: "string \<rightharpoonup> u64"
  os :: 'w

type_synonym ('w, 'a) wasi = "('w WasiCtx, FdtabError, 'a) act"

section \<open>Memory and LibOS calls\<close>

definition mem_load :: "u64 \<Rightarrow> nat \<Rightarrow> ('w, byte list) wasi" where
  "mem_load off n = (\<lambda>s. if unat off + n \<le> length (linear s) then (Ok (vslice (unat off) n (linear s)), s)
                         else (Panic, s))"

definition mem_store :: "u64 \<Rightarrow> byte list \<Rightarrow> ('w, unit) wasi" where
  "mem_store off bs = (\<lambda>s. if unat off + length bs \<le> length (linear s)
     then (Ok (), s\<lparr>linear := overwrite (unat off) bs (linear s)\<rparr>) else (Panic, s))"

definition os_call :: "('w, FdtabError, 'a) act \<Rightarrow> ('w, 'a) wasi" where
  "os_call m = (\<lambda>s. case m (os s) of (r, w) \<Rightarrow> (r, s\<lparr>os := w\<rparr>))"

definition success :: "('w, i32) wasi" where
  "success = act_ret (errno_code E_Success)"

section \<open>Arguments and environment\<close>

definition get_wasi_state :: "('w, string list) wasi" where
  "get_wasi_state = (\<lambda>s. case WASI_STATE s (caller_id s) of
     Some args \<Rightarrow> (if args = [] then Panic else Ok args, s)
   | None \<Rightarrow> (Panic, s))"

definition set_wasi_state :: "string \<Rightarrow> string list \<Rightarrow> ('w, unit) wasi" where
  "set_wasi_state i args = act_modify (\<lambda>s. s\<lparr>WASI_STATE := (WASI_STATE s)(i \<mapsto> args)\<rparr>)"

fun put_args :: "u64 \<Rightarrow> u64 \<Rightarrow> nat \<Rightarrow> nat \<Rightarrow> string list \<Rightarrow> ('w, unit) wasi" where
  "put_args argv argv_buf i off [] = act_ret ()"
| "put_args argv argv_buf i off (arg # args) =
    (let arg_addr = argv_buf + word_of_nat off in
     act_bind (mem_store (argv + word_of_nat (i * 4)) (le_bytes 4 (unat (ucast arg_addr :: u32)))) (\<lambda>_.
     act_bind (mem_store arg_addr (as_bytes arg)) (\<lambda>_.
     act_bind (mem_store (arg_addr + word_of_nat (length arg)) [0]) (\<lambda>_.
     put_args argv argv_buf (Suc i) (off + length arg + 1) args))))"

definition wasi_args_get :: "i32 \<Rightarrow> i32 \<Rightarrow> ('w, i32) wasi" where
  "wasi_args_get argv argv_buf =
    act_bind get_wasi_state (\<lambda>args.
    act_bind (put_args (as_usize argv) (as_usize argv_buf) 0 0 args) (\<lambda>_. success))"

definition args_size :: "string list \<Rightarrow> nat" where
  "args_size args = sum_list (map (\<lambda>v. length v + 1) args)"

definition wasi_args_sizes_get :: "i32 \<Rightarrow> i32 \<Rightarrow> ('w, i32) wasi" where
  "wasi_args_sizes_get argc argv_buf_size =
    act_bind get_wasi_state (\<lambda>args.
    act_bind (mem_store (as_usize argc) (le_bytes 4 (length args))) (\<lambda>_.
    act_bind (mem_store (as_usize argv_buf_size) (le_bytes 4 (args_size args))) (\<lambda>_. success)))"

definition wasi_environ_sizes_get :: "i32 \<Rightarrow> i32 \<Rightarrow> ('w, i32) wasi" where
  "wasi_environ_sizes_get environ_count environ_buf_size =
    act_bind (mem_store (as_usize environ_count) (le_bytes 4 0)) (\<lambda>_.
    act_bind (mem_store (as_usize environ_buf_size) (le_bytes 4 0)) (\<lambda>_. success))"

section \<open>Time, chance and the end of the process\<close>

text \<open>\<open>as_nanos\<close> is a 128 bit integer, of which all 16 bytes are written.\<close>

definition wasi_clock_time_get :: "'w WasiHost \<Rightarrow> i32 \<Rightarrow> i64 \<Rightarrow> i32 \<Rightarrow> ('w, i32) wasi" where
  "wasi_clock_time_get h clock_id precision time =
    act_bind (\<lambda>s. case h_nanos h (os s) of (n, w) \<Rightarrow> (Ok n, s\<lparr>os := w\<rparr>)) (\<lambda>nanos.
    act_bind (mem_store (as_usize time) (le_bytes 16 nanos)) (\<lambda>_. success))"

definition lcg_next :: "u64 \<Rightarrow> u64" where
  "lcg_next seed = (1664525 * seed + 1013904223) mod 2 ^ 32"

fun lcg_bytes :: "u64 \<Rightarrow> nat \<Rightarrow> byte list" where
  "lcg_bytes seed 0 = []"
| "lcg_bytes seed (Suc n) = (let seed = lcg_next seed in ucast (seed mod 256) # lcg_bytes seed n)"

text \<open>Collecting a negative number of bytes exceeds the capacity of a vector.\<close>

definition wasi_random_get :: "i32 \<Rightarrow> i32 \<Rightarrow> ('w, i32) wasi" where
  "wasi_random_get buf buf_len =
    (if sint buf_len < 0 then act_panic
     else act_bind (mem_store (as_usize buf) (lcg_bytes (as_usize buf) (unat buf_len))) (\<lambda>_. success))"

text \<open>\<open>proc_exit\<close> does not return: the jump buffer it continues at is its value.\<close>

definition wasi_proc_exit :: "i32 \<Rightarrow> ('w, u64) wasi" where
  "wasi_proc_exit code =
    (if code = 0 then (\<lambda>s. (unwrap_opt (JMP_BUF_MAP s (caller_id s)), s)) else act_panic)"

section \<open>Descriptors\<close>

definition wasi_fd_close :: "'w WasiHost \<Rightarrow> i32 \<Rightarrow> ('w, i32) wasi" where
  "wasi_fd_close h fd = act_bind (act_unwrap (os_call (h_close h fd))) (\<lambda>_. success)"

definition all_rights :: u64 where
  "all_rights = 0xFFFFFFFFFFFFFFFF"

definition fdstat_of :: "u32 \<Rightarrow> WasiFdstat" where
  "fdstat_of fd =
    (if fd = 0 then \<lparr>fs_filetype = 2, fs_flags = 0, fs_rights_base = all_rights, fs_rights_inheriting = 0\<rparr>
     else if fd = 1 \<or> fd = 2 then
       \<lparr>fs_filetype = 2, fs_flags = 1, fs_rights_base = all_rights, fs_rights_inheriting = 0\<rparr>
     else if fd = 3 then
       \<lparr>fs_filetype = 3, fs_flags = 0, fs_rights_base = all_rights, fs_rights_inheriting = all_rights\<rparr>
     else \<lparr>fs_filetype = 4, fs_flags = 0, fs_rights_base = all_rights, fs_rights_inheriting = all_rights\<rparr>)"

definition wasi_fd_fdstat_get :: "'w WasiHost \<Rightarrow> i32 \<Rightarrow> i32 \<Rightarrow> ('w, i32) wasi" where
  "wasi_fd_fdstat_get h fd retptr =
    act_bind (mem_store (as_usize retptr) (fdstat_bytes (h_pad h) (fdstat_of fd))) (\<lambda>_. success)"

definition wasi_fd_prestat_get :: "'w WasiHost \<Rightarrow> i32 \<Rightarrow> i32 \<Rightarrow> ('w, i32) wasi" where
  "wasi_fd_prestat_get h fd retptr =
    (if fd = 3 then
       act_bind (mem_store (as_usize retptr) (prestat_bytes (h_pad h) \<lparr>pr_tag = 0, pr_dirname_len = 1\<rparr>))
         (\<lambda>_. success)
     else act_ret (errno_code E_Badf))"

definition wasi_fd_prestat_dir_name :: "i32 \<Rightarrow> i32 \<Rightarrow> i32 \<Rightarrow> ('w, i32) wasi" where
  "wasi_fd_prestat_dir_name fd path_addr path_len =
    (if fd = 3 then act_bind (mem_store (as_usize path_addr) (as_bytes ''/'')) (\<lambda>_. success)
     else act_ret (errno_code E_Overflow))"

text \<open>Number of rounds of \<open>for i in 0..iovs_len\<close>.\<close>

definition iov_indices :: "i32 \<Rightarrow> nat list" where
  "iov_indices iovs_len = [0..<nat (sint iovs_len)]"

definition load_iovec :: "u64 \<Rightarrow> nat \<Rightarrow> ('w, WasiCiovec) wasi" where
  "load_iovec iovs i =
    act_bind (mem_load (iovs + word_of_nat i * 8) 8) (\<lambda>raw. act_ret (ciovec_of raw))"

fun read_iovs :: "'w WasiHost \<Rightarrow> Fd \<Rightarrow> u64 \<Rightarrow> nat list \<Rightarrow> nat \<Rightarrow> ('w, nat) wasi" where
  "read_iovs h fd iovs [] read_size = act_ret read_size"
| "read_iovs h fd iovs (i # is) read_size =
    act_bind (load_iovec iovs i) (\<lambda>v.
    act_bind (mem_load (ucast (ci_buf v)) (unat (ci_buf_len v))) (\<lambda>_.
    act_bind (act_unwrap (os_call (h_read h fd (unat (ci_buf_len v))))) (\<lambda>bs.
    act_bind (mem_store (ucast (ci_buf v)) bs) (\<lambda>_.
    read_iovs h fd iovs is (read_size + length bs)))))"

definition wasi_fd_read :: "'w WasiHost \<Rightarrow> i32 \<Rightarrow> i32 \<Rightarrow> i32 \<Rightarrow> i32 \<Rightarrow> ('w, i32) wasi" where
  "wasi_fd_read h fd iovs_ptr iovs_len retptr =
    act_bind (read_iovs h fd (as_usize iovs_ptr) (iov_indices iovs_len) 0) (\<lambda>read_size.
    act_bind (mem_store (as_usize retptr) (le_bytes 4 read_size)) (\<lambda>_. success))"

fun write_iovs :: "'w WasiHost \<Rightarrow> Fd \<Rightarrow> u64 \<Rightarrow> nat list \<Rightarrow> nat \<Rightarrow> ('w, nat) wasi" where
  "write_iovs h fd iovs [] write_size = act_ret write_size"
| "write_iovs h fd iovs (i # is) write_size =
    act_bind (load_iovec iovs i) (\<lambda>v.
    act_bind (mem_load (ucast (ci_buf v)) (unat (ci_buf_len v))) (\<lambda>bs.
    act_bind (act_unwrap (os_call (h_write h fd bs))) (\<lambda>n.
    write_iovs h fd iovs is (write_size + n))))"

definition wasi_fd_write :: "'w WasiHost \<Rightarrow> i32 \<Rightarrow> i32 \<Rightarrow> i32 \<Rightarrow> i32 \<Rightarrow> ('w, i32) wasi" where
  "wasi_fd_write h fd iovs_ptr iovs_len retptr =
    act_bind (write_iovs h fd (as_usize iovs_ptr) (iov_indices iovs_len) 0) (\<lambda>write_size.
    act_bind (mem_store (as_usize retptr) (le_bytes 4 write_size)) (\<lambda>_. success))"

section \<open>Directories\<close>

definition get_fd2path :: "u32 \<Rightarrow> ('w, string) wasi" where
  "get_fd2path fd = (\<lambda>s. case FD2PATH s fd of
     Some path \<Rightarrow> (if path = [] then Panic else Ok path, s)
   | None \<Rightarrow> (Panic, s))"

definition set_fd2path :: "u32 \<Rightarrow> string \<Rightarrow> ('w, unit) wasi" where
  "set_fd2path fd path = act_modify (\<lambda>s. s\<lparr>FD2PATH := (FD2PATH s)(fd \<mapsto> path)\<rparr>)"

definition wasi_filetype :: "u32 \<Rightarrow> byte" where
  "wasi_filetype t = (if t = 2 then 2 else if t = 4 then 3 else if t = 8 then 4 else 0)"

definition dirent_of :: "u64 \<Rightarrow> DirEntry \<Rightarrow> WasiDirent" where
  "dirent_of cookie item = \<lparr>d_next = cookie, d_ino = 0, d_namelen = word_of_nat (length (entry_name item)),
                             d_type = wasi_filetype (entry_type item)\<rparr>"

definition dot_entries :: "DirEntry list" where
  "dot_entries = [\<lparr>dir_path = ''.'', entry_name = ''.'', entry_type = 4\<rparr>,
                  \<lparr>dir_path = ''..'', entry_name = ''..'', entry_type = 4\<rparr>]"

fun put_dirents :: "padding \<Rightarrow> i32 \<Rightarrow> i32 \<Rightarrow> u64 \<Rightarrow> u32 \<Rightarrow> u32 \<Rightarrow> DirEntry list \<Rightarrow> ('w, i32) wasi" where
  "put_dirents pad buf_len bufused cur_cookie cur_buf bufused_len [] =
    act_bind (mem_store (as_usize bufused) (le_bytes 4 (unat bufused_len))) (\<lambda>_. success)"
| "put_dirents pad buf_len bufused cur_cookie cur_buf bufused_len (item # items) =
    (let cur_cookie = cur_cookie + 1;
         dirent = dirent_bytes pad (dirent_of cur_cookie item);
         name = as_bytes (entry_name item);
         namelen = word_of_nat (length name)
     in if bufused_len + 24 + namelen > buf_len then
          (let cap = buf_len - bufused_len; part_buf = dirent @ name in
           if unat cap > length part_buf then act_panic
           else act_bind (mem_store (ucast cur_buf) (take (unat cap) part_buf)) (\<lambda>_.
                act_bind (mem_store (as_usize bufused) (le_bytes 4 (unat buf_len))) (\<lambda>_. success)))
        else
          act_bind (mem_store (ucast cur_buf) dirent) (\<lambda>_.
          act_bind (mem_store (ucast (cur_buf + 24)) name) (\<lambda>_.
          put_dirents pad buf_len bufused cur_cookie (cur_buf + 24 + namelen) (bufused_len + 24 + namelen) items)))"

definition wasi_fd_readdir :: "'w WasiHost \<Rightarrow> i32 \<Rightarrow> i32 \<Rightarrow> i32 \<Rightarrow> i64 \<Rightarrow> i32 \<Rightarrow> ('w, i32) wasi" where
  "wasi_fd_readdir h fd buf buf_len cookie bufused =
    act_bind (get_fd2path fd) (\<lambda>path.
    act_bind (act_unwrap (os_call (h_readdir h path))) (\<lambda>entries.
    put_dirents (h_pad h) buf_len bufused cookie buf 0
      (drop (unat cookie) (sort_key entry_name (entries @ dot_entries)))))"

section \<open>Paths\<close>

definition load_path :: "i32 \<Rightarrow> i32 \<Rightarrow> ('w, string) wasi" where
  "load_path path_ptr path_len =
    act_bind (mem_load (as_usize path_ptr) (unat (as_usize path_len))) (\<lambda>bs. act_lift (unwrap_opt (from_utf8 bs)))"

text \<open>The outcome of opening: any error becomes \<open>Noent\<close>.\<close>

definition open_or_noent :: "('w, Fd) wasi \<Rightarrow> (Fd \<Rightarrow> ('w, i32) wasi) \<Rightarrow> ('w, i32) wasi" where
  "open_or_noent m k = (\<lambda>s. case m s of
     (Ok fd, s') \<Rightarrow> k fd s'
   | (Err e, s') \<Rightarrow> (Ok (errno_code E_Noent), s')
   | (Panic, s') \<Rightarrow> (Panic, s'))"

definition filestat_of :: "Stat \<Rightarrow> WasiFilestat" where
  "filestat_of st = \<lparr>fst_dev = st_dev st, fst_ino = st_ino st, fst_filetype = wasi_filetype (drop_bit 12 (st_mode st)),
     fst_nlink = st_nlink st, fst_size = st_size st, fst_atim = word_of_int (tv_nsec (st_atime st)),
     fst_mtim = word_of_int (tv_nsec (st_mtime st)), fst_ctim = word_of_int (tv_nsec (st_ctime st))\<rparr>"

definition wasi_path_filestat_get :: "'w WasiHost \<Rightarrow> i32 \<Rightarrow> i32 \<Rightarrow> i32 \<Rightarrow> i32 \<Rightarrow> i32 \<Rightarrow> ('w, i32) wasi" where
  "wasi_path_filestat_get h fd flags path_ptr path_len buf =
    act_bind (load_path path_ptr path_len) (\<lambda>path.
    open_or_noent (os_call (h_open h path 0 RD)) (\<lambda>path_fd.
    act_bind (act_unwrap (os_call (h_stat h path_fd))) (\<lambda>st.
    act_bind (act_unwrap (os_call (h_close h path_fd))) (\<lambda>_.
    act_bind (mem_store (as_usize buf) (filestat_bytes (h_pad h) (filestat_of st))) (\<lambda>_. success)))))"

definition open_flags_of :: "i32 \<Rightarrow> i32 \<Rightarrow> OpenFlags" where
  "open_flags_of fdflags oflags =
    (if bit fdflags 0 then O_APPEND else 0) OR (if bit oflags 0 then O_CREAT else 0)"

definition open_mode_of :: "i64 \<Rightarrow> OpenMode" where
  "open_mode_of rights = (if bit rights 1 then RD else 0) OR (if bit rights 6 then WR else 0)"

definition wasi_path_open ::
  "'w WasiHost \<Rightarrow> i32 \<Rightarrow> i32 \<Rightarrow> i32 \<Rightarrow> i32 \<Rightarrow> i32 \<Rightarrow> i64 \<Rightarrow> i64 \<Rightarrow> i32 \<Rightarrow> i32 \<Rightarrow> ('w, i32) wasi" where
  "wasi_path_open h fd dirflags path_addr path_len oflags rights_base rights_inheriting fdflags retptr =
    act_bind (load_path path_addr path_len) (\<lambda>path.
    open_or_noent (os_call (h_open h path (open_flags_of fdflags oflags) (open_mode_of rights_base))) (\<lambda>path_fd.
    act_bind (mem_store (as_usize retptr) (le_bytes 4 (unat path_fd))) (\<lambda>_.
    act_bind (set_fd2path path_fd path) (\<lambda>_. success))))"

section \<open>Calls without effect\<close>

text \<open>The remaining calls report success and do nothing.\<close>

definition wasi_clock_res_get :: "i32 \<Rightarrow> i32 \<Rightarrow> ('w, i32) wasi" where
  "wasi_clock_res_get x1 x2 = act_ret (errno_code E_Success)"

definition wasi_environ_get :: "i32 \<Rightarrow> i32 \<Rightarrow> ('w, i32) wasi" where
  "wasi_environ_get x1 x2 = act_ret (errno_code E_Success)"

definition wasi_fd_advise :: "i32 \<Rightarrow> i64 \<Rightarrow> i64 \<Rightarrow> i32 \<Rightarrow> ('w, i32) wasi" where
  "wasi_fd_advise x1 x2 x3 x4 = act_ret (errno_code E_Success)"

definition wasi_fd_datasync :: "i32 \<Rightarrow> ('w, i32) wasi" where
  "wasi_fd_datasync x1 = act_ret (errno_code E_Success)"

definition wasi_fd_fdstat_set_flags :: "i32 \<Rightarrow> i32 \<Rightarrow> ('w, i32) wasi" where
  "wasi_fd_fdstat_set_flags x1 x2 = act_ret (errno_code E_Success)"

definition wasi_fd_filestat_get :: "i32 \<Rightarrow> i32 \<Rightarrow> ('w, i32) wasi" where
  "wasi_fd_filestat_get x1 x2 = act_ret (errno_code E_Success)"

definition wasi_fd_filestat_set_size :: "i32 \<Rightarrow> i64 \<Rightarrow> ('w, i32) wasi" where
  "wasi_fd_filestat_set_size x1 x2 = act_ret (errno_code E_Success)"

definition wasi_fd_filestat_set_times :: "i32 \<Rightarrow> i64 \<Rightarrow> i64 \<Rightarrow> i32 \<Rightarrow> ('w, i32) wasi" where
  "wasi_fd_filestat_set_times x1 x2 x3 x4 = act_ret (errno_code E_Success)"

definition wasi_fd_pread :: "i32 \<Rightarrow> i32 \<Rightarrow> i32 \<Rightarrow> i64 \<Rightarrow> i32 \<Rightarrow> ('w, i32) wasi" where
  "wasi_fd_pread x1 x2 x3 x4 x5 = act_ret (errno_code E_Success)"

definition wasi_fd_pwrite :: "i32 \<Rightarrow> i32 \<Rightarrow> i32 \<Rightarrow> i64 \<Rightarrow> i32 \<Rightarrow> ('w, i32) wasi" where
  "wasi_fd_pwrite x1 x2 x3 x4 x5 = act_ret (errno_code E_Success)"

definition wasi_fd_seek :: "i32 \<Rightarrow> i64 \<Rightarrow> i32 \<Rightarrow> i32 \<Rightarrow> ('w, i32) wasi" where
  "wasi_fd_seek x1 x2 x3 x4 = act_ret (errno_code E_Success)"

definition wasi_fd_sync :: "i32 \<Rightarrow> ('w, i32) wasi" where
  "wasi_fd_sync x1 = act_ret (errno_code E_Success)"

definition wasi_fd_tell :: "i32 \<Rightarrow> i32 \<Rightarrow> ('w, i32) wasi" where
  "wasi_fd_tell x1 x2 = act_ret (errno_code E_Success)"

definition wasi_path_create_directory :: "i32 \<Rightarrow> i32 \<Rightarrow> i32 \<Rightarrow> ('w, i32) wasi" where
  "wasi_path_create_directory x1 x2 x3 = act_ret (errno_code E_Success)"

definition wasi_path_filestat_set_times :: "i32 \<Rightarrow> i32 \<Rightarrow> i32 \<Rightarrow> i32 \<Rightarrow> i64 \<Rightarrow> i64 \<Rightarrow> i32 \<Rightarrow> ('w, i32) wasi" where
  "wasi_path_filestat_set_times x1 x2 x3 x4 x5 x6 x7 = act_ret (errno_code E_Success)"

definition wasi_path_link :: "i32 \<Rightarrow> i32 \<Rightarrow> i32 \<Rightarrow> i32 \<Rightarrow> i32 \<Rightarrow> i32 \<Rightarrow> i32 \<Rightarrow> ('w, i32) wasi" where
  "wasi_path_link x1 x2 x3 x4 x5 x6 x7 = act_ret (errno_code E_Success)"

definition wasi_path_readlink :: "i32 \<Rightarrow> i32 \<Rightarrow> i32 \<Rightarrow> i32 \<Rightarrow> i32 \<Rightarrow> i32 \<Rightarrow> ('w, i32) wasi" where
  "wasi_path_readlink x1 x2 x3 x4 x5 x6 = act_ret (errno_code E_Success)"

definition wasi_path_remove_directory :: "i32 \<Rightarrow> i32 \<Rightarrow> i32 \<Rightarrow> ('w, i32) wasi" where
  "wasi_path_remove_directory x1 x2 x3 = act_ret (errno_code E_Success)"

definition wasi_path_rename :: "i32 \<Rightarrow> i32 \<Rightarrow> i32 \<Rightarrow> i32 \<Rightarrow> i32 \<Rightarrow> i32 \<Rightarrow> ('w, i32) wasi" where
  "wasi_path_rename x1 x2 x3 x4 x5 x6 = act_ret (errno_code E_Success)"

definition wasi_path_symlink :: "i32 \<Rightarrow> i32 \<Rightarrow> i32 \<Rightarrow> i32 \<Rightarrow> i32 \<Rightarrow> ('w, i32) wasi" where
  "wasi_path_symlink x1 x2 x3 x4 x5 = act_ret (errno_code E_Success)"

definition wasi_path_unlink_file :: "i32 \<Rightarrow> i32 \<Rightarrow> i32 \<Rightarrow> ('w, i32) wasi" where
  "wasi_path_unlink_file x1 x2 x3 = act_ret (errno_code E_Success)"

definition wasi_poll_oneoff :: "i32 \<Rightarrow> i32 \<Rightarrow> i32 \<Rightarrow> i32 \<Rightarrow> ('w, i32) wasi" where
  "wasi_poll_oneoff x1 x2 x3 x4 = act_ret (errno_code E_Success)"

definition wasi_sched_yield :: "('w, i32) wasi" where
  "wasi_sched_yield = act_ret (errno_code E_Success)"

definition wasi_sock_accept :: "i32 \<Rightarrow> i32 \<Rightarrow> i32 \<Rightarrow> ('w, i32) wasi" where
  "wasi_sock_accept x1 x2 x3 = act_ret (errno_code E_Success)"

definition wasi_sock_recv :: "i32 \<Rightarrow> i32 \<Rightarrow> i32 \<Rightarrow> i32 \<Rightarrow> i32 \<Rightarrow> i32 \<Rightarrow> ('w, i32) wasi" where
  "wasi_sock_recv x1 x2 x3 x4 x5 x6 = act_ret (errno_code E_Success)"

definition wasi_sock_send :: "i32 \<Rightarrow> i32 \<Rightarrow> i32 \<Rightarrow> i32 \<Rightarrow> i32 \<Rightarrow> ('w, i32) wasi" where
  "wasi_sock_send x1 x2 x3 x4 x5 = act_ret (errno_code E_Success)"

definition wasi_sock_shutdown :: "i32 \<Rightarrow> i32 \<Rightarrow> ('w, i32) wasi" where
  "wasi_sock_shutdown x1 x2 = act_ret (errno_code E_Success)"

section \<open>Linking\<close>

text \<open>The names under which \<open>import_all\<close> offers the calls. The linker refuses to define a name twice,
  which would be unwrapped.\<close>

definition wasi_names :: "string list" where
  "wasi_names = [
    ''args_get'', ''args_sizes_get'', ''clock_res_get'', ''clock_time_get'', ''environ_get'',
    ''environ_sizes_get'', ''fd_advise'', ''fd_close'', ''fd_datasync'', ''fd_fdstat_get'',
    ''fd_fdstat_set_flags'', ''fd_filestat_get'', ''fd_filestat_set_size'',
    ''fd_filestat_set_times'', ''fd_pread'', ''fd_pwrite'', ''fd_prestat_get'',
    ''fd_prestat_dir_name'', ''fd_read'', ''fd_readdir'', ''fd_seek'', ''fd_sync'', ''fd_tell'',
    ''fd_write'', ''path_create_directory'', ''path_filestat_get'', ''path_filestat_set_times'',
    ''path_link'', ''path_open'', ''path_readlink'', ''path_remove_directory'', ''path_rename'',
    ''path_symlink'', ''path_unlink_file'', ''poll_oneoff'', ''proc_exit'', ''random_get'',
    ''sched_yield'', ''sock_accept'', ''sock_recv'', ''sock_send'', ''sock_shutdown'']"

definition import_names :: "(string \<times> string) list" where
  "import_names = [(''env'', ''buffer_register''), (''env'', ''access_buffer'')] @
     map (\<lambda>n. (''wasi_snapshot_preview1'', n)) wasi_names"

fun func_wrap_all :: "(string \<times> string) list \<Rightarrow> (string \<times> string) list \<Rightarrow> (unit, (string \<times> string) list) res" where
  "func_wrap_all linker [] = Ok linker"
| "func_wrap_all linker (n # ns) = (if n \<in> set linker then Panic else func_wrap_all (linker @ [n]) ns)"

definition import_all :: "(unit, (string \<times> string) list) res" where
  "import_all = func_wrap_all [] import_names"

lemma func_wrap_all_distinct:
  "distinct (linker @ ns) \<Longrightarrow> func_wrap_all linker ns = Ok (linker @ ns)"
  by (induction ns arbitrary: linker) simp_all

text \<open>Every name is defined once, so linking never panics.\<close>

lemma import_all_succeeds: "import_all = Ok import_names"
proof -
  have "distinct wasi_names" by (simp add: wasi_names_def)
  then have "distinct ([] @ import_names)" by (auto simp: import_names_def distinct_map inj_on_def)
  then show ?thesis unfolding import_all_def by (simp only: func_wrap_all_distinct append_Nil)
qed

end
