(* ===== verification/Wasi_Props.thy ===== *)
theory Wasi_Props
  imports Wasi
begin

text \<open>
  Properties of the WASI calls: what a guest finds in its memory after \<open>args_get\<close>, \<open>fd_write\<close> and
  \<open>fd_readdir\<close>, and where the layer departs from what guests expect of WASI.
\<close>

section \<open>Pointers\<close>

lemma uint_nonneg: "0 \<le> sint p \<Longrightarrow> sint p = uint (p :: i32)"
proof -
  assume "0 \<le> sint p"
  moreover have "sint p < 2 ^ 32" using sint_lt [of p] by simp
  ultimately show ?thesis by (simp add: uint_sint take_bit_int_eq_self)
qed

lemma uint_as_usize: "uint (as_usize p) = sint p mod 2 ^ 64"
proof -
  have "as_usize p = word_of_int (sint p)" by (simp only: as_usize_def scast_eq)
  then show ?thesis using uint_word_of_int [of "sint p", where ?'a = 64] by simp
qed

lemma unat_as_usize:
  assumes "0 \<le> sint p"
  shows "unat (as_usize p) = unat p"
proof -
  have "sint p < 2 ^ 64" using sint_lt [of p] by simp
  then have "sint p mod 2 ^ 64 = sint p" using assms by (rule mod_pos_pos_trivial [rotated])
  then have "uint (as_usize p) = uint p" using uint_nonneg [OF assms] by (simp only: uint_as_usize)
  then show ?thesis by (simp flip: nat_uint_eq)
qed

lemma unat_as_usize_negative:
  assumes "sint p < 0"
  shows "2 ^ 63 \<le> unat (as_usize p)"
proof -
  have lower: "- (2 ^ 31) \<le> sint p" using sint_ge [of p] by simp
  have "uint (as_usize p) = (sint p + 2 ^ 64) mod 2 ^ 64" by (simp add: uint_as_usize)
  also have "\<dots> = sint p + 2 ^ 64" by (rule mod_pos_pos_trivial) (use assms lower in simp_all)
  finally have "2 ^ 63 \<le> uint (as_usize p)" using lower by simp
  then have "nat (2 ^ 63) \<le> nat (uint (as_usize p))" by (rule nat_mono)
  then show ?thesis by (simp add: nat_power_eq)
qed

lemma unat_plus: "unat a + n < 2 ^ 64 \<Longrightarrow> unat (a + word_of_nat n :: u64) = unat a + n"
proof -
  assume bound: "unat a + n < 2 ^ 64"
  then have n: "unat (word_of_nat n :: u64) = n" by (intro unat_word_of_nat_lt) simp
  have "unat (a + word_of_nat n) = (unat a + unat (word_of_nat n :: u64)) mod 2 ^ 64"
    using unat_word_ariths(1) [of a "word_of_nat n"] by simp
  also have "\<dots> = unat a + n" unfolding n using bound by (rule mod_less)
  finally show ?thesis .
qed

lemma mem_store_in:
  "unat off + length bs \<le> length (linear s) \<Longrightarrow>
   mem_store off bs s = (Ok (), s\<lparr>linear := overwrite (unat off) bs (linear s)\<rparr>)"
  by (simp add: mem_store_def)

lemma mem_load_in:
  "unat off + n \<le> length (linear s) \<Longrightarrow> mem_load off n s = (Ok (vslice (unat off) n (linear s)), s)"
  by (simp add: mem_load_def)

lemma bind_Ok: "m s = (Ok a, s') \<Longrightarrow> act_bind m f s = f a s'"
  by (simp add: act_bind_def)

lemma bind_Panic: "m s = (Panic, s') \<Longrightarrow> act_bind m f s = (Panic, s')"
  by (simp add: act_bind_def)

lemma success_apply [simp]: "success s = (Ok 0, s)"
  by (simp add: success_def act_ret_def)

lemma mem_store_high:
  assumes "sint p < 0" "length (linear s) < 2 ^ 63"
  shows "mem_store (as_usize p) bs s = (Panic, s)"
  using unat_as_usize_negative [OF assms(1)] assms(2) by (simp add: mem_store_def)

text \<open>A guest pointer at or above 2 GiB is sign-extended to a 64 bit address that lies outside every
  memory, so the calls that return a value through such a pointer panic, even though a 32 bit
  guest may have memory there.\<close>

theorem high_pointers_panic:
  assumes "sint p < 0" "length (linear s) < 2 ^ 63"
  shows "fst (wasi_clock_time_get h clock_id precision p s) = Panic \<and>
    fst (wasi_fd_fdstat_get h fd p s) = Panic \<and> fst (wasi_fd_prestat_get h 3 p s) = Panic \<and>
    fst (wasi_random_get p n s) = Panic \<and> fst (wasi_environ_sizes_get p q s) = Panic \<and>
    fst (wasi_args_sizes_get p q s) = Panic"
proof -
  have store: "mem_store (as_usize p) bs s' = (Panic, s')" if "linear s' = linear s" for bs and s' :: "'a WasiCtx"
    using mem_store_high [of p s' bs] that assms by simp
  have "fst (wasi_clock_time_get h clock_id precision p s) = Panic"
    by (simp add: wasi_clock_time_get_def act_bind_def store split: prod.split)
  moreover have "fst (wasi_fd_fdstat_get h fd p s) = Panic" "fst (wasi_fd_prestat_get h 3 p s) = Panic"
    "fst (wasi_environ_sizes_get p q s) = Panic" "fst (wasi_random_get p n s) = Panic"
    by (simp_all add: wasi_fd_fdstat_get_def wasi_fd_prestat_get_def wasi_environ_sizes_get_def
        wasi_random_get_def act_bind_def act_panic_def store)
  moreover have "fst (wasi_args_sizes_get p q s) = Panic"
    by (simp add: wasi_args_sizes_get_def get_wasi_state_def act_bind_def store split: option.split)
  ultimately show ?thesis by simp
qed

definition idle_host :: "unit WasiHost" where
  "idle_host = \<lparr>h_read = (\<lambda>_ _. act_ret []), h_write = (\<lambda>_ bs. act_ret (length bs)), h_open = (\<lambda>_ _ _. act_ret 4),
     h_close = (\<lambda>_. act_ret ()), h_stat = (\<lambda>fd. act_err (NoExistFd fd)), h_readdir = (\<lambda>_. act_ret []),
     h_nanos = (\<lambda>w. (1000, w)), h_pad = (\<lambda>_. 0)\<rparr>"

definition small_guest :: "nat \<Rightarrow> unit WasiCtx" where
  "small_guest n = \<lparr>caller_id = ''g'', linear = replicate n 7, WASI_STATE = [''g'' \<mapsto> [''a'', ''bc'']],
     FD2PATH = Map.empty, JMP_BUF_MAP = Map.empty, os = ()\<rparr>"

theorem high_pointers_panic_witness:
  "fst (wasi_clock_time_get idle_host 0 0 0x80000000 (small_guest 4)) = Panic"
  by (rule high_pointers_panic [of "0x80000000" "small_guest 4" idle_host 0 0, THEN conjunct1])
    (simp_all add: small_guest_def)

section \<open>Arguments\<close>

fun args_image :: "nat \<Rightarrow> nat \<Rightarrow> string list \<Rightarrow> byte list \<Rightarrow> byte list" where
  "args_image a b [] m = m"
| "args_image a b (arg # args) m =
    args_image (a + 4) (b + length arg + 1) args
      (overwrite b (as_bytes arg @ [0]) (overwrite a (le_bytes 4 b) m))"

text \<open>The image is written when both regions are inside the memory.\<close>

lemma put_args_image:
  assumes "unat argv + 4 * (i + length args) \<le> length (linear s)"
    "unat argv_buf + off + args_size args \<le> length (linear s)" "length (linear s) \<le> 2 ^ 32"
  shows "put_args argv argv_buf i off args s =
    (Ok (), s\<lparr>linear := args_image (unat argv + 4 * i) (unat argv_buf + off) args (linear s)\<rparr>)"
  using assms
proof (induction args arbitrary: i off s)
  case Nil
  then show ?case by (simp add: act_ret_def)
next
  case (Cons arg args)
  let ?b = "unat argv_buf + off" and ?a = "unat argv + 4 * i"
  have size: "args_size (arg # args) = length arg + 1 + args_size args" by (simp add: args_size_def)
  have small: "?b + length arg + 1 \<le> 2 ^ 32" "?a + 4 \<le> 2 ^ 32" "?b < 2 ^ 32"
    using Cons.prems by (simp_all add: size)
  have addr: "unat (argv_buf + word_of_nat off) = ?b"
    "unat (argv_buf + word_of_nat off + word_of_nat (length arg)) = ?b + length arg"
    using small by (simp_all add: unat_plus)
  have "unat argv + i * 4 < 2 ^ 64" using small(2) by simp
  from unat_plus [OF this] have slot: "unat (argv + word_of_nat (i * 4)) = ?a" by (simp only: mult.commute)
  have ptr: "unat (ucast (argv_buf + word_of_nat off) :: u32) = ?b"
    using addr(1) small(3) by (simp add: unsigned_ucast_eq take_bit_nat_eq_self)
  define m where "m = overwrite ?b (as_bytes arg @ [0]) (overwrite ?a (le_bytes 4 ?b) (linear s))"
  have len: "length m = length (linear s)" using Cons.prems by (simp add: m_def size)
  have m: "overwrite (?b + length arg) [0] (overwrite ?b (as_bytes arg) (overwrite ?a (le_bytes 4 ?b) (linear s))) = m"
    using overwrite_overwrite_adjacent [of ?b "as_bytes arg" "[0]" "overwrite ?a (le_bytes 4 ?b) (linear s)"]
      Cons.prems by (simp add: m_def size)
  have "put_args argv argv_buf i off (arg # args) s =
      put_args argv argv_buf (Suc i) (off + length arg + 1) args (s\<lparr>linear := m\<rparr>)"
    using Cons.prems by (simp add: Let_def act_bind_def mem_store_in addr slot ptr size m del: of_nat_mult)
  also have "\<dots> = (Ok (), s\<lparr>linear := args_image (unat argv + 4 * Suc i) (unat argv_buf + (off + length arg + 1)) args m\<rparr>)"
    using Cons.prems len by (subst Cons.IH) (simp_all add: size)
  finally show ?case by (simp only: m_def args_image.simps mult_Suc_right add.assoc add.commute [of 4])
qed

definition apart :: "nat \<Rightarrow> nat \<Rightarrow> nat \<Rightarrow> nat \<Rightarrow> bool" where
  "apart i m j n = (i + m \<le> j \<or> j + n \<le> i)"

lemma length_args_image:
  "a + 4 * length args \<le> length m \<Longrightarrow> b + args_size args \<le> length m \<Longrightarrow>
   length (args_image a b args m) = length m"
  by (induction args arbitrary: a b m) (simp_all add: args_size_def)

lemma args_image_keeps:
  assumes "a + 4 * length args \<le> length m" "b + args_size args \<le> length m" "j + n \<le> length m"
    "apart j n a (4 * length args)" "apart j n b (args_size args)"
  shows "vslice j n (args_image a b args m) = vslice j n m"
  using assms
proof (induction args arbitrary: a b m)
  case Nil
  then show ?case by simp
next
  case (Cons arg args)
  have size: "args_size (arg # args) = length arg + 1 + args_size args" by (simp add: args_size_def)
  let ?m = "overwrite b (as_bytes arg @ [0]) (overwrite a (le_bytes 4 b) m)"
  have "vslice j n (args_image a b (arg # args) m) = vslice j n ?m"
    using Cons.prems by (simp add: size) (rule Cons.IH; auto simp: apart_def)
  also have "\<dots> = vslice j n (overwrite a (le_bytes 4 b) m)"
    by (rule vslice_overwrite_disjoint) (use Cons.prems in \<open>auto simp: size apart_def\<close>)
  also have "\<dots> = vslice j n m"
    by (rule vslice_overwrite_disjoint) (use Cons.prems in \<open>auto simp: size apart_def\<close>)
  finally show ?case .
qed

text \<open>How a guest reads its arguments: each entry of \<open>argv\<close> points to a string that a zero ends.\<close>

definition c_string :: "byte list \<Rightarrow> nat \<Rightarrow> byte list" where
  "c_string m p = takeWhile (\<lambda>b. b \<noteq> 0) (drop p m)"

definition guest_argv :: "byte list \<Rightarrow> nat \<Rightarrow> nat \<Rightarrow> byte list list" where
  "guest_argv m argv n = map (\<lambda>i. c_string m (le_value (vslice (argv + 4 * i) 4 m))) [0..<n]"

lemma guest_argv_Suc:
  "guest_argv m argv (Suc n) = c_string m (le_value (vslice argv 4 m)) # guest_argv m (argv + 4) n"
proof -
  have "[0..<Suc n] = 0 # map Suc [0..<n]" by (simp add: map_Suc_upt upt_conv_Cons del: upt_Suc)
  then show ?thesis by (simp add: guest_argv_def o_def add.assoc del: upt_Suc)
qed

lemma c_string_slice:
  assumes "vslice p (length bs + 1) m = bs @ [0]" "0 \<notin> set bs"
  shows "c_string m p = bs"
proof -
  have "drop p m = (bs @ [0]) @ drop (length bs + 1) (drop p m)"
    using assms(1) unfolding vslice_def by (metis append_take_drop_id)
  then have "c_string m p = takeWhile (\<lambda>b. b \<noteq> 0) (bs @ 0 # drop (length bs + 1) (drop p m))"
    unfolding c_string_def by simp
  also have "\<dots> = bs" using assms(2) by (subst takeWhile_append2) auto
  finally show ?thesis .
qed

lemma guest_reads_image:
  assumes "a + 4 * length args \<le> length m" "b + args_size args \<le> length m" "length m \<le> 2 ^ 32"
    "apart a (4 * length args) b (args_size args)" "\<forall>arg \<in> set args. 0 \<notin> set (as_bytes arg)"
  shows "guest_argv (args_image a b args m) a (length args) = map as_bytes args"
  using assms
proof (induction args arbitrary: a b m)
  case Nil
  then show ?case by (simp add: guest_argv_def)
next
  case (Cons arg args)
  have size: "args_size (arg # args) = length arg + 1 + args_size args" by (simp add: args_size_def)
  define n where "n = overwrite a (le_bytes 4 b) m"
  define k where "k = overwrite b (as_bytes arg @ [0]) n"
  let ?i = "args_image (a + 4) (b + length arg + 1) args k"
  have len: "length n = length m" "length k = length m" using Cons.prems by (simp_all add: n_def k_def size)
  have image: "args_image a b (arg # args) m = ?i" by (simp add: k_def n_def)
  have "vslice a 4 ?i = vslice a 4 k"
    by (rule args_image_keeps) (use Cons.prems len in \<open>auto simp: size apart_def\<close>)
  also have "\<dots> = vslice a 4 n" unfolding k_def
    by (rule vslice_overwrite_disjoint) (use Cons.prems len in \<open>auto simp: size apart_def\<close>)
  also have "\<dots> = le_bytes 4 b"
    using vslice_overwrite_same [of a "le_bytes 4 b" m] Cons.prems by (simp add: n_def)
  finally have ptr: "le_value (vslice a 4 ?i) = b"
    using Cons.prems by (simp add: le_value_le_bytes size)
  have "vslice b (length arg + 1) ?i = vslice b (length arg + 1) k"
    by (rule args_image_keeps) (use Cons.prems len in \<open>auto simp: size apart_def\<close>)
  also have "\<dots> = as_bytes arg @ [0]"
    using vslice_overwrite_same [of b "as_bytes arg @ [0]" n] Cons.prems len by (simp add: k_def size)
  finally have str: "c_string ?i b = as_bytes arg" using Cons.prems by (intro c_string_slice) simp_all
  have rest: "guest_argv ?i (a + 4) (length args) = map as_bytes args"
    using Cons.prems len by (intro Cons.IH) (auto simp: size apart_def)
  have "guest_argv (args_image a b (arg # args) m) a (length (arg # args)) =
      c_string ?i (le_value (vslice a 4 ?i)) # guest_argv ?i (a + 4) (length args)"
    by (simp only: image list.size guest_argv_Suc add_0_right add_Suc_right One_nat_def)
  then show ?case by (simp only: ptr str rest list.map)
qed

text \<open>C25: After \<open>args_get\<close> a guest that provided room as told by \<open>args_sizes_get\<close> finds its arguments in
  its memory: following each pointer of \<open>argv\<close> to the terminating zero gives the arguments set for
  the guest, in order; nothing else of the state changes.\<close>

theorem guest_reads_its_arguments:
  assumes "WASI_STATE s (caller_id s) = Some args" "args \<noteq> []" "0 \<le> sint argv" "0 \<le> sint argv_buf"
    "unat argv + 4 * length args \<le> length (linear s)" "unat argv_buf + args_size args \<le> length (linear s)"
    "apart (unat argv) (4 * length args) (unat argv_buf) (args_size args)" "length (linear s) \<le> 2 ^ 32"
    "\<forall>arg \<in> set args. 0 \<notin> set (as_bytes arg)"
  shows "\<exists>m. wasi_args_get argv argv_buf s = (Ok 0, s\<lparr>linear := m\<rparr>) \<and> length m = length (linear s) \<and>
    guest_argv m (unat argv) (length args) = map as_bytes args"
proof -
  let ?m = "args_image (unat argv) (unat argv_buf) args (linear s)"
  have state: "get_wasi_state s = (Ok args, s)" using assms by (simp add: get_wasi_state_def)
  have put: "put_args (as_usize argv) (as_usize argv_buf) 0 0 args s = (Ok (), s\<lparr>linear := ?m\<rparr>)"
    using put_args_image [of "as_usize argv" 0 args s "as_usize argv_buf" 0] assms by (simp add: unat_as_usize)
  have "wasi_args_get argv argv_buf s = (Ok 0, s\<lparr>linear := ?m\<rparr>)"
    by (simp add: wasi_args_get_def act_bind_def state put)
  moreover have "length ?m = length (linear s)" using assms by (intro length_args_image)
  moreover have "guest_argv ?m (unat argv) (length args) = map as_bytes args"
    using assms by (intro guest_reads_image)
  ultimately show ?thesis by blast
qed

theorem guest_reads_its_arguments_witness:
  "\<exists>m. wasi_args_get 0 8 (small_guest 16) = (Ok 0, (small_guest 16)\<lparr>linear := m\<rparr>) \<and> length m = 16 \<and>
    guest_argv m 0 2 = [as_bytes ''a'', as_bytes ''bc'']"
proof -
  have two: "length [''a'', ''bc''] = 2" by simp
  show ?thesis
    using guest_reads_its_arguments [of "small_guest 16" "[''a'', ''bc'']" 0 8] unfolding two
    by (simp add: small_guest_def args_size_def apart_def as_bytes_def of_char_def)
qed

section \<open>Gathering writes\<close>

definition iovec_at :: "byte list \<Rightarrow> nat \<Rightarrow> nat \<Rightarrow> WasiCiovec" where
  "iovec_at m p i = ciovec_of (vslice (p + 8 * i) 8 m)"

definition iov_chunk :: "byte list \<Rightarrow> nat \<Rightarrow> nat \<Rightarrow> byte list" where
  "iov_chunk m p i = (let v = iovec_at m p i in vslice (unat (ci_buf v)) (unat (ci_buf_len v)) m)"

definition iov_inside :: "byte list \<Rightarrow> nat \<Rightarrow> nat \<Rightarrow> bool" where
  "iov_inside m p i = (let v = iovec_at m p i in
     p + 8 * i + 8 \<le> length m \<and> unat (ci_buf v) + unat (ci_buf_len v) \<le> length m)"

lemma unat_ucast_u64 [simp]: "unat (ucast (x :: u32) :: u64) = unat x"
  using unsigned_less [of x, where ?'a = nat] by (simp add: unsigned_ucast_eq take_bit_nat_eq_self)

lemma load_iovec_inside:
  assumes "iov_inside (linear s) (unat iovs) i" "length (linear s) \<le> 2 ^ 32"
  shows "load_iovec iovs i s = (Ok (iovec_at (linear s) (unat iovs) i), s)"
proof -
  have inside: "unat iovs + 8 * i + 8 \<le> length (linear s)" using assms(1) by (simp add: iov_inside_def Let_def)
  then have "unat iovs + i * 8 < 2 ^ 64" using assms(2) by simp
  from unat_plus [OF this] have "unat (iovs + word_of_nat i * 8) = unat iovs + 8 * i" by (simp add: mult.commute)
  with inside show ?thesis by (simp add: load_iovec_def act_bind_def act_ret_def mem_load_in iovec_at_def)
qed

lemma write_iovs_gathers:
  assumes "\<And>bs w. h_write h fd bs w = (Ok (length bs), sink w bs)"
    "\<forall>i \<in> set is. iov_inside (linear s) (unat iovs) i" "length (linear s) \<le> 2 ^ 32"
  shows "write_iovs h fd iovs is n s =
    (Ok (n + length (concat (map (iov_chunk (linear s) (unat iovs)) is))),
     s\<lparr>os := foldl sink (os s) (map (iov_chunk (linear s) (unat iovs)) is)\<rparr>)"
  using assms(2, 3)
proof (induction "is" arbitrary: n s)
  case Nil
  then show ?case by (simp add: act_ret_def)
next
  case (Cons i "is")
  let ?v = "iovec_at (linear s) (unat iovs) i" and ?c = "iov_chunk (linear s) (unat iovs) i"
  have load: "load_iovec iovs i s = (Ok ?v, s)" using Cons.prems by (intro load_iovec_inside) simp_all
  have range: "unat (ci_buf ?v) + unat (ci_buf_len ?v) \<le> length (linear s)"
    using Cons.prems by (simp add: iov_inside_def Let_def)
  have "write_iovs h fd iovs (i # is) n s = write_iovs h fd iovs is (n + length ?c) (s\<lparr>os := sink (os s) ?c\<rparr>)"
    using range by (simp add: act_bind_def load mem_load_in os_call_def act_unwrap_def assms(1) iov_chunk_def Let_def)
  then show ?case using Cons.IH [of "s\<lparr>os := sink (os s) ?c\<rparr>"] Cons.prems by (simp add: add.assoc)
qed

text \<open>C33: \<open>fd_write\<close> writes the parts of the guest's memory that the entries of the vector describe, one
  after the other and each with one write, and stores the sum of their lengths; it does so for
  every file on which a write takes all bytes it is given.\<close>

theorem fd_write_gathers:
  assumes "\<And>bs w. h_write h fd bs w = (Ok (length bs), sink w bs)" "0 \<le> sint iovs_ptr" "0 \<le> sint retptr"
    "\<forall>i < nat (sint iovs_len). iov_inside (linear s) (unat iovs_ptr) i"
    "unat retptr + 4 \<le> length (linear s)" "length (linear s) \<le> 2 ^ 32"
  shows "let chunks = map (iov_chunk (linear s) (unat iovs_ptr)) [0..<nat (sint iovs_len)] in
    wasi_fd_write h fd iovs_ptr iovs_len retptr s =
      (Ok 0, s\<lparr>os := foldl sink (os s) chunks,
               linear := overwrite (unat retptr) (le_bytes 4 (length (concat chunks))) (linear s)\<rparr>)"
proof -
  let ?is = "[0..<nat (sint iovs_len)]"
  have gather: "write_iovs h fd (as_usize iovs_ptr) ?is 0 s =
     (Ok (length (concat (map (iov_chunk (linear s) (unat iovs_ptr)) ?is))),
      s\<lparr>os := foldl sink (os s) (map (iov_chunk (linear s) (unat iovs_ptr)) ?is)\<rparr>)"
    using write_iovs_gathers [of h fd sink ?is s "as_usize iovs_ptr" 0] assms by (simp add: unat_as_usize)
  show ?thesis
    using assms(3, 5) by (simp add: Let_def wasi_fd_write_def iov_indices_def act_bind_def gather mem_store_in unat_as_usize)
qed

definition log_host :: "byte list WasiHost" where
  "log_host = \<lparr>h_read = (\<lambda>_ _. act_ret []), h_write = (\<lambda>_ bs w. (Ok (length bs), w @ bs)), h_open = (\<lambda>_ _ _. act_ret 4),
     h_close = (\<lambda>_. act_ret ()), h_stat = (\<lambda>fd. act_err (NoExistFd fd)), h_readdir = (\<lambda>_. act_ret []),
     h_nanos = (\<lambda>w. (1000, w)), h_pad = (\<lambda>_. 0)\<rparr>"

definition log_guest :: "byte list \<Rightarrow> byte list WasiCtx" where
  "log_guest m = \<lparr>caller_id = ''g'', linear = m, WASI_STATE = Map.empty, FD2PATH = Map.empty,
     JMP_BUF_MAP = Map.empty, os = []\<rparr>"

lemma two_rounds: "[0..<2] = [0, 1 :: nat]" "[0..<4] = [0, 1, 2, 3 :: nat]" "(\<forall>i < 2. P i) \<longleftrightarrow> P 0 \<and> P (1 :: nat)"
  by (simp_all add: numeral_eq_Suc All_less_Suc conj_commute)

theorem fd_write_gathers_witness:
  "snd (wasi_fd_write log_host 1 0 2 16 (log_guest ([20, 0, 0, 0, 2, 0, 0, 0, 17, 0, 0, 0, 1, 0, 0, 0] @ [9, 9, 9, 9, 65, 66])))
   = (log_guest ([20, 0, 0, 0, 2, 0, 0, 0, 17, 0, 0, 0, 1, 0, 0, 0] @ [3, 0, 0, 0, 65, 66]))\<lparr>os := [65, 66, 9]\<rparr>"
  using fd_write_gathers [of log_host 1 "\<lambda>w bs. w @ bs" 0 16 2
      "log_guest ([20, 0, 0, 0, 2, 0, 0, 0, 17, 0, 0, 0, 1, 0, 0, 0] @ [9, 9, 9, 9, 65, 66])"]
  by (simp add: log_host_def log_guest_def iov_inside_def iovec_at_def iov_chunk_def ciovec_of_def vslice_def
      Let_def overwrite_def le_bytes_def two_rounds)

section \<open>Chance and time\<close>

lemma low_byte: "unat (ucast (x :: u64) :: byte) = unat x mod 256"
  by (simp add: unsigned_ucast_eq take_bit_eq_mod)

lemma lcg_low_byte: "(ucast (lcg_next seed mod 256) :: byte) = 13 * ucast seed + 95"
proof -
  let ?x = "1664525 * unat seed + 1013904223"
  have "unat (1664525 * seed + 1013904223) = (unat (1664525 * seed) + unat (1013904223 :: u64)) mod 2 ^ 64"
    using unat_word_ariths(1) [of "1664525 * seed" 1013904223] by simp
  also have "unat (1664525 * seed) = (1664525 * unat seed) mod 2 ^ 64"
    using unat_word_ariths(2) [of 1664525 seed] by simp
  finally have wide: "unat (1664525 * seed + 1013904223) = ?x mod 2 ^ 64" by (simp add: mod_add_left_eq)
  have "unat (lcg_next seed) = ?x mod 2 ^ 64 mod 2 ^ 32" unfolding lcg_next_def unat_mod wide by simp
  then have "unat (lcg_next seed) mod 256 = ?x mod 256" by (simp add: mod_mod_cancel)
  also have "?x = 13 * unat seed + 95 + 256 * (6502 * unat seed + 3960563)" by simp
  also have "\<dots> mod 256 = (13 * unat seed + 95) mod 256" by (rule mod_mult_self2)
  also have "\<dots> = (13 * (unat seed mod 256) mod 256 + 95) mod 256" by (simp only: mod_simps)
  finally have "unat (ucast (lcg_next seed mod 256) :: byte) = (13 * (unat seed mod 256) mod 256 + 95) mod 256"
    by (simp add: low_byte unat_mod)
  also have "\<dots> = unat (13 * ucast seed + 95 :: byte)"
    using unat_word_ariths(1) [of "13 * ucast seed :: byte" 95] unat_word_ariths(2) [of 13 "ucast seed :: byte"]
    by (simp add: low_byte)
  finally show ?thesis by (rule word_unat_eq_iff [THEN iffD2])
qed

fun low_bytes :: "byte \<Rightarrow> nat \<Rightarrow> byte list" where
  "low_bytes b 0 = []"
| "low_bytes b (Suc n) = (let b = 13 * b + 95 in b # low_bytes b n)"

lemma lcg_bytes_low: "lcg_bytes seed n = low_bytes (ucast seed) n"
proof (induction n arbitrary: seed)
  case 0
  then show ?case by simp
next
  case (Suc n)
  have "unat (ucast (lcg_next seed) :: byte) = unat (ucast (lcg_next seed mod 256) :: byte)"
    by (simp add: low_byte unat_mod)
  then have "(ucast (lcg_next seed) :: byte) = 13 * ucast seed + 95"
    unfolding word_unat_eq_iff [symmetric] by (simp only: lcg_low_byte)
  with Suc.IH show ?case by (simp add: Let_def lcg_low_byte)
qed

lemma length_low_bytes [simp]: "length (low_bytes b n) = n"
  by (induction n arbitrary: b) (simp_all add: Let_def)

lemma ucast_as_usize:
  assumes "0 \<le> sint p"
  shows "(ucast (as_usize p) :: byte) = ucast p"
proof -
  have "unat (ucast (as_usize p) :: byte) = unat p mod 256" by (simp add: low_byte unat_as_usize [OF assms])
  also have "\<dots> = unat (ucast p :: byte)" by (simp add: unsigned_ucast_eq take_bit_eq_mod)
  finally show ?thesis by (rule word_unat_eq_iff [THEN iffD2])
qed

text \<open>The bytes \<open>random_get\<close> stores are a function of the low byte of the address they go to: two
  guests that ask for the same number of bytes at addresses equal modulo 256 get the same
  bytes, in any state.\<close>

theorem random_bytes_repeat:
  assumes "(ucast p :: byte) = ucast q" "0 \<le> sint p" "0 \<le> sint q" "0 \<le> sint n"
    "unat p + unat n \<le> length (linear s)" "unat q + unat n \<le> length (linear t)"
  shows "\<exists>bs. length bs = unat n \<and>
    wasi_random_get p n s = (Ok 0, s\<lparr>linear := overwrite (unat p) bs (linear s)\<rparr>) \<and>
    wasi_random_get q n t = (Ok 0, t\<lparr>linear := overwrite (unat q) bs (linear t)\<rparr>)"
proof (intro exI conjI)
  show "length (low_bytes (ucast q) (unat n)) = unat n" by simp
  show "wasi_random_get p n s = (Ok 0, s\<lparr>linear := overwrite (unat p) (low_bytes (ucast q) (unat n)) (linear s)\<rparr>)"
    using assms by (simp add: wasi_random_get_def act_bind_def mem_store_in unat_as_usize lcg_bytes_low ucast_as_usize)
  show "wasi_random_get q n t = (Ok 0, t\<lparr>linear := overwrite (unat q) (low_bytes (ucast q) (unat n)) (linear t)\<rparr>)"
    using assms by (simp add: wasi_random_get_def act_bind_def mem_store_in unat_as_usize lcg_bytes_low ucast_as_usize)
qed

theorem random_bytes_repeat_witness:
  "\<exists>bs. length bs = 2 \<and>
    wasi_random_get 1 2 (small_guest 4) = (Ok 0, (small_guest 4)\<lparr>linear := overwrite 1 bs (replicate 4 7)\<rparr>) \<and>
    wasi_random_get 257 2 (small_guest 300) = (Ok 0, (small_guest 300)\<lparr>linear := overwrite 257 bs (replicate 300 7)\<rparr>)"
proof -
  have "linear (small_guest n) = replicate n 7" for n by (simp add: small_guest_def)
  then show ?thesis using random_bytes_repeat [of 1 257 2 "small_guest 4" "small_guest 300"] by simp
qed

lemma le_bytes_add: "le_bytes (j + k) v = le_bytes j v @ le_bytes k (v div 256 ^ j)"
  by (induction j arbitrary: v) (simp_all add: le_bytes_Suc div_mult2_eq, simp add: le_bytes_def)

lemma le_bytes_zero: "le_bytes k 0 = replicate k 0"
  by (simp add: le_bytes_def map_replicate_const)

text \<open>\<open>clock_time_get\<close> stores 16 bytes where a guest expects a 64 bit time stamp: the 8 bytes after
  the time stamp, whatever they held, become zero.\<close>

theorem clock_time_get_clobbers:
  assumes "h_nanos h (os s) = (n, w)" "n < 2 ^ 64" "0 \<le> sint time" "unat time + 16 \<le> length (linear s)"
  shows "\<exists>m. wasi_clock_time_get h clock_id precision time s = (Ok 0, s\<lparr>os := w, linear := m\<rparr>) \<and>
    le_value (vslice (unat time) 8 m) = n \<and> vslice (unat time + 8) 8 m = replicate 8 0"
proof -
  have bytes: "le_bytes 16 n = le_bytes 8 n @ replicate 8 0"
    using le_bytes_add [of 8 8 n] assms(2) by (simp add: le_bytes_zero)
  let ?m = "overwrite (unat time) (le_bytes 16 n) (linear s)"
  have all: "vslice (unat time) 16 ?m = le_bytes 8 n @ replicate 8 0"
    using vslice_overwrite_same [of "unat time" "le_bytes 16 n" "linear s"] assms(4) by (simp add: bytes)
  then have "vslice (unat time) 8 ?m @ vslice (unat time + 8) 8 ?m = le_bytes 8 n @ replicate 8 0"
    using vslice_append_adjacent [of "unat time" 8 8 ?m] by simp
  then have halves: "vslice (unat time) 8 ?m = le_bytes 8 n" "vslice (unat time + 8) 8 ?m = replicate 8 0"
    using assms(4) by (simp_all add: append_eq_append_conv)
  have "wasi_clock_time_get h clock_id precision time s = (Ok 0, s\<lparr>os := w, linear := ?m\<rparr>)"
    using assms by (simp add: wasi_clock_time_get_def act_bind_def mem_store_in unat_as_usize)
  with halves assms(2) show ?thesis by (auto simp: le_value_le_bytes)
qed

theorem clock_time_get_clobbers_witness:
  "\<exists>m. wasi_clock_time_get idle_host 0 0 0 (small_guest 16) = (Ok 0, (small_guest 16)\<lparr>linear := m\<rparr>) \<and>
    le_value (vslice 0 8 m) = 1000 \<and> vslice 8 8 m = replicate 8 0"
  using clock_time_get_clobbers [of idle_host "small_guest 16" 1000 "()" 0 0 0]
  by (simp add: idle_host_def small_guest_def)

end
