(* ===== verification/Wasi_Readdir.thy ===== *)
theory Wasi_Readdir
  imports Wasi_Props
begin

text \<open>
  \<open>fd_readdir\<close>: the entries from the cookie on, encoded one after the other, form a stream of bytes,
  and the call stores as much of it as the guest's buffer takes.
\<close>

fun dirent_stream :: "padding \<Rightarrow> u64 \<Rightarrow> DirEntry list \<Rightarrow> byte list" where
  "dirent_stream pad cookie [] = []"
| "dirent_stream pad cookie (item # items) =
    dirent_bytes pad (dirent_of (cookie + 1) item) @ as_bytes (entry_name item) @
    dirent_stream pad (cookie + 1) items"

lemma unat_u32_plus: "unat a + n < 2 ^ 32 \<Longrightarrow> unat (a + word_of_nat n :: u32) = unat a + n"
proof -
  assume bound: "unat a + n < 2 ^ 32"
  then have n: "unat (word_of_nat n :: u32) = n" by (intro unat_word_of_nat_lt) simp
  have "unat (a + word_of_nat n) = (unat a + unat (word_of_nat n :: u32)) mod 2 ^ 32"
    using unat_word_ariths(1) [of a "word_of_nat n"] by simp
  also have "\<dots> = unat a + n" unfolding n using bound by (rule mod_less)
  finally show ?thesis .
qed

lemma u32_plus_24: "unat a + (24 + n) < 2 ^ 32 \<Longrightarrow> unat (a + 24 + word_of_nat n :: u32) = unat a + (24 + n)"
  using unat_u32_plus [of a "24 + n"] by (simp add: add.assoc)

text \<open>Storing two neighbouring pieces, and then what follows them, is storing the whole.\<close>

lemma overwrite_three:
  "i + length xs + length ys + length zs \<le> length m \<Longrightarrow>
   overwrite (i + length xs + length ys) zs (overwrite (i + length xs) ys (overwrite i xs m)) =
   overwrite i (xs @ ys @ zs) m"
  using overwrite_overwrite_adjacent [of i xs ys m] overwrite_overwrite_adjacent [of i "xs @ ys" zs m]
  by (simp add: add.assoc)

lemma put_dirents_stream:
  assumes "unat used \<le> unat buf_len" "unat cur + (unat buf_len - unat used) \<le> length (linear s)"
    "length (linear s) \<le> 2 ^ 32" "0 \<le> sint bufused" "unat bufused + 4 \<le> length (linear s)"
    "\<forall>item \<in> set items. unat buf_len + 24 + length (entry_name item) < 2 ^ 32"
    "unat cur + (unat buf_len - unat used) < 2 ^ 32"
  shows "let part = take (unat buf_len - unat used) (dirent_stream pad cookie items) in
    put_dirents pad buf_len bufused cookie cur used items s =
      (Ok 0, s\<lparr>linear := overwrite (unat bufused) (le_bytes 4 (unat used + length part))
                         (overwrite (unat cur) part (linear s))\<rparr>)"
  using assms
proof (induction items arbitrary: cookie cur used s)
  case Nil
  then show ?case by (simp add: act_bind_def mem_store_in unat_as_usize)
next
  case (Cons item items)
  let ?d = "dirent_bytes pad (dirent_of (cookie + 1) item)" and ?n = "as_bytes (entry_name item)"
  let ?l = "24 + length (entry_name item)" and ?room = "unat buf_len - unat used"
  have small: "unat used + ?l < 2 ^ 32" using Cons.prems by simp
  have size: "unat (used + 24 + word_of_nat (length (entry_name item))) = unat used + ?l"
    using small by (rule u32_plus_24)
  have room: "unat (buf_len - used) = ?room" using Cons.prems(1) by (simp add: unat_sub word_le_nat_alt)
  show ?case
  proof (cases "?room < ?l")
    case True
    then have over: "used + 24 + word_of_nat (length (entry_name item)) > buf_len"
      using size Cons.prems(1) by (simp add: word_less_nat_alt)
    have part: "take ?room (dirent_stream pad cookie (item # items)) = take ?room (?d @ ?n)"
      using True by (simp add: take_append)
    have len: "length (take ?room (?d @ ?n)) = ?room" using True by simp
    show ?thesis using over room True len Cons.prems(1-5)
      by (simp add: Let_def act_bind_def mem_store_in unat_as_usize part del: take_append dirent_stream.simps)
  next
    case False
    then have fits: "\<not> used + 24 + word_of_nat (length (entry_name item)) > buf_len"
      using size Cons.prems(1) by (simp add: word_less_nat_alt)
    have cur: "unat (cur + 24 + word_of_nat (length (entry_name item))) = unat cur + ?l"
      using False Cons.prems by (intro u32_plus_24) simp
    have cur24: "unat (cur + 24) = unat cur + 24"
      using False Cons.prems unat_u32_plus [of cur 24] by simp
    define m where "m = overwrite (unat cur + 24) ?n (overwrite (unat cur) ?d (linear s))"
    have len: "length m = length (linear s)" using False Cons.prems by (simp add: m_def)
    define rest where "rest = take (?room - ?l) (dirent_stream pad (cookie + 1) items)"
    have step: "put_dirents pad buf_len bufused cookie cur used (item # items) s =
        put_dirents pad buf_len bufused (cookie + 1) (cur + 24 + word_of_nat (length (entry_name item)))
          (used + 24 + word_of_nat (length (entry_name item))) items (s\<lparr>linear := m\<rparr>)"
      using fits False Cons.prems(2) by (simp add: Let_def act_bind_def mem_store_in cur24 m_def)
    have part: "take ?room (dirent_stream pad cookie (item # items)) = ?d @ ?n @ rest"
      using False by (simp add: rest_def add.assoc)
    have short: "length rest \<le> ?room - ?l" by (simp add: rest_def)
    have image: "overwrite (unat cur + ?l) rest m = overwrite (unat cur) (?d @ ?n @ rest) (linear s)"
      unfolding m_def using overwrite_three [of "unat cur" ?d ?n rest "linear s"] short False Cons.prems(2)
      by (simp add: add.assoc)
    have "put_dirents pad buf_len bufused cookie cur used (item # items) s =
        (Ok 0, s\<lparr>linear := overwrite (unat bufused) (le_bytes 4 (unat used + ?l + length rest))
                          (overwrite (unat cur + ?l) rest m)\<rparr>)"
      unfolding step using False Cons.prems len
      by (subst Cons.IH [unfolded Let_def]) (simp_all add: size cur rest_def)
    then show ?thesis unfolding Let_def part image by (simp add: add.assoc)
  qed
qed

text \<open>C24: \<open>fd_readdir\<close> stores the longest prefix of the encoded listing that fits the guest's buffer:
  the entries of the directory with \<open>.\<close> and \<open>..\<close>, sorted by name, from the cookie on, each
  carrying the cookie of its successor. The number of bytes stored goes to \<open>bufused\<close>, so the
  guest sees the end of the listing exactly when the buffer was not filled. The call does not
  panic, in particular not when an entry is cut in two.\<close>

theorem fd_readdir_stores_prefix:
  assumes "FD2PATH s fd = Some path" "path \<noteq> []" "h_readdir h path (os s) = (Ok entries, w)"
    "unat buf + unat buf_len \<le> length (linear s)" "unat buf + unat buf_len < 2 ^ 32" "length (linear s) \<le> 2 ^ 32"
    "0 \<le> sint bufused" "unat bufused + 4 \<le> length (linear s)"
    "\<forall>item \<in> set (entries @ dot_entries). unat buf_len + 24 + length (entry_name item) < 2 ^ 32"
  shows "let listing = sort_key entry_name (entries @ dot_entries);
             part = take (unat buf_len) (dirent_stream (h_pad h) cookie (drop (unat cookie) listing))
    in wasi_fd_readdir h fd buf buf_len cookie bufused s =
      (Ok 0, s\<lparr>os := w, linear := overwrite (unat bufused) (le_bytes 4 (length part))
                                  (overwrite (unat buf) part (linear s))\<rparr>)"
proof -
  let ?items = "drop (unat cookie) (sort_key entry_name (entries @ dot_entries))"
  have "\<forall>item \<in> set ?items. unat buf_len + 24 + length (entry_name item) < 2 ^ 32"
    using assms(9) by (metis in_set_dropD set_sort)
  then have put: "put_dirents (h_pad h) buf_len bufused cookie buf 0 ?items (s\<lparr>os := w\<rparr>) =
     (let part = take (unat buf_len) (dirent_stream (h_pad h) cookie ?items) in
      (Ok 0, s\<lparr>os := w, linear := overwrite (unat bufused) (le_bytes 4 (length part))
                                  (overwrite (unat buf) part (linear s))\<rparr>))"
    using put_dirents_stream [of 0 buf_len buf "s\<lparr>os := w\<rparr>" bufused ?items "h_pad h" cookie] assms
    by (simp add: Let_def)
  have path: "get_fd2path fd s = (Ok path, s)" using assms(1, 2) by (simp add: get_fd2path_def)
  have "wasi_fd_readdir h fd buf buf_len cookie bufused s =
      put_dirents (h_pad h) buf_len bufused cookie buf 0 ?items (s\<lparr>os := w\<rparr>)"
    by (simp add: wasi_fd_readdir_def act_bind_def path os_call_def act_unwrap_def assms(3))
  then show ?thesis unfolding put by (simp only: Let_def)
qed

theorem fd_readdir_stores_prefix_witness:
  "let s = (small_guest 64)\<lparr>FD2PATH := [4 \<mapsto> ''/'']\<rparr>;
       part = take 40 (dirent_stream (h_pad idle_host) 0 (drop 0 (sort_key entry_name ([] @ dot_entries))))
   in wasi_fd_readdir idle_host 4 0 40 0 60 s =
      (Ok 0, s\<lparr>os := (), linear := overwrite 60 (le_bytes 4 (length part)) (overwrite 0 part (linear s))\<rparr>)"
  using fd_readdir_stores_prefix [of "(small_guest 64)\<lparr>FD2PATH := [4 \<mapsto> ''/'']\<rparr>" 4 "''/''" idle_host "[]" "()" 0 40 60 0]
  by (simp add: Let_def small_guest_def idle_host_def act_ret_def dot_entries_def)

end
