(* ===== verification/Wasi_Services.thy ===== *)
theory Wasi_Services
  imports Wasi_Readdir Fdtab
begin

text \<open>
  The WASI calls over the file descriptor service. Listing a directory and the clock are no calls of
  that service and stay arguments.
\<close>

definition fdtab_host ::
  "'w FdBackend \<Rightarrow> (string \<Rightarrow> ('w FdState, FdtabError, DirEntry list) act) \<Rightarrow>
   ('w FdState \<Rightarrow> nat \<times> 'w FdState) \<Rightarrow> padding \<Rightarrow> 'w FdState WasiHost" where
  "fdtab_host b listing now pad = \<lparr>h_read = fd_read b, h_write = fd_write b, h_open = fd_open b,
     h_close = fd_close b, h_stat = fd_stat b, h_readdir = listing, h_nanos = now, h_pad = pad\<rparr>"

lemma fdtab_host_simps [simp]:
  "h_open (fdtab_host b listing now pad) = fd_open b" "h_close (fdtab_host b listing now pad) = fd_close b"
  "h_stat (fdtab_host b listing now pad) = fd_stat b" "h_pad (fdtab_host b listing now pad) = pad"
  by (simp_all add: fdtab_host_def)

lemma os_call_apply [act_simps]:
  "os_call m s = (r, s') \<longleftrightarrow> (\<exists>w. m (os s) = (r, w) \<and> s' = s\<lparr>os := w\<rparr>)"
  by (auto simp: os_call_def split: prod.splits)

lemma open_or_noent_Ok:
  "open_or_noent m k s = (Ok c, s') \<longleftrightarrow>
    (\<exists>fd s1. m s = (Ok fd, s1) \<and> k fd s1 = (Ok c, s')) \<or> (\<exists>e. m s = (Err e, s') \<and> c = 44)"
  by (cases "m s"; cases "fst (m s)") (auto simp: open_or_noent_def)

lemma mem_store_Ok: "mem_store off bs s = (Ok x, s') \<Longrightarrow> os s' = os s"
  by (auto simp: mem_store_def split: if_splits)

lemma load_path_Ok: "load_path p n s = (Ok path, s') \<Longrightarrow> s' = s"
  by (auto simp: load_path_def mem_load_def act_simps split: if_splits)

lemma open_effect:
  assumes "fdvec_ok (Suc n) (FD_TABLE s)" "fd_open b path flags mode s = (Ok fd, s')"
  shows "fd_lookup s fd = None \<and> fdvec_ok n (FD_TABLE s') \<and>
    (\<exists>raw. fd_lookup s' = (fd_lookup s)(fd \<mapsto> \<lparr>file_mode = mode, file_src = FatFS raw\<rparr>))"
proof -
  obtain raw w where "b_fatfs_open b path flags (services s) = (Ok raw, w)"
    and inst: "install_file \<lparr>file_mode = mode, file_src = FatFS raw\<rparr> (s\<lparr>services := w\<rparr>) = (Ok fd, s')"
    using assms(2) by (auto simp: fd_open_def act_simps)
  have "fdvec_ok (Suc n) (FD_TABLE (s\<lparr>services := w\<rparr>))" using assms(1) by simp
  from install_file_effect [OF this inst] show ?thesis by auto
qed

lemma failed_open_keeps: "fd_open b path flags mode s = (Err e, s') \<Longrightarrow> FD_TABLE s' = FD_TABLE s"
  by (auto simp: fd_open_def act_simps install_file_def split: prod.splits)

text \<open>\<open>path_filestat_get\<close>, which opens the file, asks for its status and closes it, leaves no trace in
  the descriptor table: whenever it returns, success or \<open>Noent\<close>, the same descriptors are open on
  the same files as before.\<close>

theorem path_filestat_get_keeps_descriptors:
  assumes "length (FD_TABLE (os s)) + 4 \<le> 2 ^ 32"
    "wasi_path_filestat_get (fdtab_host b listing now pad) fd flags path_ptr path_len buf s = (Ok c, s')"
  shows "(c = 0 \<or> c = 44) \<and> fd_lookup (os s') = fd_lookup (os s)"
proof -
  have ok: "fdvec_ok (Suc 0) (FD_TABLE (os s))" using assms(1) by (simp add: fdvec_ok_def)
  obtain path where path: "load_path path_ptr path_len s = (Ok path, s)"
    using assms(2) load_path_Ok by (fastforce simp: wasi_path_filestat_get_def act_bind_apply)
  let ?rest = "\<lambda>path_fd. act_bind (act_unwrap (os_call (fd_stat b path_fd))) (\<lambda>st.
    act_bind (act_unwrap (os_call (fd_close b path_fd))) (\<lambda>_.
    act_bind (mem_store (as_usize buf) (filestat_bytes pad (filestat_of st))) (\<lambda>_. success)))"
  have "open_or_noent (os_call (fd_open b path 0 RD)) ?rest s = (Ok c, s')"
    using assms(2) path by (simp add: wasi_path_filestat_get_def act_bind_def)
  then consider fd1 s1 where "os_call (fd_open b path 0 RD) s = (Ok fd1, s1)" "?rest fd1 s1 = (Ok c, s')"
    | e where "os_call (fd_open b path 0 RD) s = (Err e, s')" "c = 44"
    unfolding open_or_noent_Ok by blast
  then show ?thesis
  proof cases
    case 1
    then obtain w where opened: "fd_open b path 0 RD (os s) = (Ok fd1, w)" "s1 = s\<lparr>os := w\<rparr>"
      by (auto simp: os_call_apply)
    note eff = open_effect [OF ok opened(1)]
    obtain st w1 x w2 s3 where chain: "fd_stat b fd1 w = (Ok st, w1)" "fd_close b fd1 w1 = (Ok x, w2)"
      "mem_store (as_usize buf) (filestat_bytes pad (filestat_of st)) (s\<lparr>os := w2\<rparr>) = (Ok (), s3)" "s' = s3" "c = 0"
      using 1(2) opened(2) by (auto simp: act_simps success_def)
    have same: "FD_TABLE w1 = FD_TABLE w" using io_keeps_table(4) [of b fd1 w] chain(1) by simp
    then have "fd_lookup w2 = (fd_lookup w)(fd1 := None)"
      using close_promise [of 0 w1 b fd1 "Ok x" w2] chain(2) eff by simp
    also have "\<dots> = fd_lookup (os s)" using eff by (auto simp: fun_eq_iff)
    finally show ?thesis using chain(3-5) mem_store_Ok [OF chain(3)] by simp
  next
    case 2
    then show ?thesis using failed_open_keeps by (fastforce simp: os_call_apply)
  qed
qed

definition plain_stat :: Stat where
  "plain_stat = (let z = \<lparr>tv_sec = 0, tv_nsec = 0\<rparr> in
     \<lparr>st_dev = 0, st_ino = 0, st_nlink = 1, st_mode = 0x8000, st_uid = 0, st_gid = 0, pad0 = 0, st_rdev = 0,
      st_size = 5, st_blksize = 0, st_blocks = 0, st_atime = z, st_mtime = z, st_ctime = z, st_unused = []\<rparr>)"

definition stat_backend :: "(nat \<times> byte list) FdBackend" where
  "stat_backend = log_backend\<lparr>b_fatfs_stat := \<lambda>h w. (Ok plain_stat, w), b_fatfs_close := \<lambda>h w. (Ok (), w)\<rparr>"

definition fd_guest :: "nat \<Rightarrow> (nat \<times> byte list) FdState WasiCtx" where
  "fd_guest n = \<lparr>caller_id = ''g'', linear = as_bytes ''a'' @ replicate n 0, WASI_STATE = Map.empty,
     FD2PATH = Map.empty, JMP_BUF_MAP = Map.empty, os = \<lparr>FD_TABLE = [], services = (7, [])\<rparr>\<rparr>"

abbreviation stat_host :: "(nat \<times> byte list) FdState WasiHost" where
  "stat_host \<equiv> fdtab_host stat_backend (\<lambda>_. act_ret []) (\<lambda>w. (0, w)) (\<lambda>_. 0)"

lemma guest_path: "load_path 0 1 (fd_guest n) = (Ok ''a'', fd_guest n)"
proof -
  have parsed: "from_utf8 (as_bytes ''a'') = Some ''a''" by (rule from_utf8_ascii) simp
  have "vslice 0 1 (linear (fd_guest n)) = as_bytes ''a''" by (simp add: fd_guest_def vslice_def)
  moreover have "1 \<le> length (linear (fd_guest n))" by (simp add: fd_guest_def)
  ultimately show ?thesis
    by (simp add: load_path_def mem_load_def act_bind_def act_lift_def as_usize_def parsed)
qed

theorem path_filestat_get_keeps_descriptors_witness:
  "\<exists>s'. wasi_path_filestat_get stat_host 3 0 0 1 8 (fd_guest 80) = (Ok 0, s') \<and>
    fd_lookup (os s') = fd_lookup (os (fd_guest 80))"
proof -
  have "fst (wasi_path_filestat_get stat_host 3 0 0 1 8 (fd_guest 80)) = Ok 0"
    unfolding wasi_path_filestat_get_def act_bind_def guest_path
    by (simp add: fd_guest_def open_or_noent_def os_call_def fd_open_def act_bind_def
        call_fat_def stat_backend_def log_backend_def log_fresh_def install_file_def add_file_def fd_stat_def
        act_unwrap_def with_open_file_def with_file_def fd_close_def remove_file_def mem_store_def as_usize_def
        success_def act_ret_def)
  then obtain s' where run: "wasi_path_filestat_get stat_host 3 0 0 1 8 (fd_guest 80) = (Ok 0, s')"
    by (cases "wasi_path_filestat_get stat_host 3 0 0 1 8 (fd_guest 80)") simp
  with path_filestat_get_keeps_descriptors [OF _ run] show ?thesis by (simp add: fd_guest_def)
qed

section \<open>The first file\<close>

text \<open>Descriptor 3 is the root directory for \<open>fd_prestat_get\<close> and \<open>fd_fdstat_get\<close>, but nothing reserves
  it in the descriptor service. In a function that does not open the root itself before it starts the
  guest, as \<open>user/wasmtime_write\<close>, the first file the guest opens gets descriptor 3, is open under it
  as a file, and yet \<open>fd_fdstat_get\<close> reports a directory (file type 3) for it.\<close>

theorem first_file_taken_for_root:
  assumes "FD_TABLE (os s) = []" "load_path path_addr path_len s = (Ok path, s)"
    "b_fatfs_open b path (open_flags_of fdflags oflags) (services (os s)) = (Ok raw, w)"
    "0 \<le> sint retptr" "unat retptr + 4 \<le> length (linear s)"
    "0 \<le> sint q" "unat q + 24 \<le> length (linear s)"
  shows "\<exists>s' s''.
    wasi_path_open (fdtab_host b listing now pad) dir dirflags path_addr path_len oflags rights inh fdflags retptr s = (Ok 0, s') \<and>
    vslice (unat retptr) 4 (linear s') = le_bytes 4 3 \<and>
    fd_lookup (os s') 3 = Some \<lparr>file_mode = open_mode_of rights, file_src = FatFS raw\<rparr> \<and>
    wasi_fd_fdstat_get (fdtab_host b listing now pad) 3 q s' = (Ok 0, s'') \<and> linear s'' ! unat q = 3"
proof -
  let ?f = "\<lparr>file_mode = open_mode_of rights, file_src = FatFS raw\<rparr>"
  let ?os = "(os s)\<lparr>services := w, FD_TABLE := [Some ?f]\<rparr>"
  let ?m = "overwrite (unat retptr) (le_bytes 4 3) (linear s)"
  let ?s' = "s\<lparr>os := ?os, linear := ?m, FD2PATH := (FD2PATH s)(3 \<mapsto> path)\<rparr>"
  let ?d = "fdstat_bytes pad (fdstat_of 3)"
  have fd: "fd_open b path (open_flags_of fdflags oflags) (open_mode_of rights) (os s) = (Ok 3, ?os)"
    using assms(1, 3) by (simp add: fd_open_def act_bind_def call_fat_def install_file_def add_file_def)
  have opened: "wasi_path_open (fdtab_host b listing now pad) dir dirflags path_addr path_len oflags rights inh fdflags retptr s = (Ok 0, ?s')"
    using assms(4, 5) by (simp add: wasi_path_open_def act_bind_def assms(2) open_or_noent_def os_call_def fd mem_store_in
        unat_as_usize set_fd2path_def act_modify_def)
  have slot: "vslice (unat retptr) 4 ?m = le_bytes 4 3"
    using vslice_overwrite_same [of "unat retptr" "le_bytes 4 3" "linear s"] assms(5) by simp
  have stat: "wasi_fd_fdstat_get (fdtab_host b listing now pad) 3 q ?s' = (Ok 0, ?s'\<lparr>linear := overwrite (unat q) ?d ?m\<rparr>)"
    using assms(5-7) by (simp add: wasi_fd_fdstat_get_def act_bind_def mem_store_in unat_as_usize)
  have "overwrite (unat q) ?d ?m ! unat q = ?d ! 0" using assms(5, 7) by (simp add: nth_overwrite)
  also have "?d ! 0 = 3" by (simp add: fdstat_bytes_def fdstat_of_def)
  finally have kind: "overwrite (unat q) ?d ?m ! unat q = 3" .
  have entry: "fd_lookup ?os 3 = Some ?f" by (simp add: fdvec_lookup_def)
  from opened slot entry stat kind show ?thesis
    by (intro exI [of _ ?s'] exI [of _ "?s'\<lparr>linear := overwrite (unat q) ?d ?m\<rparr>"] conjI) simp_all
qed

theorem first_file_taken_for_root_witness:
  "\<exists>s' s''. wasi_path_open stat_host 3 0 0 1 0 2 0 0 8 (fd_guest 80) = (Ok 0, s') \<and>
    vslice 8 4 (linear s') = le_bytes 4 3 \<and>
    fd_lookup (os s') 3 = Some \<lparr>file_mode = open_mode_of 2, file_src = FatFS 7\<rparr> \<and>
    wasi_fd_fdstat_get stat_host 3 16 s' = (Ok 0, s'') \<and> linear s'' ! 16 = 3"
proof -
  have "b_fatfs_open stat_backend ''a'' (open_flags_of 0 0) (services (os (fd_guest 80))) = (Ok 7, (8, []))"
    by (simp add: stat_backend_def log_backend_def log_fresh_def fd_guest_def)
  from first_file_taken_for_root [OF _ guest_path this, of 8 16] show ?thesis by (simp add: fd_guest_def)
qed

end
