(* ===== verification/Wasi_Buffers.thy ===== *)
theory Wasi_Buffers
  imports Wasi_Props Data_Buffer
begin

text \<open>
  Passing buffers between WebAssembly guests (\<open>wasmtime_wasi_api/src/data_buffer.rs\<close>). A slot does not
  hold bytes but a pointer into the memory of the guest that registered it. Slots are those of
  \<open>Data_Buffer\<close>; \<open>fp\<close> is the fingerprint of \<open>WasmDataBuffer\<close>, and \<open>stale n\<close> gives the \<open>n\<close> bytes found
  behind a pointer whose memory was released.
\<close>

datatype WasmPtr = InGuest string nat | Freed

record WasmDataBuffer =
  wb_ptr :: WasmPtr
  wb_size :: u64

record Guests =
  guest_memory :: "string \<rightharpoonup> byte list"
  wasm_slots :: "WasmDataBuffer slots"

type_synonym 'a guests = "(Guests, string, 'a) act"

definition guest_load :: "string \<Rightarrow> u64 \<Rightarrow> nat \<Rightarrow> byte list guests" where
  "guest_load g off n = (\<lambda>s. case guest_memory s g of
     Some m \<Rightarrow> (if unat off + n \<le> length m then Ok (vslice (unat off) n m) else Panic, s)
   | None \<Rightarrow> (Panic, s))"

definition guest_store :: "string \<Rightarrow> u64 \<Rightarrow> byte list \<Rightarrow> unit guests" where
  "guest_store g off bs = (\<lambda>s. case guest_memory s g of
     Some m \<Rightarrow> if unat off + length bs \<le> length m
               then (Ok (), s\<lparr>guest_memory := (guest_memory s)(g \<mapsto> overwrite (unat off) bs m)\<rparr>)
               else (Panic, s)
   | None \<Rightarrow> (Panic, s))"

definition slot_name :: "string \<Rightarrow> i32 \<Rightarrow> i32 \<Rightarrow> string guests" where
  "slot_name g base sz =
    act_bind (guest_load g (as_usize base) (unat (as_usize sz))) (\<lambda>bs. act_lift (unwrap_opt (from_utf8 bs)))"

definition wasm_buffer_register :: "u64 \<Rightarrow> string \<Rightarrow> i32 \<Rightarrow> i32 \<Rightarrow> i32 \<Rightarrow> i32 \<Rightarrow> unit guests" where
  "wasm_buffer_register fp g slot_name_base slot_name_size buffer_offset buffer_size =
    act_bind (slot_name g slot_name_base slot_name_size) (\<lambda>name.
    act_bind (guest_load g (as_usize buffer_offset) (unat (as_usize buffer_size))) (\<lambda>_.
    act_modify (\<lambda>s. s\<lparr>wasm_slots := slot_put fp name
      \<lparr>wb_ptr = InGuest g (unat (as_usize buffer_offset)), wb_size = as_usize buffer_size\<rparr> (wasm_slots s)\<rparr>)))"

text \<open>Without a value in the slot, a buffer of zeros is made and registered under the empty name; its
  vector is released before the pointer to it is used.\<close>

definition take_or_new :: "u64 \<Rightarrow> string \<Rightarrow> i32 \<Rightarrow> WasmDataBuffer guests" where
  "take_or_new fp name buffer_size =
    act_bind (\<lambda>s. case slot_take fp name (wasm_slots s) of (r, m) \<Rightarrow> (r, s\<lparr>wasm_slots := m\<rparr>)) (\<lambda>found.
    case found of
      Some wb \<Rightarrow> act_ret wb
    | None \<Rightarrow>
        if sint buffer_size < 0 then act_panic
        else let wb = \<lparr>wb_ptr = Freed, wb_size = as_usize buffer_size\<rparr> in
          act_bind (act_modify (\<lambda>s. s\<lparr>wasm_slots := slot_put fp [] wb (wasm_slots s)\<rparr>)) (\<lambda>_. act_ret wb))"

definition pointed_bytes :: "(nat \<Rightarrow> byte list) \<Rightarrow> WasmDataBuffer \<Rightarrow> byte list guests" where
  "pointed_bytes stale wb = act_get (\<lambda>s. let n = unat (wb_size wb) in
    case wb_ptr wb of
      Freed \<Rightarrow> stale n
    | InGuest g off \<Rightarrow> (case guest_memory s g of
         Some m \<Rightarrow> if off + n \<le> length m then vslice off n m else stale n
       | None \<Rightarrow> stale n))"

definition wasm_access_buffer ::
  "u64 \<Rightarrow> (nat \<Rightarrow> byte list) \<Rightarrow> string \<Rightarrow> i32 \<Rightarrow> i32 \<Rightarrow> i32 \<Rightarrow> i32 \<Rightarrow> unit guests" where
  "wasm_access_buffer fp stale g slot_name_base slot_name_size buffer_offset buffer_size =
    act_bind (slot_name g slot_name_base slot_name_size) (\<lambda>name.
    act_bind (take_or_new fp name buffer_size) (\<lambda>wb.
    if as_usize buffer_size \<noteq> wb_size wb then act_panic
    else act_bind (pointed_bytes stale wb) (\<lambda>bs. guest_store g (as_usize buffer_offset) bs)))"

text \<open>C38: A buffer registered by one guest and accessed by another is passed by reference: the accessing
  guest gets the bytes that the registered range of the first guest's memory holds at the time of
  the access, whatever happened to the memories since, and the slot is empty afterwards.\<close>

theorem wasm_buffer_by_reference:
  assumes "wasm_buffer_register fp a base sz off n s = (Ok (), s1)" "slot_name a base sz s = (Ok name, s)"
    "wasm_slots s2 = wasm_slots s1" "slot_name b base' sz' s2 = (Ok name, s2)"
    "guest_memory s2 a = Some ma" "unat (as_usize off) + unat (as_usize n) \<le> length ma"
    "guest_memory s2 b = Some mb" "unat (as_usize dst) + unat (as_usize n) \<le> length mb"
  shows "wasm_access_buffer fp stale b base' sz' dst n s2 =
    (Ok (), s2\<lparr>wasm_slots := (wasm_slots s2)(name := None), guest_memory := (guest_memory s2)(b \<mapsto>
       overwrite (unat (as_usize dst)) (vslice (unat (as_usize off)) (unat (as_usize n)) ma) mb)\<rparr>)"
proof -
  let ?wb = "\<lparr>wb_ptr = InGuest a (unat (as_usize off)), wb_size = as_usize n\<rparr>"
  have "wasm_slots s1 = slot_put fp name ?wb (wasm_slots s)"
    using assms(1) by (auto simp: wasm_buffer_register_def act_bind_def act_modify_def assms(2) guest_load_def
        split: option.splits if_splits)
  then have found: "wasm_slots s2 name = Some (fp, ?wb)" using assms(3) by (simp add: slot_put_def)
  let ?s3 = "s2\<lparr>wasm_slots := (wasm_slots s2)(name := None)\<rparr>"
  have taken: "take_or_new fp name n s2 = (Ok ?wb, ?s3)"
    using found by (simp add: take_or_new_def act_bind_def slot_take_def act_ret_def)
  have bytes: "pointed_bytes stale ?wb ?s3 = (Ok (vslice (unat (as_usize off)) (unat (as_usize n)) ma), ?s3)"
    using assms(5, 6) by (simp add: pointed_bytes_def act_get_def)
  show ?thesis
    using assms(6-8) by (simp add: wasm_access_buffer_def act_bind_def assms(4) taken bytes guest_store_def)
qed

definition two_guests :: "byte list \<Rightarrow> Guests" where
  "two_guests m = \<lparr>guest_memory = [''a'' \<mapsto> as_bytes ''x'' @ m, ''b'' \<mapsto> as_bytes ''x'' @ [0, 0, 0]], wasm_slots = Map.empty\<rparr>"

lemma two_guests_name:
  assumes "g = ''a'' \<or> g = ''b''"
  shows "slot_name g 0 1 (s\<lparr>guest_memory := guest_memory (two_guests m)\<rparr>) =
    (Ok ''x'', s\<lparr>guest_memory := guest_memory (two_guests m)\<rparr>)"
proof -
  have "from_utf8 (as_bytes ''x'') = Some ''x''" by (rule from_utf8_ascii) simp
  with assms show ?thesis
    by (auto simp: slot_name_def guest_load_def two_guests_def act_bind_def act_lift_def as_usize_def vslice_def)
qed

text \<open>Guest \<open>a\<close> registers two bytes, overwrites them, and guest \<open>b\<close> gets the new ones.\<close>

theorem wasm_buffer_by_reference_witness:
  "let s1 = snd (wasm_buffer_register 5 ''a'' 0 1 1 2 (two_guests [1, 2]));
       s2 = s1\<lparr>guest_memory := guest_memory (two_guests [8, 9])\<rparr>
   in guest_memory (snd (wasm_access_buffer 5 (\<lambda>n. []) ''b'' 0 1 2 2 s2)) ''b'' = Some (as_bytes ''x'' @ [0, 8, 9])"
proof -
  let ?s = "two_guests [1, 2]"
  let ?s1 = "?s\<lparr>wasm_slots := [''x'' \<mapsto> (5, \<lparr>wb_ptr = InGuest ''a'' 1, wb_size = 2\<rparr>)]\<rparr>"
  let ?s2 = "?s1\<lparr>guest_memory := guest_memory (two_guests [8, 9])\<rparr>"
  have name: "slot_name ''a'' 0 1 ?s = (Ok ''x'', ?s)"
    using two_guests_name [of "''a''" "[1, 2]" ?s] by (simp add: two_guests_def)
  have reg: "wasm_buffer_register 5 ''a'' 0 1 1 2 ?s = (Ok (), ?s1)"
    unfolding wasm_buffer_register_def act_bind_def name
    by (simp add: act_modify_def guest_load_def two_guests_def as_usize_def slot_put_def)
  have acc: "wasm_access_buffer 5 (\<lambda>n. []) ''b'' 0 1 2 2 ?s2 =
    (Ok (), ?s2\<lparr>wasm_slots := (wasm_slots ?s2)(''x'' := None), guest_memory := (guest_memory ?s2)(''b'' \<mapsto>
       overwrite (unat (as_usize 2)) (vslice (unat (as_usize 1)) (unat (as_usize 2)) (as_bytes ''x'' @ [8, 9]))
         (as_bytes ''x'' @ [0, 0, 0]))\<rparr>)"
    by (rule wasm_buffer_by_reference [OF reg name _ two_guests_name])
      (simp_all add: two_guests_def as_usize_def)
  show ?thesis unfolding Let_def reg snd_conv acc
    by (simp add: as_usize_def overwrite_def vslice_def as_bytes_def)
qed

end
