(* ===== verification/As_Io.thy ===== *)
theory As_Io
  imports Fdtab Rust_Fmt
begin

text \<open>
  Files, connections and time for functions (\<open>as_std/src/io.rs\<close>, \<open>fs.rs\<close>, \<open>net.rs\<close>, \<open>time.rs\<close>) over the
  file descriptor service. A read gives the bytes it puts at the start of the buffer. \<open>read_to_end\<close>
  may run forever on a stream that never ends, so its value is an option.
\<close>

section \<open>The traits Read and Write\<close>

text \<open>\<open>read_to_end\<close> appends to the vector of the caller, which keeps what was read before an error.\<close>

partial_function (option) read_to_end ::
  "(nat \<Rightarrow> ('s, 'e, byte list) act) \<Rightarrow> byte list \<Rightarrow> nat \<Rightarrow> 's \<Rightarrow> (('e, nat) res \<times> byte list \<times> 's) option" where
  "read_to_end rd buf sz s =
    (case rd 1024 s of
       (Ok bs, s') \<Rightarrow>
         if length bs = 0 then Some (Ok sz, buf, s')
         else if 1024 < length bs then Some (Panic, buf, s')
         else read_to_end rd (buf @ bs) (sz + length bs) s'
     | (Err e, s') \<Rightarrow> Some (Err e, buf, s')
     | (Panic, s') \<Rightarrow> Some (Panic, buf, s'))"

text \<open>\<open>read_to_string\<close> replaces the caller's string by the text of all bytes read; \<open>lossy\<close> is
  \<open>String::from_utf8_lossy\<close>.\<close>

definition read_to_string ::
  "(byte list \<Rightarrow> 't) \<Rightarrow> ('t \<Rightarrow> nat) \<Rightarrow> (nat \<Rightarrow> ('s, 'e, byte list) act) \<Rightarrow> 't \<Rightarrow> 's \<Rightarrow>
   (('e, nat) res \<times> 't \<times> 's) option" where
  "read_to_string lossy len rd buf s =
    (case read_to_end rd [] 0 s of
       None \<Rightarrow> None
     | Some (Ok _, v_buf, s') \<Rightarrow> Some (Ok (len (lossy v_buf)), lossy v_buf, s')
     | Some (Err e, _, s') \<Rightarrow> Some (Err e, buf, s')
     | Some (Panic, _, s') \<Rightarrow> Some (Panic, buf, s'))"

function write_all :: "(byte list \<Rightarrow> ('s, 'e, nat) act) \<Rightarrow> byte list \<Rightarrow> ('s, 'e, unit) act" where
  "write_all wr buf s =
    (if buf = [] then (Ok (), s)
     else case wr buf s of
       (Ok n, s') \<Rightarrow> if n = 0 \<or> length buf < n then (Panic, s') else write_all wr (drop n buf) s'
     | (Err e, s') \<Rightarrow> (Err e, s')
     | (Panic, s') \<Rightarrow> (Panic, s'))"
  by auto
termination by (relation "measure (\<lambda>(wr, buf, s). length buf)") auto

declare write_all.simps [simp del]

section \<open>Files\<close>

record StdFile =
  raw_fd :: Fd

definition File_create :: "'w FdBackend \<Rightarrow> string \<Rightarrow> ('w, StdFile) fd_act" where
  "File_create b p = act_bind (fd_open b p O_CREAT RDWR) (\<lambda>fd. act_ret \<lparr>raw_fd = fd\<rparr>)"

definition File_open :: "'w FdBackend \<Rightarrow> string \<Rightarrow> ('w, StdFile) fd_act" where
  "File_open b p = act_bind (fd_open b p 0 RD) (\<lambda>fd. act_ret \<lparr>raw_fd = fd\<rparr>)"

definition File_seek :: "'w FdBackend \<Rightarrow> StdFile \<Rightarrow> u32 \<Rightarrow> ('w, unit) fd_act" where
  "File_seek b f pos = fd_lseek b (raw_fd f) pos"

definition File_metadata :: "'w FdBackend \<Rightarrow> StdFile \<Rightarrow> ('w, Stat) fd_act" where
  "File_metadata b f = fd_stat b (raw_fd f)"

definition File_read :: "'w FdBackend \<Rightarrow> StdFile \<Rightarrow> nat \<Rightarrow> ('w, byte list) fd_act" where
  "File_read b f n = fd_read b (raw_fd f) n"

definition File_write :: "'w FdBackend \<Rightarrow> StdFile \<Rightarrow> byte list \<Rightarrow> ('w, nat) fd_act" where
  "File_write b f buf = fd_write b (raw_fd f) buf"

text \<open>\<open>write_str\<close> hides the error: \<open>core::fmt::Error\<close> carries nothing.\<close>

definition File_write_str :: "'w FdBackend \<Rightarrow> StdFile \<Rightarrow> byte list \<Rightarrow> ('w FdState, unit, unit) act" where
  "File_write_str b f s = act_map_err (\<lambda>_. ()) (write_all (File_write b f) s)"

definition File_drop :: "'w FdBackend \<Rightarrow> StdFile \<Rightarrow> ('w, unit) fd_act" where
  "File_drop b f = act_unwrap (fd_close b (raw_fd f))"

section \<open>Addresses\<close>

definition parse_octet :: "string \<Rightarrow> nat option" where
  "parse_octet s =
    (if s = [] \<or> 3 < length s \<or> (1 < length s \<and> hd s = CHR ''0'') then None else parse_digits 8 0 s)"

text \<open>\<open>Ipv4Addr::from_str\<close>.\<close>

definition parse_ipv4 :: "string \<Rightarrow> nat list option" where
  "parse_ipv4 s =
    (case map parse_octet (split_on (CHR ''.'') s) of
       [Some a, Some b, Some c, Some d] \<Rightarrow> Some [a, b, c, d]
     | _ \<Rightarrow> None)"

text \<open>\<open>to_socket_addrs\<close>; \<open>addrinfo\<close> resolves a name through the socket service.\<close>

definition to_socket_addrs ::
  "(string \<Rightarrow> ('s, SmoltcpError, nat list) act) \<Rightarrow> string \<Rightarrow> ('s, SmoltcpError, SocketAddr) act" where
  "to_socket_addrs addrinfo url =
    (let target = split_on (CHR '':'') url; host = hd target in
     act_bind (case parse_ipv4 host of Some ip \<Rightarrow> act_ret ip | None \<Rightarrow> act_unwrap (addrinfo host)) (\<lambda>ip.
     case target of
       _ # port # _ \<Rightarrow> (case parse_uint 16 port of Some p \<Rightarrow> act_ret (ip, p) | None \<Rightarrow> act_panic)
     | _ \<Rightarrow> act_ret (ip, 80)))"

definition show_addr :: "SocketAddr \<Rightarrow> string" where
  "show_addr a = (case fst a of
     [p, q, r, s] \<Rightarrow> to_string p @ ''.'' @ to_string q @ ''.'' @ to_string r @ ''.'' @ to_string s @ '':'' @ to_string (snd a)
   | _ \<Rightarrow> [])"

section \<open>Connections\<close>

record StdStream =
  stream_fd :: Fd

text \<open>\<open>connect\<close> turns an error of the address with \<open>?\<close> into one of the descriptor service; \<open>bind\<close>
  unwraps it.\<close>

definition TcpStream_connect ::
  "'w FdBackend \<Rightarrow> (string \<Rightarrow> ('w FdState, SmoltcpError, nat list) act) \<Rightarrow> string \<Rightarrow> ('w, StdStream) fd_act" where
  "TcpStream_connect b addrinfo url =
    act_bind (act_map_err SocketErr (to_socket_addrs addrinfo url)) (\<lambda>addr.
    act_bind (fd_connect b addr) (\<lambda>fd. act_ret \<lparr>stream_fd = fd\<rparr>))"

definition TcpListener_bind ::
  "'w FdBackend \<Rightarrow> (string \<Rightarrow> ('w FdState, SmoltcpError, nat list) act) \<Rightarrow> string \<Rightarrow> ('w, StdStream) fd_act" where
  "TcpListener_bind b addrinfo url =
    act_bind (act_unwrap (to_socket_addrs addrinfo url)) (\<lambda>addr.
    act_bind (fd_bind b addr) (\<lambda>fd. act_ret \<lparr>stream_fd = fd\<rparr>))"

text \<open>\<open>Incoming::next\<close>: an error of \<open>accept\<close> ends the iteration.\<close>

definition Incoming_next :: "'w FdBackend \<Rightarrow> StdStream \<Rightarrow> ('w, StdStream option) fd_act" where
  "Incoming_next b listener = (\<lambda>s. case fd_accept b (stream_fd listener) s of
     (Ok fd, s') \<Rightarrow> (Ok (Some \<lparr>stream_fd = fd\<rparr>), s')
   | (Err e, s') \<Rightarrow> (Ok None, s')
   | (Panic, s') \<Rightarrow> (Panic, s'))"

definition Tcp_read :: "'w FdBackend \<Rightarrow> StdStream \<Rightarrow> nat \<Rightarrow> ('w, byte list) fd_act" where
  "Tcp_read b t n = fd_read b (stream_fd t) n"

definition Tcp_write :: "'w FdBackend \<Rightarrow> StdStream \<Rightarrow> byte list \<Rightarrow> ('w, nat) fd_act" where
  "Tcp_write b t buf = fd_write b (stream_fd t) buf"

definition Tcp_drop :: "'w FdBackend \<Rightarrow> StdStream \<Rightarrow> ('w, unit) fd_act" where
  "Tcp_drop b t = act_unwrap (fd_close b (stream_fd t))"

section \<open>Time\<close>

record Duration =
  dur_secs :: nat
  dur_nanos :: nat

text \<open>A point in time is a number of nanoseconds; seconds are kept in 64 bits.\<close>

definition SystemTime_now :: "('s, 'e, nat) act \<Rightarrow> ('s, 'e, nat) act" where
  "SystemTime_now get_time = act_unwrap get_time"

definition duration_since :: "nat \<Rightarrow> nat \<Rightarrow> (unit, Duration) res" where
  "duration_since self earlier =
    (if self < earlier then Panic
     else let sub = self - earlier in
       Ok \<lparr>dur_secs = sub div 1000000000 mod 2 ^ 64, dur_nanos = sub mod 1000000000\<rparr>)"

definition elapsed :: "('s, unit, nat) act \<Rightarrow> nat \<Rightarrow> ('s, unit, Duration) act" where
  "elapsed get_time self = act_bind (SystemTime_now get_time) (\<lambda>now. act_lift (duration_since now self))"

definition as_nanos :: "Duration \<Rightarrow> nat" where
  "as_nanos d = dur_secs d * 1000000000 + dur_nanos d"

definition sleep :: "(nat \<Rightarrow> nat \<Rightarrow> ('s, 'e, unit) act) \<Rightarrow> Duration \<Rightarrow> ('s, 'e, unit) act" where
  "sleep nanosleep dur = nanosleep (dur_secs dur) (as_nanos dur mod 1000000000)"

end
