(* ===== verification/As_Io_Props.thy ===== *)
theory As_Io_Props
  imports As_Io Fd_Services
begin

text \<open>
  What the reading and writing loops of \<open>as_std\<close> guarantee, in general and down to the FAT service,
  and the parsing of addresses.
\<close>

section \<open>Reading to the end\<close>

text \<open>A stream of which \<open>rest\<close> is still to come: a read gives a part of it, and nothing only at the
  end.\<close>

definition byte_source ::
  "(nat \<Rightarrow> ('s, 'e, byte list) act) \<Rightarrow> ('s \<Rightarrow> byte list) \<Rightarrow> ('s \<Rightarrow> bool) \<Rightarrow> bool" where
  "byte_source rd rest okay =
    (\<forall>s. okay s \<longrightarrow> (\<exists>bs s'. rd 1024 s = (Ok bs, s') \<and> okay s' \<and> length bs \<le> 1024 \<and> rest s = bs @ rest s' \<and>
       (bs = [] \<longrightarrow> rest s = [])))"

lemma read_to_end_source:
  assumes "byte_source rd rest okay" "okay s"
  shows "\<exists>s'. read_to_end rd buf n s = Some (Ok (n + length (rest s)), buf @ rest s, s') \<and> okay s' \<and> rest s' = []"
  using assms(2)
proof (induction "length (rest s)" arbitrary: s buf n rule: less_induct)
  case less
  obtain bs s1 where rd: "rd 1024 s = (Ok bs, s1)" "okay s1" "length bs \<le> 1024" "rest s = bs @ rest s1"
    "bs = [] \<longrightarrow> rest s = []"
    using assms(1) less.prems unfolding byte_source_def by blast
  show ?case
  proof (cases "bs = []")
    case True
    then show ?thesis using rd by (subst read_to_end.simps) simp
  next
    case False
    then have "read_to_end rd buf n s = read_to_end rd (buf @ bs) (n + length bs) s1"
      using rd by (subst read_to_end.simps) simp
    moreover have "length (rest s1) < length (rest s)" using rd(4) False by simp
    ultimately show ?thesis using less.hyps [OF _ rd(2), of "buf @ bs" "n + length bs"] rd(4) by (simp add: add.assoc)
  qed
qed

text \<open>A file of the FAT service, seen through a descriptor.\<close>

definition fat_file_open :: "Fd \<Rightarrow> Fd \<Rightarrow> (('w, 'f) FatState \<times> 'n) FdState \<Rightarrow> bool" where
  "fat_file_open fd h s =
    (\<not> poisoned (fst (services s)) \<and> fat_lookup (fst (services s)) h \<noteq> None \<and>
     (\<exists>f. fd_lookup s fd = Some f \<and> can_read f \<and> file_src f = FatFS h))"

definition fat_rest :: "('f \<times> 'w \<Rightarrow> byte list) \<Rightarrow> Fd \<Rightarrow> (('w, 'f) FatState \<times> 'n) FdState \<Rightarrow> byte list" where
  "fat_rest rest h s = (case fat_lookup (fst (services s)) h of
     Some ff \<Rightarrow> rest (ff, fs (fst (services s))) | None \<Rightarrow> [])"

lemma fat_file_source:
  assumes "reads_rest c rest"
  shows "byte_source (File_read (libos_backend c img net) \<lparr>raw_fd = fd\<rparr>) (fat_rest rest h) (fat_file_open fd h)"
  unfolding byte_source_def
proof (intro allI impI)
  fix s :: "(('a, 'b) FatState \<times> 'c) FdState"
  assume okay: "fat_file_open fd h s"
  obtain t n where sv: "services s = (t, n)" by (cases "services s")
  from okay obtain f ff where f: "fd_lookup s fd = Some f" "can_read f" "file_src f = FatFS h"
    and ff: "fat_lookup t h = Some ff" "\<not> poisoned t" by (auto simp: fat_file_open_def sv)
  obtain ff' w' where rd: "fatfs_read c h 1024 t =
      (Ok (take 1024 (rest (ff, fs t))), t\<lparr>FTABLE := (FTABLE t)[unat h := Some ff'], fs := w'\<rparr>)"
    and rest: "rest (ff', w') = drop 1024 (rest (ff, fs t))"
    using fatfs_read_takes [OF assms ff(2,1), of 1024] by blast
  let ?t = "t\<lparr>FTABLE := (FTABLE t)[unat h := Some ff'], fs := w'\<rparr>"
  let ?s = "s\<lparr>services := (?t, n)\<rparr>" and ?bs = "take 1024 (rest (ff, fs t))"
  have lookup: "fat_lookup ?t h = Some ff'" using ff(1) by (simp add: fatvec_lookup_update)
  have fd: "\<not> fd \<le> 2" using installed_not_reserved [OF f(1)] .
  have "File_read (libos_backend c img net) \<lparr>raw_fd = fd\<rparr> 1024 s = (Ok ?bs, ?s)"
    using f fd by (simp add: File_read_def fd_read_def with_open_file_eq libos_backend_def call_fat_def on_fat_def sv rd)
  moreover have "fat_file_open fd h ?s" using f ff lookup by (auto simp: fat_file_open_def)
  moreover have "fat_rest rest h s = ?bs @ fat_rest rest h ?s"
    using ff(1) lookup rest by (simp add: fat_rest_def sv)
  moreover have "?bs = [] \<longrightarrow> fat_rest rest h s = []" using ff(1) by (simp add: fat_rest_def sv)
  ultimately show "\<exists>bs s'. File_read (libos_backend c img net) \<lparr>raw_fd = fd\<rparr> 1024 s = (Ok bs, s') \<and>
      fat_file_open fd h s' \<and> length bs \<le> 1024 \<and> fat_rest rest h s = bs @ fat_rest rest h s' \<and>
      (bs = [] \<longrightarrow> fat_rest rest h s = [])" by auto
qed

text \<open>C13: Reading a file to its end terminates and gives the whole rest of the file, through every layer:
  \<open>read_to_end\<close> of \<open>as_std\<close>, the descriptor service, the FAT service and its inner loop, for a file
  system that returns a part of the rest of the file with every read.\<close>

theorem read_to_end_reads_file:
  assumes "reads_rest c rest" "fat_file_open fd h s"
  shows "\<exists>s'. read_to_end (File_read (libos_backend c img net) \<lparr>raw_fd = fd\<rparr>) [] 0 s =
      Some (Ok (length (fat_rest rest h s)), fat_rest rest h s, s') \<and> fat_rest rest h s' = []"
proof -
  have "byte_source (File_read (libos_backend c img net) \<lparr>raw_fd = fd\<rparr>) (fat_rest rest h) (fat_file_open fd h)"
    using assms(1) by (rule fat_file_source)
  from read_to_end_source [OF this assms(2), where buf = "[]" and n = 0] show ?thesis by auto
qed

definition quiet_net :: "unit NetBackend" where
  "quiet_net = \<lparr>n_recv = (\<lambda>_ _. act_ret []), n_send = (\<lambda>_ _. act_ret ()), n_connect = (\<lambda>_. act_ret 0),
     n_bind = (\<lambda>_. act_ret 0), n_accept = (\<lambda>_. act_ret 0), n_close = (\<lambda>_. act_ret ()), n_stdout = (\<lambda>bs n. (length bs, n))\<rparr>"

definition mem_file_state :: "((byte list, nat) FatState \<times> unit) FdState" where
  "mem_file_state = \<lparr>FD_TABLE = [Some \<lparr>file_mode = RD, file_src = FatFS 0\<rparr>], services = (mem_state, ())\<rparr>"

text \<open>A file of five bytes, read behind its first byte by a file system that gives two bytes at most.\<close>

theorem read_to_end_reads_file_witness:
  "\<exists>s'. read_to_end (File_read (libos_backend mem_crate [] quiet_net) \<lparr>raw_fd = 3\<rparr>) [] 0 mem_file_state =
      Some (Ok 4, [11, 12, 13, 14], s')"
proof -
  have opened: "fat_file_open 3 0 mem_file_state"
    by (simp add: fat_file_open_def mem_file_state_def mem_state_def fatvec_lookup_def fdvec_lookup_def
        can_read_def flags_contain_def RD_def)
  have rest: "fat_rest mem_rest 0 mem_file_state = [11, 12, 13, 14]"
    by (simp add: fat_rest_def mem_file_state_def mem_state_def mem_rest_def fatvec_lookup_def)
  show ?thesis
    using read_to_end_reads_file [OF mem_reads_rest opened, of "[]" quiet_net] by (auto simp: rest)
qed

section \<open>Writing everything\<close>

definition byte_sink :: "(byte list \<Rightarrow> ('s, 'e, nat) act) \<Rightarrow> ('s \<Rightarrow> byte list) \<Rightarrow> ('s \<Rightarrow> bool) \<Rightarrow> bool" where
  "byte_sink wr out okay =
    (\<forall>buf s. buf \<noteq> [] \<and> okay s \<longrightarrow> (\<exists>n s'. wr buf s = (Ok n, s') \<and> okay s' \<and> 0 < n \<and> n \<le> length buf \<and>
       out s' = out s @ take n buf))"

text \<open>\<open>write_all\<close> terminates on every writer. On one that accepts a part of what it is given, and not
  nothing, it hands over all bytes in order.\<close>

theorem write_all_writes_all:
  assumes "byte_sink wr out okay" "okay s"
  shows "\<exists>s'. write_all wr buf s = (Ok (), s') \<and> okay s' \<and> out s' = out s @ buf"
  using assms(2)
proof (induction "length buf" arbitrary: buf s rule: less_induct)
  case less
  show ?case
  proof (cases "buf = []")
    case True
    then show ?thesis using less.prems by (simp add: write_all.simps)
  next
    case False
    then obtain n s1 where wr: "wr buf s = (Ok n, s1)" "okay s1" "0 < n" "n \<le> length buf" "out s1 = out s @ take n buf"
      using assms(1) less.prems unfolding byte_sink_def by blast
    then have "write_all wr buf s = write_all wr (drop n buf) s1"
      using False by (subst write_all.simps) simp
    moreover have "length (drop n buf) < length buf" using wr(3, 4) by simp
    ultimately show ?thesis using less.hyps [OF _ wr(2), of "drop n buf"] wr(5) by simp
  qed
qed

definition two_at_once :: "byte list \<Rightarrow> (byte list, unit, nat) act" where
  "two_at_once buf s = (Ok (min 2 (length buf)), s @ take 2 buf)"

theorem write_all_writes_all_witness:
  "write_all two_at_once [1, 2, 3] [9] = (Ok (), [9, 1, 2, 3])"
proof -
  have "byte_sink two_at_once id (\<lambda>_. True)"
    unfolding byte_sink_def
  proof (intro allI impI, elim conjE)
    fix buf s :: "byte list"
    assume "buf \<noteq> []"
    then have "0 < min 2 (length buf)" by simp
    then show "\<exists>n s'. two_at_once buf s = (Ok n, s') \<and> True \<and> 0 < n \<and> n \<le> length buf \<and> id s' = id s @ take n buf"
      by (auto simp: two_at_once_def min_def)
  qed
  from write_all_writes_all [OF this, where buf = "[1, 2, 3]" and s = "[9]"] show ?thesis by simp
qed

section \<open>Addresses\<close>

lemma octet_to_string:
  assumes "n < 256"
  shows "parse_octet (to_string n) = Some n"
proof -
  have digits: "parse_digits 8 0 (to_string n) = Some n" using parse_digits_to_string [of n 8] assms by simp
  consider "n < 10" | "10 \<le> n" "n < 100" | "100 \<le> n" "n < 1000" using assms by linarith
  then have "length (to_string n) \<le> 3 \<and> (1 < length (to_string n) \<longrightarrow> hd (to_string n) \<noteq> CHR ''0'')"
  proof cases
    case 1
    then show ?thesis by (simp add: to_string.simps [of n])
  next
    case 2
    then have "to_string n = [digit_char (n div 10), digit_char (n mod 10)]" "0 < n div 10" "n div 10 < 10"
      by (simp_all add: to_string.simps [of n] to_string.simps [of "n div 10"] less_mult_imp_div_less)
    then show ?thesis using digit_char_digit(2) [of "n div 10"] by (auto simp: digit_val_def)
  next
    case 3
    then have "to_string n = [digit_char (n div 100), digit_char (n div 10 mod 10), digit_char (n mod 10)]"
      "0 < n div 100" "n div 100 < 10"
      by (simp_all add: to_string.simps [of n] to_string.simps [of "n div 10"] to_string.simps [of "n div 100"]
          div_mult2_eq [symmetric] less_mult_imp_div_less)
    then show ?thesis using digit_char_digit(2) [of "n div 100"] by (auto simp: digit_val_def)
  qed
  then show ?thesis by (auto simp: parse_octet_def digits)
qed

lemma no_separator: "CHR ''.'' \<notin> set (to_string n)" "CHR '':'' \<notin> set (to_string n)"
  using to_string_digits [of "CHR ''.''" n] to_string_digits [of "CHR '':''" n] by (auto simp: is_ascii_digit_def)

lemma parse_ipv4_shown:
  assumes "p < 256" "q < 256" "r < 256" "s < 256"
  shows "parse_ipv4 (to_string p @ CHR ''.'' # to_string q @ CHR ''.'' # to_string r @ CHR ''.'' # to_string s) = Some [p, q, r, s]"
  using assms by (simp add: parse_ipv4_def split_on_first split_on_whole no_separator octet_to_string)

text \<open>An address printed as \<open>a.b.c.d:port\<close> is parsed back to itself, without asking for a name.\<close>

theorem socket_addr_round_trip:
  assumes "p < 256" "q < 256" "r < 256" "s < 256" "port < 65536"
  shows "to_socket_addrs addrinfo (show_addr ([p, q, r, s], port)) st = (Ok ([p, q, r, s], port), st)"
proof -
  let ?h = "to_string p @ CHR ''.'' # to_string q @ CHR ''.'' # to_string r @ CHR ''.'' # to_string s"
  have "CHR '':'' \<notin> set ?h" by (auto simp: no_separator)
  then have "split_on (CHR '':'') (?h @ CHR '':'' # to_string port) = [?h, to_string port]"
    by (simp only: split_on_first split_on_whole no_separator not_False_eq_True)
  moreover have "show_addr ([p, q, r, s], port) = ?h @ CHR '':'' # to_string port" by (simp add: show_addr_def)
  moreover have "parse_uint 16 (to_string port) = Some port" using assms(5) by (intro parse_uint_to_string) simp
  ultimately show ?thesis
    by (simp add: to_socket_addrs_def Let_def parse_ipv4_shown [OF assms(1-4)] act_bind_def act_ret_def)
qed

theorem socket_addr_round_trip_witness:
  "to_socket_addrs (\<lambda>_. act_panic) (show_addr ([127, 0, 0, 1], 7878)) () = (Ok ([127, 0, 0, 1], 7878), ())"
  by (rule socket_addr_round_trip) simp_all

section \<open>Time\<close>

lemma nanos_round_trip:
  assumes "t < 2 ^ 64 * 1000000000"
  shows "duration_since t 0 = Ok d \<Longrightarrow> as_nanos d = t"
proof -
  have "t div 1000000000 < 2 ^ 64" using assms by (simp add: less_mult_imp_div_less)
  then show "duration_since t 0 = Ok d \<Longrightarrow> as_nanos d = t"
    by (auto simp: duration_since_def as_nanos_def)
qed

end
