(* ===== verification/Word_Count.thy ===== *)
theory Word_Count
  imports Data_Buffer Rust_Fmt "HOL-Library.AList"
begin

text \<open>
  The word count workflow (\<open>user/mapper\<close>, \<open>user/reducer\<close>) on the slots of intermediate data. Texts
  are lists of Unicode code points; \<open>uni\<close> tells which ones outside ASCII are alphanumeric, and
  \<open>read_file\<close> gives the text of a file. A hash map is an association list in the order of
  insertion; no result depends on that order. Counts are 32 bit words that wrap. Output and timing
  are left out.
\<close>

type_synonym utext = "nat list"
type_synonym counts = "(utext \<times> u32) list"

section \<open>Words of a text\<close>

definition is_alphanumeric :: "(nat \<Rightarrow> bool) \<Rightarrow> nat \<Rightarrow> bool" where
  "is_alphanumeric uni c =
    (if c < 128 then (48 \<le> c \<and> c \<le> 57) \<or> (65 \<le> c \<and> c \<le> 90) \<or> (97 \<le> c \<and> c \<le> 122) else uni c)"

definition is_whitespace :: "nat \<Rightarrow> bool" where
  "is_whitespace c = ((9 \<le> c \<and> c \<le> 13) \<or> (0x2000 \<le> c \<and> c \<le> 0x200A) \<or>
     List.member [32, 0x85, 0xA0, 0x1680, 0x2028, 0x2029, 0x202F, 0x205F, 0x3000] c)"

definition utrim :: "utext \<Rightarrow> utext" where
  "utrim s = rev (dropWhile is_whitespace (rev (dropWhile is_whitespace s)))"

definition strip_cr :: "utext \<Rightarrow> utext" where
  "strip_cr s = (if s \<noteq> [] \<and> last s = 13 then butlast s else s)"

text \<open>\<open>str::lines\<close>: a carriage return is part of the line break, and there is no line after the last
  line break.\<close>

definition lines :: "utext \<Rightarrow> utext list" where
  "lines s = (let ps = split_on 10 s in
     map strip_cr (butlast ps) @ (if last ps = [] then [] else [last ps]))"

definition line_words :: "(nat \<Rightarrow> bool) \<Rightarrow> utext \<Rightarrow> utext list" where
  "line_words uni line = filter (list_all (is_alphanumeric uni)) (split_on 32 (utrim line))"

definition text_words :: "(nat \<Rightarrow> bool) \<Rightarrow> utext \<Rightarrow> utext list" where
  "text_words uni content = concat (map (line_words uni) (lines content))"

section \<open>Counting\<close>

definition add_count :: "utext \<Rightarrow> u32 \<Rightarrow> counts \<Rightarrow> counts" where
  "add_count word n counter =
    (let old_count = (case map_of counter word of Some c \<Rightarrow> c | None \<Rightarrow> 0) in
     AList.update word (old_count + n) counter)"

definition count_words :: "utext list \<Rightarrow> counts" where
  "count_words ws = foldl (\<lambda>counter word. add_count word 1 counter) [] ws"

text \<open>\<open>getidx\<close>: the remainder by zero panics.\<close>

fun getidx_from :: "u64 \<Rightarrow> u64 \<Rightarrow> utext \<Rightarrow> (string, u64) res" where
  "getidx_from reducer_num hash_val [] = Ok hash_val"
| "getidx_from reducer_num hash_val (c # cs) =
    (if reducer_num = 0 then Panic
     else getidx_from reducer_num ((hash_val * 31 + word_of_nat c) mod reducer_num) cs)"

definition getidx :: "utext \<Rightarrow> u64 \<Rightarrow> (string, u64) res" where
  "getidx word reducer_num = getidx_from reducer_num 0 word"

section \<open>The mapper\<close>

definition slot_shuffle :: "string \<Rightarrow> string \<Rightarrow> string" where
  "slot_shuffle mapper reducer = mapper @ ''-'' @ reducer"

type_synonym 'a wc_act = "(counts slots, string, 'a) act"

text \<open>\<open>data_buffers.get_mut(idx)\<close> and the insertion into its map.\<close>

definition shuffle_insert :: "u64 \<Rightarrow> string \<Rightarrow> u64 \<Rightarrow> utext \<times> u32 \<Rightarrow> unit wc_act" where
  "shuffle_insert fp my_id reducer_num wc =
    act_bind (act_lift (getidx (fst wc) reducer_num)) (\<lambda>idx.
    if idx < reducer_num then
      act_modify (\<lambda>m. let slot = slot_shuffle my_id (to_string (unat idx)) in
        case m slot of
          Some (fp', shuffle) \<Rightarrow> m(slot \<mapsto> (fp', AList.update (fst wc) (snd wc) shuffle))
        | None \<Rightarrow> m)
    else act_panic)"

text \<open>The vector of buffers, of 16 bytes each, must fit the address space.\<close>

definition mapper_func :: "u64 \<Rightarrow> (nat \<Rightarrow> bool) \<Rightarrow> (string \<Rightarrow> (string, utext) res) \<Rightarrow> string \<Rightarrow> u64 \<Rightarrow> unit wc_act" where
  "mapper_func fp uni read_file my_id reducer_num =
    act_bind (act_lift (read_file (''fake_data_'' @ my_id @ ''.txt''))) (\<lambda>content.
    let counter = count_words (text_words uni content) in
    if 2 ^ 63 \<le> unat reducer_num * 16 then act_panic
    else act_bind (act_each (\<lambda>reducer. act_modify (slot_put fp (slot_shuffle my_id (to_string reducer)) []))
           [0..<unat reducer_num]) (\<lambda>_.
         act_each (shuffle_insert fp my_id reducer_num) counter))"

definition parse_num_arg :: "(string \<Rightarrow> string option) \<Rightarrow> string \<Rightarrow> u64 wc_act" where
  "parse_num_arg get_arg name =
    (case get_arg name of
       None \<Rightarrow> act_panic
     | Some s \<Rightarrow> (case parse_uint 64 s of None \<Rightarrow> act_panic | Some n \<Rightarrow> act_ret (word_of_nat n)))"

definition mapper_main ::
  "u64 \<Rightarrow> (nat \<Rightarrow> bool) \<Rightarrow> (string \<Rightarrow> (string, utext) res) \<Rightarrow> (string \<Rightarrow> string option) \<Rightarrow> unit wc_act" where
  "mapper_main fp uni read_file get_arg =
    (case get_arg ''id'' of
       None \<Rightarrow> act_panic
     | Some my_id \<Rightarrow>
         act_bind (parse_num_arg get_arg ''reducer_num'') (\<lambda>reducer_num.
         mapper_func fp uni read_file my_id reducer_num))"

section \<open>The reducer\<close>

definition take_counts :: "u64 \<Rightarrow> string \<Rightarrow> counts wc_act" where
  "take_counts fp slot = act_bind (slot_take fp slot) (\<lambda>taken.
    case taken of Some shuffle \<Rightarrow> act_ret shuffle | None \<Rightarrow> act_panic)"

definition merge_counts :: "counts \<Rightarrow> counts \<Rightarrow> counts" where
  "merge_counts counter shuffle = foldl (\<lambda>counter (word, count). add_count word count counter) counter shuffle"

fun reduce_loop :: "u64 \<Rightarrow> string \<Rightarrow> counts \<Rightarrow> nat list \<Rightarrow> counts wc_act" where
  "reduce_loop fp reducer counter [] = act_ret counter"
| "reduce_loop fp reducer counter (i # is) =
    act_bind (take_counts fp (slot_shuffle (to_string i) reducer)) (\<lambda>shuffle.
    reduce_loop fp reducer (merge_counts counter shuffle) is)"

text \<open>\<open>main\<close> prints the number of words; its value here is the counter.\<close>

definition reducer_main :: "u64 \<Rightarrow> (string \<Rightarrow> string option) \<Rightarrow> counts wc_act" where
  "reducer_main fp get_arg =
    act_bind (parse_num_arg get_arg ''id'') (\<lambda>reducer_id.
    act_bind (parse_num_arg get_arg ''mapper_num'') (\<lambda>mapper_num.
    reduce_loop fp (to_string (unat reducer_id)) [] [0..<unat mapper_num]))"

end
