(* ===== verification/Word_Count_Props.thy ===== *)
theory Word_Count_Props
  imports Word_Count
begin

text \<open>
  The word count workflow counts: whatever the number of mappers and reducers, every word ends up at
  exactly one reducer with the number of its occurrences in all files.
\<close>

section \<open>Counters\<close>

definition count_of :: "counts \<Rightarrow> utext \<Rightarrow> u32" where
  "count_of al w = (case map_of al w of Some c \<Rightarrow> c | None \<Rightarrow> 0)"

lemma map_of_add_count: "map_of (add_count w n al) = (map_of al)(w \<mapsto> count_of al w + n)"
  by (simp add: add_count_def count_of_def update_conv')

lemma distinct_add_count: "distinct (map fst al) \<Longrightarrow> distinct (map fst (add_count w n al))"
  by (simp add: add_count_def Let_def distinct_update)

lemma count_fold:
  "map_of (foldl (\<lambda>counter word. add_count word 1 counter) al ws) w =
    (if w \<in> set ws then Some (count_of al w + word_of_nat (count_list ws w)) else map_of al w)"
  by (induction ws arbitrary: al) (auto simp: map_of_add_count count_of_def split: option.splits)

lemma map_of_count_words:
  "map_of (count_words ws) w = (if w \<in> set ws then Some (word_of_nat (count_list ws w)) else None)"
  by (simp add: count_words_def count_fold count_of_def)

lemma distinct_count_words: "distinct (map fst (count_words ws))"
proof -
  have "distinct (map fst al) \<Longrightarrow> distinct (map fst (foldl (\<lambda>counter word. add_count word 1 counter) al ws))" for al
    by (induction ws arbitrary: al) (simp_all add: distinct_add_count)
  then show ?thesis by (simp add: count_words_def)
qed

lemma keys_count_words: "fst ` set (count_words ws) = set ws"
  using map_of_count_words [of ws] by (auto simp: dom_map_of_conv_image_fst [symmetric] dom_def split: if_splits)

lemma map_of_merge:
  assumes "distinct (map fst p)"
  shows "map_of (merge_counts al p) w =
    (if w \<in> fst ` set p then Some (count_of al w + count_of p w) else map_of al w)"
  using assms
proof (induction p arbitrary: al)
  case Nil
  then show ?case by (simp add: merge_counts_def)
next
  case (Cons x p)
  obtain u c where x: "x = (u, c)" by (cases x)
  have "map_of (merge_counts al (x # p)) w = map_of (merge_counts (add_count u c al) p) w"
    by (simp add: merge_counts_def x)
  also have "\<dots> = (if w \<in> fst ` set p then Some (count_of (add_count u c al) w + count_of p w)
      else map_of (add_count u c al) w)" using Cons by simp
  also have "\<dots> = (if w \<in> fst ` set (x # p) then Some (count_of al w + count_of (x # p) w) else map_of al w)"
  proof (cases "w = u")
    case True
    then have "w \<notin> fst ` set p" using Cons.prems x by auto
    then show ?thesis using True by (simp add: x map_of_add_count count_of_def)
  next
    case False
    then show ?thesis by (auto simp: x map_of_add_count count_of_def)
  qed
  finally show ?case .
qed

lemma distinct_merge: "distinct (map fst al) \<Longrightarrow> distinct (map fst (merge_counts al p))"
  unfolding merge_counts_def by (induction p arbitrary: al) (auto simp: distinct_add_count)

lemma count_of_absent: "w \<notin> fst ` set p \<Longrightarrow> count_of p w = 0"
  by (simp add: count_of_def map_of_eq_None_iff [THEN iffD2])

lemma map_of_merge_all:
  assumes "\<forall>p \<in> set ps. distinct (map fst p)"
  shows "map_of (foldl merge_counts al ps) w =
    (if \<exists>p \<in> set ps. w \<in> fst ` set p then Some (count_of al w + sum_list (map (\<lambda>p. count_of p w) ps))
     else map_of al w)"
  using assms
proof (induction ps arbitrary: al)
  case Nil
  then show ?case by simp
next
  case (Cons p ps)
  note zero = count_of_absent [of w p]
  have none: "sum_list (map (\<lambda>p. count_of p w) ps) = 0" if "\<forall>p \<in> set ps. w \<notin> fst ` set p"
    using that by (induction ps) (simp_all add: count_of_absent)
  have "count_of (merge_counts al p) w = count_of al w + count_of p w"
    using map_of_merge [of p al w] Cons.prems zero by (auto simp: count_of_def split: if_splits)
  then show ?case
    using Cons map_of_merge [of p al w] none by (auto simp: add.assoc)
qed

section \<open>Shuffling\<close>

lemma getidx_bound: "0 < n \<Longrightarrow> \<exists>i. getidx w n = Ok i \<and> i < n"
proof -
  assume n: "0 < n"
  have "h < n \<Longrightarrow> \<exists>i. getidx_from n h w = Ok i \<and> i < n" for h
  proof (induction w arbitrary: h)
    case (Cons c w)
    have "(h * 31 + word_of_nat c) mod n < n" using n by (simp add: word_mod_less_divisor)
    then show ?case using n Cons.IH by auto
  qed simp
  then show ?thesis using n by (simp add: getidx_def)
qed

definition part :: "u64 \<Rightarrow> nat \<Rightarrow> counts \<Rightarrow> counts" where
  "part n r al = filter (\<lambda>(w, c). getidx w n = Ok (word_of_nat r)) al"

lemma update_fresh: "k \<notin> fst ` set al \<Longrightarrow> AList.update k v al = al @ [(k, v)]"
  by (induction al) auto

lemma slot_shuffle_inject:
  "slot_shuffle (to_string a) (to_string b) = slot_shuffle (to_string c) (to_string d) \<longleftrightarrow> a = c \<and> b = d"
proof
  assume eq: "slot_shuffle (to_string a) (to_string b) = slot_shuffle (to_string c) (to_string d)"
  have no_dash: "CHR ''-'' \<notin> set (to_string n)" for n
    using to_string_digits [of "CHR ''-''" n] by (auto simp: is_ascii_digit_def)
  have "to_string a @ CHR ''-'' # to_string b = to_string c @ CHR ''-'' # to_string d"
    using eq by (simp add: slot_shuffle_def)
  from delimiter_cut [OF no_dash no_dash this] show "a = c \<and> b = d" by simp
qed simp

abbreviation shuffle_slot :: "nat \<Rightarrow> nat \<Rightarrow> string" where
  "shuffle_slot i r \<equiv> slot_shuffle (to_string i) (to_string r)"

text \<open>What is known of the slots while mapper \<open>i\<close> distributes its counter.\<close>

definition filled :: "u64 \<Rightarrow> nat \<Rightarrow> nat \<Rightarrow> (nat \<Rightarrow> counts) \<Rightarrow> counts slots \<Rightarrow> counts slots \<Rightarrow> bool" where
  "filled fp i n f m0 m =
    ((\<forall>r < n. m (shuffle_slot i r) = Some (fp, f r)) \<and>
     (\<forall>slot. (\<forall>r < n. slot \<noteq> shuffle_slot i r) \<longrightarrow> m slot = m0 slot))"

lemma filled_update:
  assumes "filled fp i n f m0 m" "r < n"
  shows "filled fp i n (f(r := v)) m0 (m(shuffle_slot i r \<mapsto> (fp, v)))"
  using assms by (auto simp: filled_def slot_shuffle_inject)

lemma make_buffers:
  "filled fp i n (\<lambda>_. []) m (snd (act_each (\<lambda>r. act_modify (slot_put fp (shuffle_slot i r) [])) [0..<n] m)) \<and>
   fst (act_each (\<lambda>r. act_modify (slot_put fp (shuffle_slot i r) [])) [0..<n] m) = Ok ()"
proof -
  have run: "act_each (\<lambda>r. act_modify (slot_put fp (shuffle_slot i r) [])) rs m =
      (Ok (), \<lambda>slot. if \<exists>r \<in> set rs. slot = shuffle_slot i r then Some (fp, []) else m slot)" for rs
    by (induction rs arbitrary: m)
      (auto simp: act_ret_def act_bind_def act_modify_def slot_put_def fun_eq_iff)
  show ?thesis unfolding run by (auto simp: filled_def slot_shuffle_inject)
qed

lemma shuffle_all:
  assumes "filled fp i n f m0 m" "0 < n" "n < 2 ^ 64" "distinct (map fst al)"
    "\<forall>r. fst ` set (f r) \<inter> fst ` set al = {}"
  shows "\<exists>m'. act_each (shuffle_insert fp (to_string i) (word_of_nat n)) al m = (Ok (), m') \<and>
    filled fp i n (\<lambda>r. f r @ part (word_of_nat n) r al) m0 m'"
  using assms(1, 4, 5)
proof (induction al arbitrary: f m)
  case Nil
  then show ?case by (simp add: act_ret_def part_def)
next
  case (Cons x al)
  let ?n = "word_of_nat n :: u64"
  have un: "unat ?n = n" using assms(3) by simp
  have pos: "0 < ?n" using assms(2) un by (simp add: word_less_nat_alt)
  obtain idx where idx: "getidx (fst x) ?n = Ok idx" "idx < ?n" using getidx_bound [OF pos] by blast
  then have r: "unat idx < n" using un by (simp add: word_less_nat_alt)
  let ?r = "unat idx"
  let ?f = "f(?r := f ?r @ [x])" and ?m = "m(shuffle_slot i ?r \<mapsto> (fp, f ?r @ [x]))"
  have "fst x \<notin> fst ` set (f ?r)" using Cons.prems(3) by auto
  then have upd: "AList.update (fst x) (snd x) (f ?r) = f ?r @ [x]" by (simp add: update_fresh)
  have slot: "m (shuffle_slot i ?r) = Some (fp, f ?r)" using Cons.prems(1) r by (simp add: filled_def)
  have step: "shuffle_insert fp (to_string i) ?n x m = (Ok (), ?m)"
    using idx slot upd by (simp add: shuffle_insert_def act_bind_def act_lift_def act_modify_def Let_def)
  have fill: "filled fp i n ?f m0 ?m" using filled_update [OF Cons.prems(1) r] .
  have dis: "\<forall>r. fst ` set (?f r) \<inter> fst ` set al = {}" using Cons.prems(2, 3) by auto
  have "distinct (map fst al)" using Cons.prems(2) by simp
  from Cons.IH [OF fill this dis] obtain m' where
    m': "act_each (shuffle_insert fp (to_string i) ?n) al ?m = (Ok (), m')"
      "filled fp i n (\<lambda>r. ?f r @ part ?n r al) m0 m'" by blast
  have "part ?n r' (x # al) = (if r' = ?r then x # part ?n r' al else part ?n r' al)" if "r' < n" for r'
  proof -
    have "getidx (fst x) ?n = Ok (word_of_nat r') \<longleftrightarrow> r' = ?r"
      using idx(1) that assms(3) unat_word_of_nat_lt [of r', where ?'a = 64] by auto
    then show ?thesis by (cases x) (simp add: part_def)
  qed
  then have "filled fp i n (\<lambda>r. f r @ part ?n r (x # al)) m0 m'"
    using m'(2) by (auto simp: filled_def)
  with m'(1) step show ?case by (auto simp: act_bind_def)
qed

section \<open>The workflow\<close>

definition mapper_args :: "nat \<Rightarrow> nat \<Rightarrow> string \<Rightarrow> string option" where
  "mapper_args i reducers = [''id'' \<mapsto> to_string i, ''reducer_num'' \<mapsto> to_string reducers]"

definition reducer_args :: "nat \<Rightarrow> nat \<Rightarrow> string \<Rightarrow> string option" where
  "reducer_args r mappers = [''id'' \<mapsto> to_string r, ''mapper_num'' \<mapsto> to_string mappers]"

definition input_file :: "nat \<Rightarrow> string" where
  "input_file i = ''fake_data_'' @ to_string i @ ''.txt''"

definition run_mappers ::
  "u64 \<Rightarrow> (nat \<Rightarrow> bool) \<Rightarrow> (string \<Rightarrow> (string, utext) res) \<Rightarrow> nat \<Rightarrow> nat \<Rightarrow> unit wc_act" where
  "run_mappers fp uni read_file mappers reducers =
    act_each (\<lambda>i. mapper_main fp uni read_file (mapper_args i reducers)) [0..<mappers]"

abbreviation mapped :: "(nat \<Rightarrow> bool) \<Rightarrow> utext \<Rightarrow> counts" where
  "mapped uni content \<equiv> count_words (text_words uni content)"

lemma mapper_effect:
  assumes "0 < n" "n * 16 < 2 ^ 63" "read_file (input_file i) = Ok content"
  shows "\<exists>m'. mapper_main fp uni read_file (mapper_args i n) m = (Ok (), m') \<and>
    filled fp i n (\<lambda>r. part (word_of_nat n) r (mapped uni content)) m m'"
proof -
  let ?n = "word_of_nat n :: u64" and ?al = "mapped uni content"
  have small: "n < 2 ^ 64" using assms(2) by simp
  obtain m1 where mk: "(act_each (\<lambda>r. act_modify (slot_put fp (shuffle_slot i r) [])) [0..<n] :: unit wc_act) m = (Ok (), m1)"
      "filled fp i n (\<lambda>_. []) m m1"
    using make_buffers [of fp i n m] by (metis prod.collapse)
  obtain m' where sh: "act_each (shuffle_insert fp (to_string i) ?n) ?al m1 = (Ok (), m')"
      "filled fp i n (\<lambda>r. [] @ part ?n r ?al) m m'"
    using shuffle_all [OF mk(2) assms(1) small distinct_count_words] by auto
  have "mapper_func fp uni read_file (to_string i) ?n m = (Ok (), m')"
    using assms(2, 3) small mk(1) sh(1)
    by (simp add: mapper_func_def input_file_def act_bind_def act_lift_def Let_def)
  then have "mapper_main fp uni read_file (mapper_args i n) m = (Ok (), m')"
    using small by (simp add: mapper_main_def mapper_args_def parse_num_arg_def parse_uint_to_string act_bind_def act_ret_def)
  with sh(2) show ?thesis by auto
qed

text \<open>After the mappers of \<open>is\<close> the slots hold their parts.\<close>

lemma mappers_effect:
  assumes "0 < n" "n * 16 < 2 ^ 63" "\<forall>i \<in> set is. read_file (input_file i) = Ok (texts i)"
  shows "\<exists>m'. act_each (\<lambda>i. mapper_main fp uni read_file (mapper_args i n)) is m = (Ok (), m') \<and>
    (\<forall>i \<in> set is. \<forall>r < n. m' (shuffle_slot i r) = Some (fp, part (word_of_nat n) r (mapped uni (texts i)))) \<and>
    (\<forall>slot. (\<forall>i \<in> set is. \<forall>r < n. slot \<noteq> shuffle_slot i r) \<longrightarrow> m' slot = m slot)"
  using assms(3)
proof (induction "is" arbitrary: m)
  case Nil
  then show ?case by (simp add: act_ret_def)
next
  case (Cons i "is")
  let ?part = "\<lambda>i r. part (word_of_nat n) r (mapped uni (texts i))"
  have "read_file (input_file i) = Ok (texts i)" using Cons.prems by simp
  from mapper_effect [OF assms(1, 2), where read_file = read_file, OF this] obtain m1 where
    m1: "mapper_main fp uni read_file (mapper_args i n) m = (Ok (), m1)" "filled fp i n (?part i) m m1" by blast
  have "\<forall>i \<in> set is. read_file (input_file i) = Ok (texts i)" using Cons.prems by simp
  from Cons.IH [OF this, of m1] obtain m' where
    m': "act_each (\<lambda>i. mapper_main fp uni read_file (mapper_args i n)) is m1 = (Ok (), m')"
      "\<forall>i \<in> set is. \<forall>r < n. m' (shuffle_slot i r) = Some (fp, ?part i r)"
      "\<forall>slot. (\<forall>i \<in> set is. \<forall>r < n. slot \<noteq> shuffle_slot i r) \<longrightarrow> m' slot = m1 slot" by blast
  have "act_each (\<lambda>i. mapper_main fp uni read_file (mapper_args i n)) (i # is) m = (Ok (), m')"
    using m1(1) m'(1) by (simp add: act_bind_def)
  moreover have "m' (shuffle_slot j r) = Some (fp, ?part j r)" if j: "j \<in> set (i # is)" "r < n" for j r
  proof (cases "j \<in> set is")
    case True
    then show ?thesis using m'(2) j(2) by blast
  next
    case False
    then have "j = i" using j(1) by simp
    have "\<forall>k \<in> set is. \<forall>r' < n. shuffle_slot i r \<noteq> shuffle_slot k r'"
      unfolding slot_shuffle_inject using False \<open>j = i\<close> by blast
    then have "m' (shuffle_slot i r) = m1 (shuffle_slot i r)" using m'(3) by blast
    then show ?thesis using m1(2) j(2) \<open>j = i\<close> unfolding filled_def by simp
  qed
  moreover have "m' slot = m slot" if "\<forall>j \<in> set (i # is). \<forall>r < n. slot \<noteq> shuffle_slot j r" for slot
  proof -
    have "m' slot = m1 slot" using m'(3) that by simp
    also have "\<dots> = m slot" using m1(2) that unfolding filled_def by simp
    finally show ?thesis .
  qed
  ultimately show ?case by blast
qed

lemma reduce_effect:
  assumes "distinct is" "\<forall>i \<in> set is. m (shuffle_slot i r) = Some (fp, f i)"
  shows "\<exists>m'. reduce_loop fp (to_string r) counter is m = (Ok (foldl merge_counts counter (map f is)), m')"
  using assms
proof (induction "is" arbitrary: counter m)
  case Nil
  then show ?case by (simp add: act_ret_def)
next
  case (Cons i "is")
  let ?m = "m(shuffle_slot i r := None)"
  have "take_counts fp (shuffle_slot i r) m = (Ok (f i), ?m)"
    using Cons.prems(2) by (simp add: take_counts_def slot_take_def act_bind_def act_ret_def)
  moreover have "\<forall>j \<in> set is. ?m (shuffle_slot j r) = Some (fp, f j)"
    using Cons.prems by (auto simp: slot_shuffle_inject)
  ultimately show ?case using Cons.IH [of ?m "merge_counts counter (f i)"] Cons.prems(1)
    by (simp add: act_bind_def del: fun_upd_apply)
qed

text \<open>The part of a counter at a reducer.\<close>

lemma distinct_part: "distinct (map fst al) \<Longrightarrow> distinct (map fst (part n r al))"
  by (simp add: part_def distinct_map_filter)

lemma keys_part: "fst ` set (part n r al) = {w \<in> fst ` set al. getidx w n = Ok (word_of_nat r)}"
  by (auto simp: part_def)

lemma count_of_part:
  assumes "distinct (map fst al)"
  shows "count_of (part n r al) w = (if getidx w n = Ok (word_of_nat r) then count_of al w else 0)"
proof -
  have "map_of (part n r al) w = (if getidx w n = Ok (word_of_nat r) then map_of al w else None)"
  proof (induction al)
    case (Cons x al)
    then show ?case by (cases x; cases "fst x = w"; cases "getidx w n = Ok (word_of_nat r)") (simp_all add: part_def)
  qed (simp add: part_def)
  then show ?thesis by (simp add: count_of_def)
qed

definition occurrences :: "(nat \<Rightarrow> bool) \<Rightarrow> (nat \<Rightarrow> utext) \<Rightarrow> nat \<Rightarrow> utext \<Rightarrow> nat" where
  "occurrences uni texts mappers w = (\<Sum>i \<leftarrow> [0..<mappers]. count_list (text_words uni (texts i)) w)"

definition reduced :: "u64 \<Rightarrow> (nat \<Rightarrow> bool) \<Rightarrow> (nat \<Rightarrow> utext) \<Rightarrow> nat \<Rightarrow> nat \<Rightarrow> counts" where
  "reduced n uni texts mappers r = foldl merge_counts [] (map (\<lambda>i. part n r (mapped uni (texts i))) [0..<mappers])"

lemma distinct_reduced: "distinct (map fst (reduced n uni texts mappers r))"
proof -
  have "distinct (map fst al) \<Longrightarrow> distinct (map fst (foldl merge_counts al ps))" for al ps
    by (induction ps arbitrary: al) (simp_all add: distinct_merge)
  then show ?thesis by (simp add: reduced_def)
qed

lemma map_of_reduced:
  "map_of (reduced n uni texts mappers r) w =
    (if (\<exists>i < mappers. w \<in> set (text_words uni (texts i))) \<and> getidx w n = Ok (word_of_nat r)
     then Some (word_of_nat (occurrences uni texts mappers w)) else None)"
proof -
  let ?ps = "map (\<lambda>i. part n r (mapped uni (texts i))) [0..<mappers]"
  have parts: "\<forall>p \<in> set ?ps. distinct (map fst p)" by (simp add: distinct_part distinct_count_words)
  have keys: "(\<exists>p \<in> set ?ps. w \<in> fst ` set p) \<longleftrightarrow>
      (\<exists>i < mappers. w \<in> set (text_words uni (texts i))) \<and> getidx w n = Ok (word_of_nat r)"
    unfolding set_map bex_simps keys_part keys_count_words by auto
  have count: "count_of (mapped uni (texts i)) w = word_of_nat (count_list (text_words uni (texts i)) w)" for i
    by (simp add: count_of_def map_of_count_words count_list_0_iff)
  have sum: "sum_list (map (\<lambda>p. count_of p w) ?ps) = word_of_nat (occurrences uni texts mappers w)"
    if "getidx w n = Ok (word_of_nat r)"
    using that by (simp add: o_def count_of_part distinct_count_words count occurrences_def) (induction mappers; simp)
  show ?thesis unfolding reduced_def map_of_merge_all [OF parts] keys using sum by (simp add: count_of_def)
qed

text \<open>C2: The word count workflow counts: for any number of mappers and of reducers, the mappers succeed
  and every reducer then gets a counter without duplicates, in which a word has an entry exactly
  when it occurs in one of the files and its hash belongs to this reducer, and the entry is the
  number of its occurrences in all files (modulo \<open>2 ^ 32\<close>).\<close>

theorem word_count_correct:
  assumes "0 < reducers" "reducers * 16 < 2 ^ 63" "mappers < 2 ^ 64"
    "\<forall>i < mappers. read_file (input_file i) = Ok (texts i)"
  shows "\<exists>m. run_mappers fp uni read_file mappers reducers Map.empty = (Ok (), m) \<and>
    (\<forall>r < reducers. \<exists>counter m'. reducer_main fp (reducer_args r mappers) m = (Ok counter, m') \<and>
      distinct (map fst counter) \<and>
      (\<forall>w. map_of counter w =
        (if (\<exists>i < mappers. w \<in> set (text_words uni (texts i))) \<and> getidx w (word_of_nat reducers) = Ok (word_of_nat r)
         then Some (word_of_nat (occurrences uni texts mappers w)) else None)))"
proof -
  let ?n = "word_of_nat reducers :: u64"
  let ?part = "\<lambda>r i. part ?n r (mapped uni (texts i))"
  obtain m where m: "run_mappers fp uni read_file mappers reducers Map.empty = (Ok (), m)"
    "\<And>i r. i < mappers \<Longrightarrow> r < reducers \<Longrightarrow> m (shuffle_slot i r) = Some (fp, ?part r i)"
    using mappers_effect [OF assms(1, 2), of "[0..<mappers]" read_file texts fp uni Map.empty] assms(4)
    unfolding run_mappers_def by auto
  have "\<exists>m'. reducer_main fp (reducer_args r mappers) m = (Ok (reduced ?n uni texts mappers r), m')"
    if r: "r < reducers" for r
  proof -
    have "\<forall>i \<in> set [0..<mappers]. m (shuffle_slot i r) = Some (fp, ?part r i)" using m(2) r by simp
    from reduce_effect [OF distinct_upt this, of "[]"] obtain m' where
      "reduce_loop fp (to_string r) [] [0..<mappers] m = (Ok (reduced ?n uni texts mappers r), m')"
      unfolding reduced_def by blast
    then show ?thesis using r assms(2, 3)
      by (simp add: reducer_main_def reducer_args_def parse_num_arg_def parse_uint_to_string act_bind_def act_ret_def)
  qed
  then have "\<exists>m'. reducer_main fp (reducer_args r mappers) m = (Ok (reduced ?n uni texts mappers r), m') \<and>
      distinct (map fst (reduced ?n uni texts mappers r)) \<and>
      (\<forall>w. map_of (reduced ?n uni texts mappers r) w =
        (if (\<exists>i < mappers. w \<in> set (text_words uni (texts i))) \<and> getidx w ?n = Ok (word_of_nat r)
         then Some (word_of_nat (occurrences uni texts mappers w)) else None))" if "r < reducers" for r
    using that distinct_reduced map_of_reduced by simp
  with m(1) show ?thesis by blast
qed

text \<open>Two files \<open>ab a\<close> and \<open>a\<close>, one reducer.\<close>

definition two_texts :: "nat \<Rightarrow> utext" where
  "two_texts i = (if i = 0 then [97, 98, 32, 97] else [97])"

theorem word_count_correct_witness:
  "\<exists>m counter m'. run_mappers 9 (\<lambda>_. False) (\<lambda>f. Ok (two_texts (if f = input_file 0 then 0 else 1))) 2 1 Map.empty = (Ok (), m) \<and>
    reducer_main 9 (reducer_args 0 2) m = (Ok counter, m') \<and> map_of counter [97] = Some 2"
proof -
  have files: "\<forall>i < 2. (\<lambda>f. Ok (two_texts (if f = input_file 0 then 0 else 1))) (input_file i) = Ok (two_texts i)"
    by (auto simp: input_file_def two_texts_def less_2_cases_iff)
  have two: "[0..<2] = [0, 1 :: nat]" by (simp add: numeral_eq_Suc)
  have words: "text_words (\<lambda>_. False) (two_texts 0) = [[97, 98], [97]]" "text_words (\<lambda>_. False) (two_texts (Suc 0)) = [[97]]"
    by (simp_all add: text_words_def lines_def line_words_def two_texts_def utrim_def is_whitespace_def is_alphanumeric_def Let_def)
  have idx: "getidx [97] 1 = Ok 0" by (simp add: getidx_def)
  have occ: "\<exists>i < 2. [97] \<in> set (text_words (\<lambda>_. False) (two_texts i))" by (intro exI [of _ 0]) (simp add: words)
  show ?thesis
    using word_count_correct [of 1 2 "\<lambda>f. Ok (two_texts (if f = input_file 0 then 0 else 1))" two_texts 9 "\<lambda>_. False"] files
    by (auto simp: occurrences_def two words idx occ)
qed

text \<open>A blank line counts as an occurrence of the empty word.\<close>

lemma blank_line_is_a_word: "list_all is_whitespace line \<Longrightarrow> line_words uni line = [[]]"
proof -
  assume "list_all is_whitespace line"
  then have "utrim line = []" by (simp add: utrim_def dropWhile_eq_Nil_conv [THEN iffD2] list_all_iff)
  then show ?thesis by (simp add: line_words_def)
qed

end
