(* ===== verification/Mmap.thy ===== *)
theory Mmap
  imports Paging Fs_Types Effects
begin

text \<open>
  Memory mappings: the mapping calls of the memory service (\<open>common_service/mm/src/mmap.rs\<close>), the pages
  that the file backend provides on a fault (\<open>common_service/mmap_file_backend/src/lib.rs\<close>) and the
  mapping type of \<open>as_std/src/mm.rs\<close>. System calls, the allocator and the calls of other services are
  the fields of \<open>MmOs\<close>; a Boolean result tells whether a system call returned zero.
\<close>

record 'w MmOs =
  o_alloc :: "u64 \<Rightarrow> 'w \<Rightarrow> u64 \<times> 'w"
  o_dealloc :: "u64 \<Rightarrow> u64 \<Rightarrow> 'w \<Rightarrow> 'w"
  o_munmap :: "u64 \<Rightarrow> u64 \<Rightarrow> 'w \<Rightarrow> bool \<times> 'w"
  o_mmap :: "u64 \<Rightarrow> u64 \<Rightarrow> u32 \<Rightarrow> 'w \<Rightarrow> u64 \<times> 'w"
  o_mprotect :: "u64 \<Rightarrow> u64 \<Rightarrow> u32 \<Rightarrow> 'w \<Rightarrow> bool \<times> 'w"
  o_register :: "u64 \<Rightarrow> u64 \<Rightarrow> Fd \<Rightarrow> ('w, MmapFileErr, unit) act"
  o_unregister :: "u64 \<Rightarrow> ('w, MmapFileErr, unit) act"
  o_stat :: "Fd \<Rightarrow> ('w, FdtabError, Stat) act"

type_synonym ('w, 'a) mm_act = "('w, MMError, 'a) act"

section \<open>Mapping calls\<close>

definition trans_protflag :: "ProtFlags \<Rightarrow> u32" where
  "trans_protflag flags =
    (if flags_contain flags PROT_FLAG_READ then 1 else 0) OR
    (if flags_contain flags PROT_FLAG_WRITE then 2 else 0) OR
    (if flags_contain flags PROT_FLAG_EXEC then 4 else 0)"

text \<open>\<open>Layout::from_size_align(size, PAGE_SIZE)\<close>: rounded up to a page, the size must not exceed
  \<open>isize::MAX\<close>.\<close>

definition layout_ok :: "u64 \<Rightarrow> bool" where
  "layout_ok sz = (unat sz \<le> 2 ^ 63 - 4096)"

definition os_result :: "string \<Rightarrow> ('w \<Rightarrow> bool \<times> 'w) \<Rightarrow> ('w, unit) mm_act" where
  "os_result msg f = (\<lambda>w. case f w of (True, w') \<Rightarrow> (Ok (), w') | (False, w') \<Rightarrow> (Err (LibcErr msg), w'))"

definition pick_address :: "'w MmOs \<Rightarrow> u64 \<Rightarrow> u64 \<Rightarrow> ('w, u64) mm_act" where
  "pick_address os addr len =
    (if addr = 0 then (\<lambda>w. case o_alloc os len w of (p, w') \<Rightarrow> (Ok p, w')) else act_ret addr)"

definition libos_mmap :: "'w MmOs \<Rightarrow> u64 \<Rightarrow> u64 \<Rightarrow> ProtFlags \<Rightarrow> Fd \<Rightarrow> ('w, u64) mm_act" where
  "libos_mmap os addr len prot fd =
    (if len mod PAGE_SIZE > 0 then act_err (InvaildArg ''length % PAGE_SIZE == 0'' len)
     else if \<not> layout_ok len then act_err LayoutErr
     else
       act_bind (pick_address os addr len) (\<lambda>addr.
       act_bind (os_result ''munmap failed'' (o_munmap os addr len)) (\<lambda>_.
       act_bind (os_result ''mmap failed'' (\<lambda>w. case o_mmap os addr len (trans_protflag prot) w of
         (p, w') \<Rightarrow> (p = addr, w'))) (\<lambda>_.
       if fd = - 1 then act_ret addr
       else act_bind (act_map_err FileBackendErr (o_register os addr len fd)) (\<lambda>_. act_ret addr)))))"

definition libos_munmap :: "'w MmOs \<Rightarrow> u64 \<Rightarrow> u64 \<Rightarrow> bool \<Rightarrow> ('w, unit) mm_act" where
  "libos_munmap os ptr len file_based =
    act_bind (if file_based then act_map_err FileBackendErr (o_unregister os ptr) else act_ret ()) (\<lambda>_.
    let aligned_length = round_up len in
    act_bind (os_result ''mprotect failed'' (o_mprotect os ptr aligned_length 3)) (\<lambda>_.
    if \<not> layout_ok aligned_length then act_err LayoutErr
    else act_modify (o_dealloc os ptr aligned_length)))"

definition libos_mprotect :: "'w MmOs \<Rightarrow> u64 \<Rightarrow> u64 \<Rightarrow> ProtFlags \<Rightarrow> ('w, unit) mm_act" where
  "libos_mprotect os addr len prot =
    os_result ''mprotect failed'' (o_mprotect os addr (round_up len) (trans_protflag prot))"

section \<open>Mapping a file\<close>

record MmapArea =
  area_ptr :: u64
  area_len :: u64

datatype MmapError = FileErr FdtabError | MMErr MMError

text \<open>The file is wrapped in \<open>ManuallyDrop\<close>: its descriptor is never closed.\<close>

definition mmap_file :: "'w MmOs \<Rightarrow> Fd \<Rightarrow> ('w, MmapError, MmapArea) act" where
  "mmap_file os fd =
    act_bind (act_map_err FileErr (o_stat os fd)) (\<lambda>st.
    act_bind (act_map_err MMErr (libos_mmap os 0 (round_up (st_size st)) PROT_FLAG_READ fd)) (\<lambda>ptr.
    act_ret \<lparr>area_ptr = ptr, area_len = st_size st\<rparr>))"

definition mmap_drop :: "'w MmOs \<Rightarrow> MmapArea \<Rightarrow> ('w, MmapError, unit) act" where
  "mmap_drop os area = act_unwrap (libos_munmap os (area_ptr area) (area_len area) True)"

section \<open>Pages on demand\<close>

record RegisterdMemRegion =
  start_addr :: u64
  src_fd :: Fd

datatype UffdEvent = Pagefault u64 | OtherEvent

record 'w FaultOs =
  u_read_event :: "RegisterdMemRegion \<Rightarrow> ('w, string, UffdEvent option) act"
  u_copy :: "byte list \<Rightarrow> u64 \<Rightarrow> ('w, string, unit) act"
  u_lseek :: "Fd \<Rightarrow> u32 \<Rightarrow> ('w, FdtabError, unit) act"
  u_read :: "Fd \<Rightarrow> nat \<Rightarrow> ('w, FdtabError, byte list) act"

text \<open>\<open>page\<close> is the buffer the handler uses for all faults. A read replaces its start; the number of
  bytes read is ignored.\<close>

definition read_at_offset :: "'w FaultOs \<Rightarrow> Fd \<Rightarrow> u32 \<Rightarrow> byte list \<Rightarrow> ('w, MmapFileErr, byte list) act" where
  "read_at_offset u fd off page =
    act_bind (act_map_err FileError (u_lseek u fd off)) (\<lambda>_.
    act_bind (act_map_err FileError (u_read u fd 4096)) (\<lambda>bs. act_ret (overwrite 0 bs page)))"

definition do_page_fault ::
  "'w FaultOs \<Rightarrow> byte list \<Rightarrow> RegisterdMemRegion \<Rightarrow> ('w, MmapFileErr, byte list) act" where
  "do_page_fault u page region =
    act_bind (act_map_err UffdError (u_read_event u region)) (\<lambda>event.
    case event of
      None \<Rightarrow> act_err (MmapUnknown ''uffd_msg should ready'')
    | Some OtherEvent \<Rightarrow> act_err (MmapUnknown ''Unexpected event on userfaultfd'')
    | Some (Pagefault addr) \<Rightarrow>
        if addr < start_addr region then act_panic
        else
          (let aligned_offset = (addr - start_addr region) AND (NOT PAGE_SIZE + 1) in
           act_bind (read_at_offset u (src_fd region) (ucast aligned_offset) page) (\<lambda>page.
           let dst = addr AND NOT (PAGE_SIZE - 1) in
           act_bind (act_map_err UffdError (u_copy u page dst)) (\<lambda>_. act_ret page))))"

section \<open>Facts\<close>

lemma contains_bit:
  assumes "k < 32"
  shows "flags_contain flags (push_bit k 1) \<longleftrightarrow> bit flags k"
proof
  assume "flags_contain flags (push_bit k 1)"
  then have "bit (flags AND push_bit k 1) k \<longleftrightarrow> bit (push_bit k 1 :: u32) k" by (simp only: flags_contain_def)
  then show "bit flags k" using assms by (simp add: bit_and_iff bit_exp_iff)
next
  assume "bit flags k"
  then have "bit (flags AND push_bit k 1) n \<longleftrightarrow> bit (push_bit k 1 :: u32) n" for n
    by (auto simp: bit_and_iff bit_exp_iff)
  then show "flags_contain flags (push_bit k 1)" unfolding flags_contain_def by (rule bit_word_eqI)
qed

text \<open>The flags of the service are those of the operating system.\<close>

lemma trans_protflag_eq: "trans_protflag flags = flags AND 7"
proof -
  have seven: "(7 :: u32) = mask 3" by (simp add: mask_eq_exp_minus_1)
  have "bit (7 :: u32) n \<longleftrightarrow> n < 3" for n unfolding seven bit_mask_iff by auto
  then have bits: "bit (flags AND 7) n \<longleftrightarrow> bit flags n \<and> n < 3" for n by (simp only: bit_and_iff)
  have n: "n < 3 \<longleftrightarrow> n = 0 \<or> n = 1 \<or> n = 2" for n :: nat by auto
  have "trans_protflag flags = (if bit flags 0 then push_bit 0 1 else 0) OR
      (if bit flags 1 then push_bit 1 1 else 0) OR (if bit flags 2 then push_bit 2 1 else 0)"
    using contains_bit [of 0 flags] contains_bit [of 1 flags] contains_bit [of 2 flags]
    by (simp add: trans_protflag_def PROT_FLAG_READ_def PROT_FLAG_WRITE_def PROT_FLAG_EXEC_def push_bit_eq_mult)
  moreover have piece: "bit (if b then push_bit k 1 else (0 :: u32)) n \<longleftrightarrow> b \<and> n = k" if "k < 32" for b k n
    using that by (auto simp: bit_exp_iff)
  have pieces: "bit (if b then push_bit 0 1 else (0 :: u32)) n \<longleftrightarrow> b \<and> n = 0"
    "bit (if b then push_bit 1 1 else (0 :: u32)) n \<longleftrightarrow> b \<and> n = 1"
    "bit (if b then push_bit 2 1 else (0 :: u32)) n \<longleftrightarrow> b \<and> n = 2" for b n
    by (rule piece; simp)+
  ultimately show ?thesis by (intro bit_word_eqI) (auto simp only: bit_or_iff pieces bits n)
qed

section \<open>What a fault provides\<close>

lemma word_of_unat: "unat (x :: u64) = n \<Longrightarrow> x = word_of_nat n"
  by (erule subst) simp

lemma unat_aligned_offset:
  assumes "start \<le> addr"
  shows "unat ((addr - start) AND (NOT PAGE_SIZE + 1)) = (unat addr - unat start) div 4096 * 4096"
  using unat_sub [OF assms] by (simp add: unat_and_page_mask minus_mod_eq_div_mult)

lemma fault_destination:
  assumes "start \<le> addr" "unat start mod 4096 = 0"
  shows "unat (addr AND NOT (PAGE_SIZE - 1)) = unat start + (unat addr - unat start) div 4096 * 4096"
proof -
  have "NOT (PAGE_SIZE - 1) = (NOT PAGE_SIZE + 1 :: u64)" by (simp add: PAGE_SIZE_def)
  then have "unat (addr AND NOT (PAGE_SIZE - 1)) = unat addr div 4096 * 4096"
    by (simp add: unat_and_page_mask minus_mod_eq_div_mult)
  moreover have "unat addr div 4096 * 4096 = unat start + (unat addr - unat start) div 4096 * 4096"
  proof -
    have "unat start \<le> unat addr" using assms(1) by (simp add: word_le_nat_alt)
    then obtain d where d: "unat addr = unat start + d" by (metis le_iff_add)
    obtain k where k: "unat start = 4096 * k" using assms(2) by (metis mod_0_imp_dvd dvdE)
    show ?thesis unfolding d k by simp
  qed
  ultimately show ?thesis by simp
qed

text \<open>C35: A page fault in a mapped file copies to the faulting page what the file holds at the
  corresponding page, and behind the bytes read, as on the last page of the file, whatever the
  handler's buffer held from the fault before, which may be of another file. When the read fills
  the page, the page is that of the file.\<close>

theorem fault_page_content:
  assumes "u_read_event u region w = (Ok (Some (Pagefault addr)), w1)" "start_addr region \<le> addr"
    "unat (start_addr region) mod 4096 = 0" "length page = 4096"
    and off: "off = (unat addr - unat (start_addr region)) div 4096 * 4096"
    and "u_lseek u (src_fd region) (word_of_nat off) w1 = (Ok (), w2)"
    "u_read u (src_fd region) 4096 w2 = (Ok bs, w3)" "length bs \<le> 4096"
    "\<And>p. u_copy u p (start_addr region + word_of_nat off) w3 = (Ok (), store p)"
  shows "let copied = bs @ drop (length bs) page in
    do_page_fault u page region w = (Ok copied, store copied) \<and> length copied = 4096 \<and>
    (length bs = 4096 \<longrightarrow> copied = bs)"
proof -
  have offset: "(addr - start_addr region) AND (NOT PAGE_SIZE + 1) = word_of_nat off"
    using unat_aligned_offset [OF assms(2)] off by (intro word_of_unat) simp
  have cast: "(ucast (word_of_nat off :: u64) :: u32) = word_of_nat off"
    by (simp add: word_unat_eq_iff unsigned_ucast_eq unat_of_nat take_bit_eq_mod mod_mod_cancel)
  have "addr AND NOT (PAGE_SIZE - 1) = word_of_nat (unat (start_addr region) + off)"
    using fault_destination [OF assms(2, 3)] off by (intro word_of_unat) simp
  then have dst: "addr AND NOT (PAGE_SIZE - 1) = start_addr region + word_of_nat off" by simp
  have page: "overwrite 0 bs page = bs @ drop (length bs) page" by (simp add: overwrite_def)
  have "\<not> addr < start_addr region" using assms(2) by simp
  then have "do_page_fault u page region w =
      (Ok (bs @ drop (length bs) page), store (bs @ drop (length bs) page))"
    by (simp add: do_page_fault_def read_at_offset_def act_bind_def act_map_err_def act_ret_def assms(1, 6, 7, 9)
        offset cast dst page Let_def)
  then show ?thesis using assms(4, 8) by simp
qed

definition tiny_file_os :: "byte list FaultOs" where
  "tiny_file_os = \<lparr>u_read_event = (\<lambda>r. act_ret (Some (Pagefault 0x2005))), u_copy = (\<lambda>p dst w. (Ok (), p)),
     u_lseek = (\<lambda>fd off. act_ret ()), u_read = (\<lambda>fd n. act_ret [1, 2])\<rparr>"

text \<open>A file of two bytes, after a fault that left the buffer full of sevens: the mapped page shows them.\<close>

theorem fault_page_content_witness:
  "do_page_fault tiny_file_os (replicate 4096 7) \<lparr>start_addr = 0x2000, src_fd = 5\<rparr> [] =
    (Ok ([1, 2] @ replicate 4094 7), [1, 2] @ replicate 4094 7)"
  using fault_page_content [where u = tiny_file_os and region = "\<lparr>start_addr = 0x2000, src_fd = 5\<rparr>" and w = "[]"
      and addr = "0x2005" and ?w1.0 = "[]" and page = "replicate 4096 7" and off = 0 and ?w2.0 = "[]" and bs = "[1, 2]"
      and ?w3.0 = "[]" and store = "\<lambda>p. p"]
  by (simp add: tiny_file_os_def act_ret_def Let_def)

end
