(* ===== verification/Fault_Threads.thy ===== *)
theory Fault_Threads
  imports Mmap
begin

text \<open>
  The threads of the file backend (\<open>common_service/mmap_file_backend/src/lib.rs\<close>, \<open>apis.rs\<close>): a handler
  thread that waits for page faults, and the calls that register and unregister a mapping. The lock
  \<open>REGISTER\<close> admits one call at a time. The state has the list of regions with its lock, the notify pipe
  with the number of bytes in it, and the place where the handler and the call are; an action is one
  step of one thread between two synchronisations. Failing system calls, after which the handler panics
  and a call returns an error, are left out, and so is the bound on the bytes a pipe holds.
\<close>

datatype holder = Handler | Call

datatype handler_pc =
    HNone \<comment> \<open>no thread\<close>
  | HStart \<comment> \<open>spawned, before the pipe's receiver is fetched\<close>
  | HLock \<comment> \<open>top of the loop, about to lock the regions\<close>
  | HWait \<comment> \<open>holds the lock, waits for an event\<close>
  | HNotified \<comment> \<open>woken by the pipe, lock released\<close>
  | HBroke \<comment> \<open>left the loop, about to reset the pipe\<close>

datatype call_pc =
    CIdle
  | RTry RegisterdMemRegion \<comment> \<open>register: about to try the lock\<close>
  | RBlocked RegisterdMemRegion \<comment> \<open>lock taken, pipe notified, waiting for the lock\<close>
  | RHold RegisterdMemRegion \<comment> \<open>holds the lock\<close>
  | RPushed \<comment> \<open>region added, about to look for the pipe\<close>
  | UTry u64 \<comment> \<open>unregister: pipe notified, about to try the lock\<close>
  | UBlocked u64
  | UHold u64

record FbState =
  regions :: "RegisterdMemRegion list"
  rlock :: "holder option"
  notify_pipe :: "nat option"
  pipe_read :: bool
  handler :: handler_pc
  call :: call_pc
  faults :: "u64 list"
  handlers_clash :: bool

definition fb_init :: FbState where
  "fb_init = \<lparr>regions = [], rlock = None, notify_pipe = None, pipe_read = False, handler = HNone, call = CIdle,
     faults = [], handlers_clash = False\<rparr>"

text \<open>\<open>notify\<close> on an existing pipe.\<close>

definition notify :: "FbState \<Rightarrow> FbState" where
  "notify s = s\<lparr>notify_pipe := map_option Suc (notify_pipe s)\<rparr>"

fun remove_region :: "u64 \<Rightarrow> RegisterdMemRegion list \<Rightarrow> RegisterdMemRegion list" where
  "remove_region a [] = []"
| "remove_region a (r # rs) = (if start_addr r = a then rs else r # remove_region a rs)"

section \<open>Calls\<close>

definition register_begin :: "RegisterdMemRegion \<Rightarrow> FbState \<Rightarrow> FbState option" where
  "register_begin r s = (if call s = CIdle then Some (s\<lparr>call := RTry r\<rparr>) else None)"

definition unregister_begin :: "u64 \<Rightarrow> FbState \<Rightarrow> FbState option" where
  "unregister_begin a s =
    (if call s = CIdle \<and> notify_pipe s \<noteq> None then Some (notify (s\<lparr>call := UTry a, pipe_read := True\<rparr>)) else None)"

text \<open>\<open>acquire_regions_or_notify\<close>.\<close>

definition acquire_regions_or_notify :: "FbState \<Rightarrow> FbState option" where
  "acquire_regions_or_notify s =
    (case (call s, rlock s) of
       (RTry r, None) \<Rightarrow> Some (s\<lparr>call := RHold r, rlock := Some Call\<rparr>)
     | (RTry r, Some _) \<Rightarrow> if notify_pipe s = None then Some (s\<lparr>call := CIdle\<rparr>) else Some (notify (s\<lparr>call := RBlocked r\<rparr>))
     | (RBlocked r, None) \<Rightarrow> Some (s\<lparr>call := RHold r, rlock := Some Call\<rparr>)
     | (UTry a, None) \<Rightarrow> Some (s\<lparr>call := UHold a, rlock := Some Call\<rparr>)
     | (UTry a, Some _) \<Rightarrow> Some (notify (s\<lparr>call := UBlocked a\<rparr>))
     | (UBlocked a, None) \<Rightarrow> Some (s\<lparr>call := UHold a, rlock := Some Call\<rparr>)
     | _ \<Rightarrow> None)"

text \<open>The rest of \<open>register_file_backend\<close>: the region is added, and a pipe and a handler are made when
  there is no pipe. The lock is held until the call returns.\<close>

definition register_push :: "FbState \<Rightarrow> FbState option" where
  "register_push s = (case call s of
     RHold r \<Rightarrow> Some (s\<lparr>regions := regions s @ [r], call := RPushed\<rparr>) | _ \<Rightarrow> None)"

definition register_end :: "FbState \<Rightarrow> FbState option" where
  "register_end s =
    (if call s \<noteq> RPushed then None
     else if notify_pipe s \<noteq> None then Some (s\<lparr>call := CIdle, rlock := None\<rparr>)
     else Some (s\<lparr>call := CIdle, rlock := None, notify_pipe := Some 0, handler := HStart,
                  handlers_clash := handlers_clash s \<or> handler s \<noteq> HNone\<rparr>))"

definition unregister_end :: "FbState \<Rightarrow> FbState option" where
  "unregister_end s = (case call s of
     UHold a \<Rightarrow> Some (s\<lparr>regions := remove_region a (regions s), call := CIdle, rlock := None, pipe_read := False\<rparr>)
   | _ \<Rightarrow> None)"

section \<open>The handler\<close>

text \<open>\<open>file_page_fault_handler\<close>. Fetching the receiver and, later, the pipe panics without a pipe.\<close>

definition handler_start :: "FbState \<Rightarrow> (unit, FbState) res option" where
  "handler_start s =
    (if handler s \<noteq> HStart then None
     else Some (if notify_pipe s = None then Panic else Ok (s\<lparr>handler := HLock\<rparr>)))"

definition handler_lock :: "FbState \<Rightarrow> FbState option" where
  "handler_lock s =
    (if handler s \<noteq> HLock \<or> rlock s \<noteq> None then None
     else if regions s = [] then Some (s\<lparr>handler := HBroke\<rparr>)
     else Some (s\<lparr>handler := HWait, rlock := Some Handler\<rparr>))"

definition handler_fault :: "u64 \<Rightarrow> FbState \<Rightarrow> FbState option" where
  "handler_fault a s =
    (if handler s = HWait \<and> a \<in> set (faults s) \<and> a \<in> start_addr ` set (regions s)
     then Some (s\<lparr>handler := HLock, rlock := None, faults := remove1 a (faults s)\<rparr>) else None)"

definition handler_notified :: "FbState \<Rightarrow> FbState option" where
  "handler_notified s =
    (if handler s = HWait \<and> (case notify_pipe s of Some (Suc n) \<Rightarrow> True | _ \<Rightarrow> False)
     then Some (s\<lparr>handler := HNotified, rlock := None\<rparr>) else None)"

definition handler_consume :: "FbState \<Rightarrow> (unit, FbState) res option" where
  "handler_consume s =
    (if handler s \<noteq> HNotified then None
     else case notify_pipe s of
       None \<Rightarrow> Some Panic
     | Some 0 \<Rightarrow> None
     | Some (Suc n) \<Rightarrow> Some (Ok (s\<lparr>handler := HLock, notify_pipe := Some n\<rparr>)))"

text \<open>Resetting the pipe needs the write lock, which an \<open>unregister\<close> that reads the pipe excludes.\<close>

definition handler_exit :: "FbState \<Rightarrow> FbState option" where
  "handler_exit s =
    (if handler s = HBroke \<and> \<not> pipe_read s then Some (s\<lparr>handler := HNone, notify_pipe := None\<rparr>) else None)"

section \<open>Executions\<close>

datatype fb_action =
    RegBegin RegisterdMemRegion | UnregBegin u64 | Acquire | RegPush | RegEnd | UnregEnd
  | HStartA | HLockA | HFaultA u64 | HNotifiedA | HConsumeA | HExitA
  | Touch RegisterdMemRegion \<comment> \<open>a function touches a page that is not there\<close>

definition lift_ok :: "FbState option \<Rightarrow> (unit, FbState) res option" where
  "lift_ok x = map_option Ok x"

fun fb_do :: "fb_action \<Rightarrow> FbState \<Rightarrow> (unit, FbState) res option" where
  "fb_do (RegBegin r) s = lift_ok (register_begin r s)"
| "fb_do (UnregBegin a) s = lift_ok (unregister_begin a s)"
| "fb_do Acquire s = lift_ok (acquire_regions_or_notify s)"
| "fb_do RegPush s = lift_ok (register_push s)"
| "fb_do RegEnd s = lift_ok (register_end s)"
| "fb_do UnregEnd s = lift_ok (unregister_end s)"
| "fb_do HStartA s = handler_start s"
| "fb_do HLockA s = lift_ok (handler_lock s)"
| "fb_do (HFaultA a) s = lift_ok (handler_fault a s)"
| "fb_do HNotifiedA s = lift_ok (handler_notified s)"
| "fb_do HConsumeA s = handler_consume s"
| "fb_do HExitA s = lift_ok (handler_exit s)"
| "fb_do (Touch r) s = (if r \<in> set (regions s) then Some (Ok (s\<lparr>faults := faults s @ [start_addr r]\<rparr>)) else None)"

inductive fb_reach :: "FbState \<Rightarrow> bool" where
  fb_reach_init: "fb_reach fb_init"
| fb_reach_step: "fb_reach s \<Longrightarrow> fb_do a s = Some (Ok s') \<Longrightarrow> fb_reach s'"

fun fb_run :: "fb_action list \<Rightarrow> FbState \<Rightarrow> FbState option" where
  "fb_run [] s = Some s"
| "fb_run (a # as) s = (case fb_do a s of Some (Ok s') \<Rightarrow> fb_run as s' | _ \<Rightarrow> None)"

lemma fb_run_reach: "fb_reach s \<Longrightarrow> fb_run as s = Some s' \<Longrightarrow> fb_reach s'"
  by (induction "as" arbitrary: s) (auto split: option.splits res.splits intro: fb_reach_step)

lemmas fb_defs = register_begin_def unregister_begin_def acquire_regions_or_notify_def register_push_def
  register_end_def unregister_end_def handler_start_def handler_lock_def handler_fault_def handler_notified_def
  handler_consume_def handler_exit_def notify_def lift_ok_def

section \<open>Safety\<close>

definition call_holds :: "call_pc \<Rightarrow> bool" where
  "call_holds c = (case c of RHold _ \<Rightarrow> True | RPushed \<Rightarrow> True | UHold _ \<Rightarrow> True | _ \<Rightarrow> False)"

definition call_reads :: "call_pc \<Rightarrow> bool" where
  "call_reads c = (case c of UTry _ \<Rightarrow> True | UBlocked _ \<Rightarrow> True | UHold _ \<Rightarrow> True | _ \<Rightarrow> False)"

definition fb_inv :: "FbState \<Rightarrow> bool" where
  "fb_inv s =
    ((rlock s = Some Handler \<longleftrightarrow> handler s = HWait) \<and>
     (rlock s = Some Call \<longleftrightarrow> call_holds (call s)) \<and>
     (handler s = HNone \<longleftrightarrow> notify_pipe s = None) \<and>
     (handler s = HNotified \<longrightarrow> notify_pipe s \<noteq> Some 0) \<and>
     (pipe_read s \<longleftrightarrow> call_reads (call s)) \<and>
     (pipe_read s \<longrightarrow> notify_pipe s \<noteq> None) \<and>
     \<not> handlers_clash s)"

lemmas inv_defs = fb_inv_def call_holds_def call_reads_def

lemma acquire_inv: "fb_inv s \<Longrightarrow> acquire_regions_or_notify s = Some s' \<Longrightarrow> fb_inv s'"
  by (cases "call s"; cases "rlock s"; clarsimp simp: acquire_regions_or_notify_def notify_def split: if_splits;
      simp add: inv_defs)

lemma register_begin_inv: "fb_inv s \<Longrightarrow> register_begin r s = Some s' \<Longrightarrow> fb_inv s'"
  by (clarsimp simp: register_begin_def split: if_splits) (simp add: inv_defs)

lemma unregister_begin_inv: "fb_inv s \<Longrightarrow> unregister_begin a s = Some s' \<Longrightarrow> fb_inv s'"
  by (clarsimp simp: unregister_begin_def notify_def split: if_splits) (simp add: inv_defs)

lemma register_push_inv: "fb_inv s \<Longrightarrow> register_push s = Some s' \<Longrightarrow> fb_inv s'"
  by (cases "call s"; clarsimp simp: register_push_def; auto simp: inv_defs)

lemma register_end_inv: "fb_inv s \<Longrightarrow> register_end s = Some s' \<Longrightarrow> fb_inv s'"
  by (clarsimp simp: register_end_def split: if_splits; auto simp: inv_defs)

lemma unregister_end_inv: "fb_inv s \<Longrightarrow> unregister_end s = Some s' \<Longrightarrow> fb_inv s'"
  by (cases "call s"; clarsimp simp: unregister_end_def; auto simp: inv_defs)

lemma handler_lock_inv: "fb_inv s \<Longrightarrow> handler_lock s = Some s' \<Longrightarrow> fb_inv s'"
  by (clarsimp simp: handler_lock_def split: if_splits; auto simp: fb_inv_def)

lemma handler_fault_inv: "fb_inv s \<Longrightarrow> handler_fault a s = Some s' \<Longrightarrow> fb_inv s'"
  by (clarsimp simp: handler_fault_def split: if_splits; auto simp: fb_inv_def)

lemma handler_notified_inv: "fb_inv s \<Longrightarrow> handler_notified s = Some s' \<Longrightarrow> fb_inv s'"
  by (clarsimp simp: handler_notified_def split: if_splits option.splits nat.splits; auto simp: fb_inv_def)

lemma handler_exit_inv: "fb_inv s \<Longrightarrow> handler_exit s = Some s' \<Longrightarrow> fb_inv s'"
  by (clarsimp simp: handler_exit_def split: if_splits; auto simp: fb_inv_def)

lemma handler_start_inv: "fb_inv s \<Longrightarrow> handler_start s = Some x \<Longrightarrow> \<exists>s'. x = Ok s' \<and> fb_inv s'"
  by (clarsimp simp: handler_start_def split: if_splits; auto simp: fb_inv_def)

lemma handler_consume_inv: "fb_inv s \<Longrightarrow> handler_consume s = Some x \<Longrightarrow> \<exists>s'. x = Ok s' \<and> fb_inv s'"
  by (clarsimp simp: handler_consume_def split: if_splits option.splits nat.splits; auto simp: fb_inv_def)

lemma lift_ok_inv: "fb_inv s \<Longrightarrow> lift_ok m = Some x \<Longrightarrow> (\<And>s'. m = Some s' \<Longrightarrow> fb_inv s') \<Longrightarrow> \<exists>s'. x = Ok s' \<and> fb_inv s'"
  by (auto simp: lift_ok_def)

lemma fb_inv_step:
  assumes "fb_inv s" "fb_do a s = Some x"
  shows "\<exists>s'. x = Ok s' \<and> fb_inv s'"
proof (cases a)
  case HStartA
  then show ?thesis using assms handler_start_inv by simp
next
  case HConsumeA
  then show ?thesis using assms handler_consume_inv by simp
next
  case (Touch r)
  then show ?thesis using assms by (auto simp: fb_inv_def split: if_splits)
next
  case (RegBegin r)
  then show ?thesis using assms register_begin_inv [OF assms(1)] by (intro lift_ok_inv [OF assms(1)]) simp_all
next
  case (UnregBegin b)
  then show ?thesis using assms unregister_begin_inv [OF assms(1)] by (intro lift_ok_inv [OF assms(1)]) simp_all
next
  case Acquire
  then show ?thesis using assms acquire_inv [OF assms(1)] by (intro lift_ok_inv [OF assms(1)]) simp_all
next
  case RegPush
  then show ?thesis using assms register_push_inv [OF assms(1)] by (intro lift_ok_inv [OF assms(1)]) simp_all
next
  case RegEnd
  then show ?thesis using assms register_end_inv [OF assms(1)] by (intro lift_ok_inv [OF assms(1)]) simp_all
next
  case UnregEnd
  then show ?thesis using assms unregister_end_inv [OF assms(1)] by (intro lift_ok_inv [OF assms(1)]) simp_all
next
  case HLockA
  then show ?thesis using assms handler_lock_inv [OF assms(1)] by (intro lift_ok_inv [OF assms(1)]) simp_all
next
  case (HFaultA b)
  then show ?thesis using assms handler_fault_inv [OF assms(1)] by (intro lift_ok_inv [OF assms(1)]) simp_all
next
  case HNotifiedA
  then show ?thesis using assms handler_notified_inv [OF assms(1)] by (intro lift_ok_inv [OF assms(1)]) simp_all
next
  case HExitA
  then show ?thesis using assms handler_exit_inv [OF assms(1)] by (intro lift_ok_inv [OF assms(1)]) simp_all
qed

lemma fb_reach_inv: "fb_reach s \<Longrightarrow> fb_inv s"
proof (induction rule: fb_reach.induct)
  case fb_reach_init
  then show ?case by (simp add: fb_inv_def fb_init_def call_holds_def call_reads_def)
next
  case (fb_reach_step s a s')
  then show ?case using fb_inv_step by blast
qed

text \<open>C10: However the threads interleave, there is never more than one fault handler, the handler never
  panics over a missing pipe, and the lock on the regions is held by the handler exactly while it
  waits for an event and by a call exactly while it changes the regions.\<close>

theorem fault_handler_safe:
  assumes "fb_reach s"
  shows "\<not> handlers_clash s \<and> fb_do a s \<noteq> Some Panic \<and>
    (rlock s = Some Handler \<longleftrightarrow> handler s = HWait) \<and> (rlock s = Some Call \<longleftrightarrow> call_holds (call s))"
proof -
  have inv: "fb_inv s" using fb_reach_inv [OF assms] .
  then have "fb_do a s \<noteq> Some Panic" using fb_inv_step [OF inv, of a Panic] by auto
  then show ?thesis using inv by (simp add: fb_inv_def)
qed

definition region_a :: RegisterdMemRegion where
  "region_a = \<lparr>start_addr = 0x1000, src_fd = 3\<rparr>"

definition region_b :: RegisterdMemRegion where
  "region_b = \<lparr>start_addr = 0x5000, src_fd = 4\<rparr>"

definition first_mapping :: "fb_action list" where
  "first_mapping = [RegBegin region_a, Acquire, RegPush, RegEnd, HStartA, HLockA]"

definition mapped_once :: FbState where
  "mapped_once = \<lparr>regions = [region_a], rlock = Some Handler, notify_pipe = Some 0, pipe_read = False,
     handler = HWait, call = CIdle, faults = [], handlers_clash = False\<rparr>"

lemma first_mapping_run: "fb_run first_mapping fb_init = Some mapped_once"
  by (simp add: first_mapping_def mapped_once_def fb_init_def fb_defs)

lemma mapped_once_reach: "fb_reach mapped_once"
  using fb_run_reach [OF fb_reach_init first_mapping_run] .

theorem fault_handler_safe_witness:
  "fb_reach mapped_once \<and> fb_do HNotifiedA mapped_once \<noteq> Some Panic"
  using fault_handler_safe [OF mapped_once_reach, of HNotifiedA] mapped_once_reach by blast

section \<open>Races\<close>

definition is_touch :: "fb_action \<Rightarrow> bool" where
  "is_touch a = (case a of Touch _ \<Rightarrow> True | _ \<Rightarrow> False)"

definition is_new_call :: "fb_action \<Rightarrow> bool" where
  "is_new_call a = (case a of RegBegin _ \<Rightarrow> True | _ \<Rightarrow> False)"

definition orphaned :: FbState where
  "orphaned = \<lparr>regions = [region_b], rlock = None, notify_pipe = None, pipe_read = False, handler = HNone,
     call = CIdle, faults = [start_addr region_b], handlers_clash = False\<rparr>"

definition rescue :: "fb_action list" where
  "rescue = [RegBegin region_a, Acquire, RegPush, RegEnd, HStartA, HLockA, HFaultA (start_addr region_b)]"

text \<open>C36: The handler can leave between two registrations so that a mapping stays without one: after the
  last mapping is unregistered the handler ends its loop, a new mapping is registered while the old
  pipe still exists, so that no handler is spawned, and then the handler resets the pipe and ends. A
  page of the new mapping that was touched is not provided: no thread of the backend has a step left;
  only functions touching further pages and a new registration do. The mapping waits until another one
  is registered, which starts a handler again; that handler provides the page.\<close>

theorem mapping_without_handler:
  "fb_reach orphaned \<and> regions orphaned = [region_b] \<and> faults orphaned = [start_addr region_b] \<and>
    handler orphaned = HNone \<and> (\<forall>a. is_touch a \<or> is_new_call a \<or> fb_do a orphaned = None) \<and>
    (\<exists>s. fb_run rescue orphaned = Some s \<and> handler s \<noteq> HNone \<and> region_b \<in> set (regions s) \<and> faults s = [])"
proof -
  have "fb_run (first_mapping @ [UnregBegin (start_addr region_a), Acquire, HNotifiedA, Acquire, UnregEnd, HConsumeA,
      HLockA, RegBegin region_b, Acquire, RegPush, RegEnd, HExitA, Touch region_b]) fb_init = Some orphaned"
    by (simp add: first_mapping_def orphaned_def fb_init_def fb_defs region_a_def region_b_def)
  then have "fb_reach orphaned" by (rule fb_run_reach [OF fb_reach_init])
  moreover have "is_touch a \<or> is_new_call a \<or> fb_do a orphaned = None" for a
    by (cases a) (simp_all add: is_touch_def is_new_call_def orphaned_def fb_defs)
  moreover have "\<exists>s. fb_run rescue orphaned = Some s \<and> handler s \<noteq> HNone \<and> region_b \<in> set (regions s) \<and> faults s = []"
    by (simp add: rescue_def orphaned_def fb_defs region_a_def region_b_def)
  ultimately show ?thesis by (simp add: orphaned_def)
qed

definition missed_wakeup :: FbState where
  "missed_wakeup = \<lparr>regions = [region_a], rlock = Some Handler, notify_pipe = Some 0, pipe_read = False,
     handler = HWait, call = RBlocked region_b, faults = [], handlers_clash = False\<rparr>"

text \<open>C37: A registration can wait without end: it notifies the handler and waits for the lock, the handler
  releases the lock, consumes the notification and takes the lock again before the registration does,
  and waits for an event that nobody will send. Unless a function happens to touch a missing page of
  another mapping, no thread has a step left.\<close>

theorem registration_misses_wakeup:
  "fb_reach missed_wakeup \<and> call missed_wakeup = RBlocked region_b \<and> handler missed_wakeup = HWait \<and>
    notify_pipe missed_wakeup = Some 0 \<and> (\<forall>a. is_touch a \<or> fb_do a missed_wakeup = None)"
proof -
  have "fb_run [RegBegin region_b, Acquire, HNotifiedA, HConsumeA, HLockA] mapped_once = Some missed_wakeup"
    by (simp add: mapped_once_def missed_wakeup_def fb_defs)
  then have "fb_reach missed_wakeup" by (rule fb_run_reach [OF mapped_once_reach])
  moreover have "is_touch a \<or> fb_do a missed_wakeup = None" for a
    by (cases a) (simp_all add: is_touch_def missed_wakeup_def fb_defs)
  ultimately show ?thesis by (simp add: missed_wakeup_def)
qed

end
