(* ===== verification/Lazy_Static.thy ===== *)
theory Lazy_Static
  imports Effects
begin

text \<open>
  Statics that are created at their first use (\<open>lazy_static\<close>): a panic while one is created makes every
  later use panic. Also what a panic leaves behind, such as the poisoning of a lock that is held.
\<close>

datatype lazy = Uninit | Ready | Broken

definition act_on_panic :: "('s \<Rightarrow> 's) \<Rightarrow> ('s, 'e, 'a) act \<Rightarrow> ('s, 'e, 'a) act" where
  "act_on_panic f m = (\<lambda>s. case m s of (Panic, s') \<Rightarrow> (Panic, f s') | x \<Rightarrow> x)"

text \<open>\<open>get\<close> and \<open>put\<close> are the state of the static; \<open>create\<close> runs at the first use.\<close>

definition force_static ::
  "('s \<Rightarrow> lazy) \<Rightarrow> (lazy \<Rightarrow> 's \<Rightarrow> 's) \<Rightarrow> ('s, 'e, unit) act \<Rightarrow> ('s, 'e, unit) act" where
  "force_static get put create = (\<lambda>s.
    case get s of
      Ready \<Rightarrow> (Ok (), s)
    | Broken \<Rightarrow> (Panic, s)
    | Uninit \<Rightarrow> act_on_panic (put Broken) (act_bind create (\<lambda>_. act_modify (put Ready))) s)"

lemma act_on_panic_Ok [act_simps]: "act_on_panic f m s = (Ok a, s') \<longleftrightarrow> m s = (Ok a, s')"
  by (auto simp: act_on_panic_def split: prod.splits res.splits)

lemma force_static_simps:
  "get s = Ready \<Longrightarrow> force_static get put create s = (Ok (), s)"
  "get s = Broken \<Longrightarrow> force_static get put create s = (Panic, s)"
  "get s = Uninit \<Longrightarrow> create s = (Ok (), s1) \<Longrightarrow> force_static get put create s = (Ok (), put Ready s1)"
  by (simp_all add: force_static_def act_on_panic_def act_bind_def act_modify_def)

lemma force_static_Ok [act_simps]:
  "force_static get put create s = (Ok u, s') \<longleftrightarrow>
    get s = Ready \<and> s' = s \<or> get s = Uninit \<and> (\<exists>s1. create s = (Ok (), s1) \<and> s' = put Ready s1)"
  by (cases "get s") (auto simp: force_static_def act_simps)

end
