(* ===== verification/Loops.thy ===== *)
theory Loops
  imports Lazy_Static
begin

text \<open>
  Loops that may run forever. One round of a loop is an action that ends with the values the next
  round starts with, or with the result of the loop; an error or a panic of a round ends the loop.
  The value is \<open>None\<close> when the loop does not end. The two rules say when a loop ends, by a
  well-founded relation that every round follows, and when it does not, by a condition that every round keeps.
\<close>

type_synonym ('s, 'e, 'a) run = "'s \<Rightarrow> (('e, 'a) res \<times> 's) option"

partial_function (option) act_loop :: "('c \<Rightarrow> ('s, 'e, 'c + 'a) act) \<Rightarrow> 'c \<Rightarrow> ('s, 'e, 'a) run" where
  "act_loop round c s =
    (case round c s of
       (Ok (Inl c'), s') \<Rightarrow> act_loop round c' s'
     | (Ok (Inr a), s') \<Rightarrow> Some (Ok a, s')
     | (Err e, s') \<Rightarrow> Some (Err e, s')
     | (Panic, s') \<Rightarrow> Some (Panic, s'))"

text \<open>An action, then code that may not end.\<close>

definition run_bind :: "('s, 'e, 'a) act \<Rightarrow> ('a \<Rightarrow> ('s, 'e, 'b) run) \<Rightarrow> ('s, 'e, 'b) run" where
  "run_bind m f = (\<lambda>s. case m s of
     (Ok a, s') \<Rightarrow> f a s'
   | (Err e, s') \<Rightarrow> Some (Err e, s')
   | (Panic, s') \<Rightarrow> Some (Panic, s'))"

definition run_act :: "('s, 'e, 'a) act \<Rightarrow> ('s, 'e, 'a) run" where
  "run_act m = (\<lambda>s. Some (m s))"

definition run_then :: "('s, 'e, 'a) run \<Rightarrow> ('a \<Rightarrow> ('s, 'e, 'b) act) \<Rightarrow> ('s, 'e, 'b) run" where
  "run_then m f = (\<lambda>s. case m s of
     None \<Rightarrow> None
   | Some (Ok a, s') \<Rightarrow> Some (f a s')
   | Some (Err e, s') \<Rightarrow> Some (Err e, s')
   | Some (Panic, s') \<Rightarrow> Some (Panic, s'))"

text \<open>What a panic leaves behind: \<open>f\<close> on the state, such as poisoning the locks that are held.\<close>

definition run_on_panic :: "('s \<Rightarrow> 's) \<Rightarrow> ('s, 'e, 'a) run \<Rightarrow> ('s, 'e, 'a) run" where
  "run_on_panic f m = (\<lambda>s. case m s of
     Some (Panic, s') \<Rightarrow> Some (Panic, f s')
   | x \<Rightarrow> x)"

lemmas run_defs = run_bind_def run_act_def run_then_def run_on_panic_def act_on_panic_def

lemma act_loop_ends:
  assumes "wf r" "P c s"
    and "\<And>c s. P c s \<Longrightarrow>
      (\<exists>c' s'. round c s = (Ok (Inl c'), s') \<and> P c' s' \<and> ((c', s'), (c, s)) \<in> r) \<or>
      (\<exists>a s'. round c s = (Ok (Inr a), s') \<and> Q a s')"
  shows "\<exists>a s'. act_loop round c s = Some (Ok a, s') \<and> Q a s'"
  using assms(2)
proof (induction "(c, s)" arbitrary: c s rule: wf_induct_rule [OF assms(1)])
  case 1
  from assms(3) [OF 1(2)] show ?case
  proof (elim disjE exE conjE)
    fix c' s' assume step: "round c s = (Ok (Inl c'), s')" "P c' s'" "((c', s'), (c, s)) \<in> r"
    then show ?thesis using 1(1) [OF step(3, 2)] by (simp add: act_loop.simps [of round c])
  next
    fix a s' assume "round c s = (Ok (Inr a), s')" "Q a s'"
    then show ?thesis by (simp add: act_loop.simps [of round c])
  qed
qed

lemma act_loop_diverges:
  fixes round :: "'c \<Rightarrow> ('s, 'e, 'c + 'a) act"
  assumes "P c s" and "\<And>c s. P c s \<Longrightarrow> \<exists>c' s'. round c s = (Ok (Inl c'), s') \<and> P c' s'"
  shows "act_loop round c s = None"
proof (rule ccontr)
  assume "act_loop round c s \<noteq> None"
  then obtain y where y: "act_loop round c s = Some y" by blast
  have "(\<forall>c s. P c s \<longrightarrow> (\<exists>c' s'. round c s = (Ok (Inl c'), s') \<and> P c' s')) \<longrightarrow> \<not> P c s"
  proof (rule act_loop.raw_induct [OF _ y])
    fix rec :: "('c \<Rightarrow> ('s, 'e, 'c + 'a) act) \<Rightarrow> 'c \<Rightarrow> ('s, 'e, 'a) run" and round :: "'c \<Rightarrow> ('s, 'e, 'c + 'a) act" and c s y
    let ?keeps = "\<forall>c s. P c s \<longrightarrow> (\<exists>c' s'. round c s = (Ok (Inl c'), s') \<and> P c' s')"
    assume IH: "\<And>(round :: 'c \<Rightarrow> ('s, 'e, 'c + 'a) act) c s y. rec round c s = Some y \<Longrightarrow>
        (\<forall>c s. P c s \<longrightarrow> (\<exists>c' s'. round c s = (Ok (Inl c'), s') \<and> P c' s')) \<longrightarrow> \<not> P c s"
      and step: "(case round c s of (Ok (Inl c'), s') \<Rightarrow> rec round c' s' | (Ok (Inr a), s') \<Rightarrow> Some (Ok a, s')
        | (Err e, s') \<Rightarrow> Some (Err e, s') | (Panic, s') \<Rightarrow> Some (Panic, s')) = Some y"
    show "?keeps \<longrightarrow> \<not> P c s"
    proof (intro impI notI)
      assume keeps: ?keeps and "P c s"
      then obtain c' s' where go: "round c s = (Ok (Inl c'), s')" "P c' s'" by blast
      with step IH [of round c' s' y] keeps show False by simp
    qed
  qed
  then have "\<not> P c s" using assms(2) by blast
  with assms(1) show False by blast
qed

end
