(* ===== verification/Tap.thy ===== *)
theory Tap
  imports Effects Rust_Fmt
begin

text \<open>
  The network device of an isolation (\<open>common_service/socket/src/setup_tap.rs\<close>): the commands that
  create and remove a tap device, and running them with \<open>sudo\<close>. Spawning a process, writing to it and
  waiting for it are the function \<open>spawn\<close> on the state of the host; environment variables are
  arguments. The debug print of a command escapes its arguments as Rust does for printable ASCII.
\<close>

section \<open>Commands\<close>

record NetdevName =
  dev_name :: string
  dev_subnet :: "nat list"
  dev_mask :: nat

record Command =
  program :: string
  cmd_args :: "string list"

definition show_ipv4 :: "nat list \<Rightarrow> string" where
  "show_ipv4 octets = join_with ''.'' (map to_string octets)"

definition show_cidr :: "nat list \<Rightarrow> nat \<Rightarrow> string" where
  "show_cidr octets bits = show_ipv4 octets @ ''/'' @ to_string bits"

definition gen_sudo_command :: "string list \<Rightarrow> Command" where
  "gen_sudo_command args = \<lparr>program = ''sudo'', cmd_args = ''-S'' # args\<rparr>"

text \<open>\<open>user\<close> is the variable \<open>USER\<close>, which is unwrapped.\<close>

definition gen_tap_setup :: "string option \<Rightarrow> NetdevName \<Rightarrow> ('e, Command list) res" where
  "gen_tap_setup user dev =
    (let subnet_mask_str = show_cidr (dev_subnet dev) (dev_mask dev);
         ipv4_mask_str = show_cidr ((dev_subnet dev)[3 := 100]) (dev_mask dev);
         name = dev_name dev
     in map_ok (\<lambda>user_name.
       [gen_sudo_command [''ip'', ''tuntap'', ''add'', ''name'', name, ''mode'', ''tap'', ''user'', user_name],
        gen_sudo_command [''ip'', ''link'', ''set'', name, ''up''],
        gen_sudo_command [''ip'', ''addr'', ''add'', ipv4_mask_str, ''dev'', name],
        gen_sudo_command [''iptables'', ''-t'', ''nat'', ''-A'', ''POSTROUTING'', ''-s'', subnet_mask_str, ''-j'', ''MASQUERADE''],
        gen_sudo_command [''iptables'', ''-A'', ''FORWARD'', ''-i'', name, ''-s'', subnet_mask_str, ''-j'', ''ACCEPT''],
        gen_sudo_command [''iptables'', ''-A'', ''FORWARD'', ''-o'', name, ''-d'', subnet_mask_str, ''-j'', ''ACCEPT'']])
       (unwrap_opt user))"

definition gen_tap_cleanup :: "NetdevName \<Rightarrow> Command list" where
  "gen_tap_cleanup dev =
    [gen_sudo_command [''ip'', ''link'', ''set'', dev_name dev, ''down''],
     gen_sudo_command [''ip'', ''tuntap'', ''del'', ''dev'', dev_name dev, ''mode'', ''tap'']]"

section \<open>Running them\<close>

text \<open>How a child process ends: with a status and what it wrote to its error and its normal output
  (\<open>None\<close> when that is no UTF-8).\<close>

datatype Child =
    SpawnFailed
  | StdinBroken
  | WaitFailed
  | Exited bool "string option" "string option"

type_synonym 'w spawn = "Command \<Rightarrow> string \<Rightarrow> 'w \<Rightarrow> Child \<times> 'w"

definition debug_char :: "char \<Rightarrow> string" where
  "debug_char c =
    (if c = CHR 0x5C \<or> c = CHR 0x22 then [CHR 0x5C, c]
     else if c = CHR 0x0A then [CHR 0x5C, CHR ''n'']
     else if c = CHR 0x0D then [CHR 0x5C, CHR ''r'']
     else if c = CHR 0x09 then [CHR 0x5C, CHR ''t'']
     else [c])"

definition debug_str :: "string \<Rightarrow> string" where
  "debug_str s = [CHR 0x22] @ concat (map debug_char s) @ [CHR 0x22]"

definition debug_command :: "Command \<Rightarrow> string" where
  "debug_command c = join_with '' '' (map debug_str (program c # cmd_args c))"

definition exec_sudo_command :: "'w spawn \<Rightarrow> string \<Rightarrow> Command \<Rightarrow> ('w, string, unit) act" where
  "exec_sudo_command spawn passwd comd = (\<lambda>w.
    case spawn comd passwd w of
      (Exited True err out, w') \<Rightarrow> (Ok (), w')
    | (Exited False (Some err) (Some out), w') \<Rightarrow>
        (Err (''exec command failed, command: '' @ debug_command comd @ '', stderr: '' @ err @ '', stdout: '' @ out), w')
    | (_, w') \<Rightarrow> (Panic, w'))"

text \<open>\<open>passwd_var\<close> is the variable \<open>SUDO_PASSWD\<close>; a line end is added when it has none.\<close>

definition with_newline :: "string \<Rightarrow> string" where
  "with_newline passwd = (if passwd \<noteq> [] \<and> last passwd = CHR 0x0A then passwd else passwd @ [CHR 0x0A])"

definition exec_sudo_commands :: "'w spawn \<Rightarrow> string option \<Rightarrow> Command list \<Rightarrow> ('w, string, unit) act" where
  "exec_sudo_commands spawn passwd_var commands =
    (case passwd_var of
       None \<Rightarrow> act_panic
     | Some passwd \<Rightarrow> act_each (exec_sudo_command spawn (with_newline passwd)) commands)"

definition exec_tap_setup ::
  "'w spawn \<Rightarrow> string option \<Rightarrow> string option \<Rightarrow> NetdevName \<Rightarrow> ('w, string, unit) act" where
  "exec_tap_setup spawn user passwd_var dev =
    act_bind (act_lift (gen_tap_setup user dev)) (exec_sudo_commands spawn passwd_var)"

definition exec_tap_cleanup :: "'w spawn \<Rightarrow> string option \<Rightarrow> NetdevName \<Rightarrow> ('w, string, unit) act" where
  "exec_tap_cleanup spawn passwd_var dev = exec_sudo_commands spawn passwd_var (gen_tap_cleanup dev)"

section \<open>What is left on the host\<close>

text \<open>\<open>rules\<close> are the firewall rules of the host. A successful \<open>iptables -A\<close> appends one, and
  a successful \<open>ip\<close> leaves them alone.\<close>

definition is_append :: "string list \<Rightarrow> bool" where
  "is_append args = (hd args = ''iptables'' \<and> ''-A'' \<in> set args)"

definition firewall_host :: "'w spawn \<Rightarrow> ('w \<Rightarrow> string list list) \<Rightarrow> bool" where
  "firewall_host spawn rules =
    (\<forall>args passwd w err out w'. spawn (gen_sudo_command args) passwd w = (Exited True err out, w') \<longrightarrow>
       (is_append args \<longrightarrow> rules w' = rules w @ [tl args]) \<and> (hd args = ''ip'' \<longrightarrow> rules w' = rules w))"

lemma exec_sudo_command_Ok:
  "exec_sudo_command spawn passwd comd w = (Ok (), w') \<Longrightarrow> \<exists>err out. spawn comd passwd w = (Exited True err out, w')"
  by (auto simp: exec_sudo_command_def split: prod.splits Child.splits bool.splits option.splits)

lemma exec_rules:
  assumes "firewall_host spawn rules" "\<forall>args \<in> set argss. is_append args \<or> hd args = ''ip''"
    and "act_each (exec_sudo_command spawn passwd) (map gen_sudo_command argss) w = (Ok (), w')"
  shows "rules w' = rules w @ map tl (filter is_append argss)"
  using assms(2, 3)
proof (induction argss arbitrary: w)
  case (Cons args argss)
  then obtain w1 where run: "exec_sudo_command spawn passwd (gen_sudo_command args) w = (Ok (), w1)"
    "act_each (exec_sudo_command spawn passwd) (map gen_sudo_command argss) w1 = (Ok (), w')"
    by (auto simp: act_simps)
  moreover have "rules w1 = rules w @ (if is_append args then [tl args] else [])"
    using exec_sudo_command_Ok [OF run(1)] assms(1) Cons.prems(1) unfolding firewall_host_def
    by (auto simp: is_append_def)
  ultimately show ?case using Cons.IH [of w1] Cons.prems(1) by simp
qed (simp add: act_simps)

text \<open>C40: Removing a network device does not undo setting it up: after both have succeeded, the firewall
  of the host has the three rules of the device in addition to those it had before, so that they pile
  up with every isolation that uses the network.\<close>

theorem tap_rules_pile_up:
  assumes "firewall_host spawn rules"
    and "exec_tap_setup spawn user passwd dev w = (Ok (), w1)"
    and "exec_tap_cleanup spawn passwd dev w1 = (Ok (), w2)"
  shows "\<exists>new. rules w2 = rules w @ new \<and> length new = 3 \<and>
    (\<forall>rule \<in> set new. show_cidr (dev_subnet dev) (dev_mask dev) \<in> set rule)"
proof -
  obtain pw user_name where vars: "passwd = Some pw" "user = Some user_name"
    using assms(2) by (cases passwd; cases user)
      (auto simp: exec_tap_setup_def exec_sudo_commands_def gen_tap_setup_def act_simps Let_def)
  obtain args where cmds: "gen_tap_setup user dev = (Ok (map gen_sudo_command args) :: (string, _) res)"
    "\<forall>a \<in> set args. is_append a \<or> hd a = ''ip''" "length (filter is_append args) = 3"
    "\<forall>a \<in> set (filter is_append args). show_cidr (dev_subnet dev) (dev_mask dev) \<in> set (tl a)"
    by (rule that [of "[[''ip'', ''tuntap'', ''add'', ''name'', dev_name dev, ''mode'', ''tap'', ''user'', user_name],
        [''ip'', ''link'', ''set'', dev_name dev, ''up''],
        [''ip'', ''addr'', ''add'', show_cidr ((dev_subnet dev)[3 := 100]) (dev_mask dev), ''dev'', dev_name dev],
        [''iptables'', ''-t'', ''nat'', ''-A'', ''POSTROUTING'', ''-s'', show_cidr (dev_subnet dev) (dev_mask dev), ''-j'', ''MASQUERADE''],
        [''iptables'', ''-A'', ''FORWARD'', ''-i'', dev_name dev, ''-s'', show_cidr (dev_subnet dev) (dev_mask dev), ''-j'', ''ACCEPT''],
        [''iptables'', ''-A'', ''FORWARD'', ''-o'', dev_name dev, ''-d'', show_cidr (dev_subnet dev) (dev_mask dev), ''-j'', ''ACCEPT'']]"])
      (simp_all add: gen_tap_setup_def vars is_append_def Let_def)
  have "rules w1 = rules w @ map tl (filter is_append args)"
    using exec_rules [OF assms(1) cmds(2)] assms(2) cmds(1) vars
    by (simp add: exec_tap_setup_def exec_sudo_commands_def act_bind_def act_lift_def)
  moreover have "rules w2 = rules w1"
    using exec_rules [OF assms(1), of "[[''ip'', ''link'', ''set'', dev_name dev, ''down''],
        [''ip'', ''tuntap'', ''del'', ''dev'', dev_name dev, ''mode'', ''tap'']]" "with_newline pw" w1 w2] assms(3) vars
    by (simp add: exec_tap_cleanup_def exec_sudo_commands_def gen_tap_cleanup_def is_append_def)
  ultimately show ?thesis using cmds(3, 4) by (intro exI [of _ "map tl (filter is_append args)"]) auto
qed

text \<open>A host that only keeps its rules.\<close>

definition rule_keeper :: "string list list spawn" where
  "rule_keeper comd passwd w =
    (Exited True (Some []) (Some []), case cmd_args comd of _ # args \<Rightarrow> (if is_append args then w @ [tl args] else w) | [] \<Rightarrow> w)"

theorem tap_rules_pile_up_witness:
  "\<exists>w1 w2. exec_tap_setup rule_keeper (Some ''root'') (Some ''pw'')
       \<lparr>dev_name = ''tap-1'', dev_subnet = [192, 168, 69, 0], dev_mask = 24\<rparr> [] = (Ok (), w1) \<and>
     exec_tap_cleanup rule_keeper (Some ''pw'') \<lparr>dev_name = ''tap-1'', dev_subnet = [192, 168, 69, 0], dev_mask = 24\<rparr> w1 =
       (Ok (), w2) \<and> length w2 = 3"
proof -
  let ?dev = "\<lparr>dev_name = ''tap-1'', dev_subnet = [192, 168, 69, 0], dev_mask = 24\<rparr> :: NetdevName"
  have host: "firewall_host rule_keeper id"
    by (auto simp: firewall_host_def rule_keeper_def gen_sudo_command_def is_append_def)
  obtain w1 where cmds: "exec_tap_setup rule_keeper (Some ''root'') (Some ''pw'') ?dev [] = (Ok (), w1)"
    by (simp add: exec_tap_setup_def exec_sudo_commands_def gen_tap_setup_def exec_sudo_command_def rule_keeper_def
        act_bind_def act_lift_def act_ret_def Let_def)
  moreover obtain w2 where cleanup: "exec_tap_cleanup rule_keeper (Some ''pw'') ?dev w1 = (Ok (), w2)"
    by (simp add: exec_tap_cleanup_def exec_sudo_commands_def gen_tap_cleanup_def exec_sudo_command_def rule_keeper_def
        act_bind_def act_ret_def)
  ultimately show ?thesis using tap_rules_pile_up [OF host cmds cleanup] by auto
qed

end
