(* ===== verification/Socket.thy ===== *)
theory Socket
  imports Loops Tap Fdtab
begin

text \<open>
  The socket service (\<open>common_service/socket/src/lib.rs\<close>, \<open>apis.rs\<close>, \<open>drop_tap.rs\<close>). The \<open>smoltcp\<close> crate is a
  parameter: \<open>'w\<close> is the interface with its set of sockets, the tap device and the clock. The locks on the
  interface and on the sockets are poisoned by a panic of a call that holds them; the lazily created
  statics keep whether their creation was tried. \<open>DEVICE\<close> exists once per thread, so calls carry the
  number \<open>t\<close> of the thread that makes them. Calls that wait may not end, so their value is an option.
\<close>

datatype TcpState =
    Closed | Listen | SynSent | SynReceived | Established | FinWait1 | FinWait2 | CloseWait | Closing |
    LastAck | TimeWait

datatype QueryError = QueryPending | QueryFailed string

type_synonym u16 = "16 word"

record 'w Smol =
  s_tuntap :: "string \<Rightarrow> 'w \<Rightarrow> bool \<times> 'w"
  s_interface :: "nat list \<Rightarrow> nat \<Rightarrow> nat list \<Rightarrow> 'w \<Rightarrow> bool \<times> 'w"
  s_spawn :: "'w spawn"
  s_user :: "string option"
  s_passwd :: "string option"
  s_now :: "'w \<Rightarrow> nat \<times> 'w"
  s_poll :: "nat \<Rightarrow> 'w \<Rightarrow> 'w"
  s_phy_wait :: "nat \<Rightarrow> ('w, string, unit) act"
  s_random :: "'w \<Rightarrow> u16 \<times> 'w"
  s_add_tcp :: "nat \<Rightarrow> nat \<Rightarrow> 'w \<Rightarrow> u64 \<times> 'w"
  s_is_tcp :: "u64 \<Rightarrow> 'w \<Rightarrow> bool"
  s_is_active :: "u64 \<Rightarrow> 'w \<Rightarrow> bool"
  s_is_open :: "u64 \<Rightarrow> 'w \<Rightarrow> bool"
  s_may_send :: "u64 \<Rightarrow> 'w \<Rightarrow> bool"
  s_may_recv :: "u64 \<Rightarrow> 'w \<Rightarrow> bool"
  s_can_recv :: "u64 \<Rightarrow> 'w \<Rightarrow> bool"
  s_state :: "u64 \<Rightarrow> 'w \<Rightarrow> TcpState"
  s_state_text :: "TcpState \<Rightarrow> string"
  s_send_queue :: "u64 \<Rightarrow> 'w \<Rightarrow> nat"
  s_local_port :: "u64 \<Rightarrow> 'w \<Rightarrow> nat option"
  s_connect :: "u64 \<Rightarrow> SocketAddr \<Rightarrow> u16 \<Rightarrow> ('w, string, unit) act"
  s_listen :: "u64 \<Rightarrow> nat \<Rightarrow> ('w, string, unit) act"
  s_send_slice :: "u64 \<Rightarrow> byte list \<Rightarrow> ('w, string, nat) act"
  s_peek :: "u64 \<Rightarrow> ('w, string, byte list) act"
  s_dequeue :: "u64 \<Rightarrow> nat \<Rightarrow> 'w \<Rightarrow> 'w"
  s_close :: "u64 \<Rightarrow> 'w \<Rightarrow> 'w"
  s_add_dns :: "nat list \<Rightarrow> 'w \<Rightarrow> u64 \<times> 'w"
  s_start_query :: "u64 \<Rightarrow> string \<Rightarrow> ('w, string, nat) act"
  s_query_result :: "u64 \<Rightarrow> nat \<Rightarrow> ('w, QueryError, nat list list) act"
  s_remove :: "u64 \<Rightarrow> 'w \<Rightarrow> 'w"

record 'w SockState =
  net :: 'w
  IFACE :: lazy
  TAP_RAW_FD :: lazy
  iface_poisoned :: bool
  sockets_poisoned :: bool
  NETDEV_NAME :: "NetdevName option"
  netdev_poisoned :: bool
  logger_set :: bool
  DEVICE :: "nat list"

type_synonym ('w, 'a) sock_act = "('w SockState, SmoltcpError, 'a) act"
type_synonym ('w, 'a) sock_run = "('w SockState, SmoltcpError, 'a) run"

definition on_smol :: "('w, 'e, 'a) act \<Rightarrow> ('w SockState, 'e, 'a) act" where
  "on_smol m = (\<lambda>s. case m (net s) of (r, w) \<Rightarrow> (r, s\<lparr>net := w\<rparr>))"

definition with_smol :: "('w \<Rightarrow> 'a \<times> 'w) \<Rightarrow> ('w SockState, 'e, 'a) act" where
  "with_smol f = (\<lambda>s. case f (net s) of (a, w) \<Rightarrow> (Ok a, s\<lparr>net := w\<rparr>))"

section \<open>The device of a thread\<close>

text \<open>First use of \<open>DEVICE\<close> in a thread: a second logger is refused, and that is unwrapped. The name of
  the device is locked until the end.\<close>

definition default_netdev :: "u64 \<Rightarrow> NetdevName" where
  "default_netdev isol = \<lparr>dev_name = ''tap-'' @ to_string (unat isol), dev_subnet = [192, 168, 69, 0], dev_mask = 24\<rparr>"

definition poison_netdev :: "'w SockState \<Rightarrow> 'w SockState" where
  "poison_netdev s = s\<lparr>netdev_poisoned := True\<rparr>"

definition device_init :: "'w Smol \<Rightarrow> u64 \<Rightarrow> nat \<Rightarrow> ('w, unit) sock_act" where
  "device_init sm isol t = (\<lambda>s.
    if logger_set s then (Panic, s)
    else let s1 = s\<lparr>logger_set := True\<rparr> in
      if netdev_poisoned s then (Panic, s1)
      else let dev = (case NETDEV_NAME s of Some d \<Rightarrow> d | None \<Rightarrow> default_netdev isol) in
        act_on_panic poison_netdev
          (act_bind (act_unwrap (on_smol (exec_tap_setup (s_spawn sm) (s_user sm) (s_passwd sm) dev))) (\<lambda>_.
           act_bind (with_smol (s_tuntap sm (dev_name dev))) (\<lambda>opened.
           if opened then act_modify (\<lambda>s. s\<lparr>DEVICE := t # DEVICE s\<rparr>) else act_panic)))
          (s1\<lparr>NETDEV_NAME := Some dev\<rparr>))"

definition device_with :: "'w Smol \<Rightarrow> u64 \<Rightarrow> nat \<Rightarrow> ('w, unit) sock_act" where
  "device_with sm isol t = (\<lambda>s. if t \<in> set (DEVICE s) then (Ok (), s) else device_init sm isol t s)"

text \<open>The statics \<open>IFACE\<close> and \<open>TAP_RAW_FD\<close>: a panic while they are created makes every later use panic.\<close>

definition force_iface :: "'w Smol \<Rightarrow> u64 \<Rightarrow> nat \<Rightarrow> ('w, unit) sock_act" where
  "force_iface sm isol t =
    force_static IFACE (\<lambda>x s. s\<lparr>IFACE := x\<rparr>)
      (act_bind (device_with sm isol t) (\<lambda>_.
       act_bind (with_smol (s_interface sm [192, 168, 69, 1] 24 [192, 168, 69, 100])) (\<lambda>added.
       if added then act_ret () else act_panic)))"

definition get_tap_raw_fd :: "'w Smol \<Rightarrow> u64 \<Rightarrow> nat \<Rightarrow> ('w, unit) sock_act" where
  "get_tap_raw_fd sm isol t = force_static TAP_RAW_FD (\<lambda>x s. s\<lparr>TAP_RAW_FD := x\<rparr>) (device_with sm isol t)"

section \<open>Handles, polling and locks\<close>

definition from_sockfd :: "Fd \<Rightarrow> u64" where
  "from_sockfd handle = ucast handle"

definition to_sockfd :: "u64 \<Rightarrow> Fd" where
  "to_sockfd handle = ucast handle"

definition iface_poll :: "'w Smol \<Rightarrow> u64 \<Rightarrow> nat \<Rightarrow> ('w, nat) sock_act" where
  "iface_poll sm isol t =
    act_bind (with_smol (s_now sm)) (\<lambda>timestamp.
    act_bind (device_with sm isol t) (\<lambda>_.
    act_bind (with_smol (\<lambda>w. ((), s_poll sm timestamp w))) (\<lambda>_. act_ret timestamp)))"

definition try_phy_wait :: "'w Smol \<Rightarrow> u64 \<Rightarrow> nat \<Rightarrow> nat \<Rightarrow> ('w, unit) sock_act" where
  "try_phy_wait sm isol t timestamp =
    act_bind (get_tap_raw_fd sm isol t) (\<lambda>_. act_map_err SockHostIOErr (on_smol (s_phy_wait sm timestamp)))"

definition lock_reason :: string where
  "lock_reason = ''poisoned lock: another task failed inside''"

definition acquire_iface :: "'w Smol \<Rightarrow> u64 \<Rightarrow> nat \<Rightarrow> ('w, unit) sock_act" where
  "acquire_iface sm isol t =
    act_bind (force_iface sm isol t) (\<lambda>_ s.
      if iface_poisoned s then (Err (SockAcquireLockErr ''IFACE'' lock_reason), s) else (Ok (), s))"

definition acquire_sockets :: "('w, unit) sock_act" where
  "acquire_sockets = (\<lambda>s.
    if sockets_poisoned s then (Err (SockAcquireLockErr ''SOCKETS'' lock_reason), s) else (Ok (), s))"

definition poison_iface :: "'w SockState \<Rightarrow> 'w SockState" where
  "poison_iface s = s\<lparr>iface_poisoned := True\<rparr>"

definition poison_sockets :: "'w SockState \<Rightarrow> 'w SockState" where
  "poison_sockets s = s\<lparr>sockets_poisoned := True\<rparr>"

text \<open>A part of a call that holds the guard of the interface, of the sockets, or of both.\<close>

definition holding_iface :: "'w Smol \<Rightarrow> u64 \<Rightarrow> nat \<Rightarrow> ('w, 'a) sock_run \<Rightarrow> ('w, 'a) sock_run" where
  "holding_iface sm isol t m = run_bind (acquire_iface sm isol t) (\<lambda>_. run_on_panic poison_iface m)"

definition holding_sockets :: "('w, 'a) sock_act \<Rightarrow> ('w, 'a) sock_act" where
  "holding_sockets m = act_bind acquire_sockets (\<lambda>_. act_on_panic poison_sockets m)"

definition holding_both :: "'w Smol \<Rightarrow> u64 \<Rightarrow> nat \<Rightarrow> ('w, 'a) sock_run \<Rightarrow> ('w, 'a) sock_run" where
  "holding_both sm isol t m =
    holding_iface sm isol t (run_bind acquire_sockets (\<lambda>_. run_on_panic poison_sockets m))"

text \<open>\<open>sockets.get_mut::<tcp::Socket>\<close> panics on a handle that is no TCP socket.\<close>

definition get_tcp :: "'w Smol \<Rightarrow> u64 \<Rightarrow> ('w, unit) sock_act" where
  "get_tcp sm h = (\<lambda>s. if s_is_tcp sm h (net s) then (Ok (), s) else (Panic, s))"

section \<open>Names\<close>

definition addrinfo_round :: "'w Smol \<Rightarrow> u64 \<Rightarrow> nat \<Rightarrow> u64 \<Rightarrow> nat \<Rightarrow> unit \<Rightarrow> ('w, unit + nat list) sock_act" where
  "addrinfo_round sm isol t dns_handle query _ =
    holding_sockets
      (act_bind (iface_poll sm isol t) (\<lambda>timestamp s.
        case on_smol (s_query_result sm dns_handle query) s of
          (Ok [], s') \<Rightarrow> (Err DNSQueryFailed, s')
        | (Ok (addr # _), s') \<Rightarrow> (Ok (Inr addr), s'\<lparr>net := s_remove sm dns_handle (net s')\<rparr>)
        | (Err QueryPending, s') \<Rightarrow> act_bind (try_phy_wait sm isol t timestamp) (\<lambda>_. act_ret (Inl ())) s'
        | (Err (QueryFailed e), s') \<Rightarrow> (Err (SmoltcpErr e), s')
        | (Panic, s') \<Rightarrow> (Panic, s')))"

definition start_dns :: "'w Smol \<Rightarrow> string \<Rightarrow> ('w, u64 \<times> nat) sock_act" where
  "start_dns sm name =
    holding_sockets
      (act_bind (with_smol (s_add_dns sm [114, 114, 114, 114])) (\<lambda>dns_handle.
       act_bind (act_map_err (\<lambda>_. DNSQueryFailed) (on_smol (s_start_query sm dns_handle name))) (\<lambda>query.
       act_ret (dns_handle, query))))"

definition addrinfo :: "'w Smol \<Rightarrow> u64 \<Rightarrow> nat \<Rightarrow> string \<Rightarrow> ('w, nat list) sock_run" where
  "addrinfo sm isol t name =
    holding_iface sm isol t
      (run_bind (start_dns sm name) (\<lambda>(dns_handle, query). act_loop (addrinfo_round sm isol t dns_handle query) ()))"

section \<open>Connections\<close>

definition local_port :: "u16 \<Rightarrow> u16" where
  "local_port r = 49152 + r mod 16384"

definition connect_socket :: "'w Smol \<Rightarrow> SocketAddr \<Rightarrow> ('w, Fd) sock_act" where
  "connect_socket sm sockaddr =
    act_bind (with_smol (s_add_tcp sm 1024 1024)) (\<lambda>tcp_handle.
    act_bind (get_tcp sm tcp_handle) (\<lambda>_ s.
    if s_is_active sm tcp_handle (net s)
    then (Err (BadTCPState ''is_active'' (s_state_text sm (s_state sm tcp_handle (net s)))), s)
    else act_bind (with_smol (s_random sm)) (\<lambda>r.
      act_bind (act_map_err SmoltcpErr (on_smol (s_connect sm tcp_handle sockaddr (local_port r)))) (\<lambda>_.
      act_ret (to_sockfd tcp_handle))) s))"

definition smol_connect :: "'w Smol \<Rightarrow> u64 \<Rightarrow> nat \<Rightarrow> SocketAddr \<Rightarrow> ('w, Fd) sock_run" where
  "smol_connect sm isol t sockaddr = holding_both sm isol t (run_act (connect_socket sm sockaddr))"

definition send_round :: "'w Smol \<Rightarrow> u64 \<Rightarrow> nat \<Rightarrow> Fd \<Rightarrow> byte list \<Rightarrow> nat \<Rightarrow> ('w, nat + unit) sock_act" where
  "send_round sm isol t handle data cursor =
    act_bind (iface_poll sm isol t) (\<lambda>timestamp.
    act_bind (get_tcp sm (from_sockfd handle)) (\<lambda>_.
    act_bind (\<lambda>s.
      if \<not> s_may_send sm (from_sockfd handle) (net s) then (Ok 0, s)
      else if length data < cursor then (Panic, s)
      else act_map_err SmoltcpErr (on_smol (s_send_slice sm (from_sockfd handle) (drop cursor data))) s) (\<lambda>sent.
    if cursor + sent = length data then act_ret (Inr ())
    else act_bind (try_phy_wait sm isol t timestamp) (\<lambda>_. act_ret (Inl (cursor + sent))))))"

definition smol_send :: "'w Smol \<Rightarrow> u64 \<Rightarrow> nat \<Rightarrow> Fd \<Rightarrow> byte list \<Rightarrow> ('w, unit) sock_run" where
  "smol_send sm isol t handle data = holding_both sm isol t (act_loop (send_round sm isol t handle data) 0)"

text \<open>The bytes put at the start of the buffer of \<open>n\<close> bytes are \<open>got\<close>.\<close>

definition recv_round :: "'w Smol \<Rightarrow> u64 \<Rightarrow> nat \<Rightarrow> Fd \<Rightarrow> nat \<Rightarrow> byte list \<Rightarrow> ('w, byte list + byte list) sock_act" where
  "recv_round sm isol t handle n got =
    act_bind (iface_poll sm isol t) (\<lambda>timestamp.
    act_bind (get_tcp sm (from_sockfd handle)) (\<lambda>_ s.
      let h = from_sockfd handle in
      if got \<noteq> [] \<or> \<not> s_may_recv sm h (net s) \<or> s_state sm h (net s) = CloseWait then (Ok (Inr got), s)
      else act_bind
        (if s_can_recv sm h (net s)
         then act_bind (act_map_err SmoltcpErr (on_smol (s_peek sm h))) (\<lambda>data.
           let sz = min (n - length got) (length data) in
           act_bind (with_smol (\<lambda>w. ((), s_dequeue sm h sz w))) (\<lambda>_. act_ret (got @ take sz data)))
         else act_ret got) (\<lambda>got'.
        act_bind (try_phy_wait sm isol t timestamp) (\<lambda>_. act_ret (Inl got'))) s))"

definition smol_recv :: "'w Smol \<Rightarrow> u64 \<Rightarrow> nat \<Rightarrow> Fd \<Rightarrow> nat \<Rightarrow> ('w, byte list) sock_run" where
  "smol_recv sm isol t handle n = holding_both sm isol t (act_loop (recv_round sm isol t handle n) [])"

definition close_round :: "'w Smol \<Rightarrow> u64 \<Rightarrow> nat \<Rightarrow> Fd \<Rightarrow> bool \<Rightarrow> ('w, bool + unit) sock_act" where
  "close_round sm isol t handle has_close =
    holding_sockets
      (act_bind (iface_poll sm isol t) (\<lambda>timestamp.
       act_bind (get_tcp sm (from_sockfd handle)) (\<lambda>_ s.
         let h = from_sockfd handle;
             closing = (\<not> has_close \<and> s_send_queue sm h (net s) = 0);
             s1 = (if closing then s\<lparr>net := s_close sm h (net s)\<rparr> else s)
         in if \<not> s_is_open sm h (net s1) then (Ok (Inr ()), s1)
            else act_bind (try_phy_wait sm isol t timestamp) (\<lambda>_. act_ret (Inl (has_close \<or> closing))) s1)))"

definition smol_close :: "'w Smol \<Rightarrow> u64 \<Rightarrow> nat \<Rightarrow> Fd \<Rightarrow> ('w, unit) sock_run" where
  "smol_close sm isol t handle = holding_iface sm isol t (act_loop (close_round sm isol t handle) False)"

definition bind_socket :: "'w Smol \<Rightarrow> u64 \<Rightarrow> nat \<Rightarrow> SocketAddr \<Rightarrow> ('w, Fd) sock_act" where
  "bind_socket sm isol t addr =
    act_bind (with_smol (s_add_tcp sm 64 128)) (\<lambda>tcp_handle.
    act_bind (iface_poll sm isol t) (\<lambda>_.
    act_bind (get_tcp sm tcp_handle) (\<lambda>_ s.
    if s_is_open sm tcp_handle (net s)
    then (Err (BadTCPState ''is_open'' (s_state_text sm (s_state sm tcp_handle (net s)))), s)
    else act_bind (act_map_err SmoltcpErr (on_smol (s_listen sm tcp_handle (snd addr)))) (\<lambda>_.
      act_ret (to_sockfd tcp_handle)) s)))"

definition smol_bind :: "'w Smol \<Rightarrow> u64 \<Rightarrow> nat \<Rightarrow> SocketAddr \<Rightarrow> ('w, Fd) sock_run" where
  "smol_bind sm isol t addr = holding_both sm isol t (run_act (bind_socket sm isol t addr))"

definition accept_round :: "'w Smol \<Rightarrow> u64 \<Rightarrow> nat \<Rightarrow> Fd \<Rightarrow> unit \<Rightarrow> ('w, unit + unit) sock_act" where
  "accept_round sm isol t handle _ =
    act_bind (iface_poll sm isol t) (\<lambda>timestamp.
    act_bind (get_tcp sm (from_sockfd handle)) (\<lambda>_ s.
      if s_state sm (from_sockfd handle) (net s) \<noteq> Listen then (Ok (Inr ()), s)
      else act_bind (try_phy_wait sm isol t timestamp) (\<lambda>_. act_ret (Inl ())) s))"

text \<open>The socket that was listening is the connection; the result is a new listening socket on the same
  port, created after the guards have been dropped.\<close>

definition smol_accept :: "'w Smol \<Rightarrow> u64 \<Rightarrow> nat \<Rightarrow> Fd \<Rightarrow> ('w, Fd) sock_run" where
  "smol_accept sm isol t handle = (\<lambda>s.
    case holding_both sm isol t
        (run_then (act_loop (accept_round sm isol t handle) ()) (\<lambda>_ s.
          (ok_or NoLocalEndpoint (s_local_port sm (from_sockfd handle) (net s)), s))) s of
      None \<Rightarrow> None
    | Some (Ok port, s') \<Rightarrow> smol_bind sm isol t ([0, 0, 0, 0], port) s'
    | Some (Err e, s') \<Rightarrow> Some (Err e, s')
    | Some (Panic, s') \<Rightarrow> Some (Panic, s'))"

section \<open>Unloading\<close>

text \<open>\<open>try_lock().unwrap()\<close> on the name of the device; the raw descriptor is closed before the device is
  removed. \<open>close_fd\<close> is that system call.\<close>

definition socket_drop :: "'w Smol \<Rightarrow> ('w \<Rightarrow> 'w) \<Rightarrow> u64 \<Rightarrow> nat \<Rightarrow> ('w, unit) sock_act" where
  "socket_drop sm close_fd isol t = (\<lambda>s.
    if netdev_poisoned s then (Panic, s)
    else case NETDEV_NAME s of
      None \<Rightarrow> (Ok (), s)
    | Some dev \<Rightarrow>
        act_on_panic poison_netdev
          (act_bind (get_tap_raw_fd sm isol t) (\<lambda>_.
           act_bind (with_smol (\<lambda>w. ((), close_fd w))) (\<lambda>_.
           act_unwrap (on_smol (exec_tap_cleanup (s_spawn sm) (s_passwd sm) dev))))) s)"

end
