(* ===== verification/Socket_Props.thy ===== *)
theory Socket_Props
  imports Socket
begin

text \<open>
  What the calls of the socket service do on a network that makes progress, and what happens when a
  second thread uses the service.
\<close>

section \<open>A thread that has its device\<close>

definition sock_ready :: "nat \<Rightarrow> 'w SockState \<Rightarrow> bool" where
  "sock_ready t s = (t \<in> set (DEVICE s) \<and> IFACE s = Ready \<and> TAP_RAW_FD s \<noteq> Broken \<and>
    \<not> iface_poisoned s \<and> \<not> sockets_poisoned s)"

lemma iface_poll_ready:
  "sock_ready t s \<Longrightarrow> iface_poll sm isol t s =
    (case s_now sm (net s) of (ts, w) \<Rightarrow> (Ok ts, s\<lparr>net := s_poll sm ts w\<rparr>))"
  by (simp add: sock_ready_def iface_poll_def device_with_def with_smol_def act_bind_def act_ret_def split: prod.split)

lemma try_phy_wait_ready:
  "sock_ready t s \<Longrightarrow> try_phy_wait sm isol t ts s =
    (case s_phy_wait sm ts (net s) of (r, w) \<Rightarrow> (map_err SockHostIOErr r, s\<lparr>TAP_RAW_FD := Ready, net := w\<rparr>))"
  by (cases s) (auto simp: sock_ready_def try_phy_wait_def get_tap_raw_fd_def device_with_def on_smol_def act_bind_def
      act_map_err_def act_modify_def act_on_panic_def force_static_def split: lazy.split prod.split res.split)

lemma holding_both_ready:
  "sock_ready t s \<Longrightarrow> holding_both sm isol t m s = run_on_panic poison_iface (run_on_panic poison_sockets m) s"
  by (simp add: sock_ready_def holding_both_def holding_iface_def run_bind_def run_on_panic_def acquire_iface_def
      force_iface_def acquire_sockets_def act_bind_def force_static_def)

lemma sock_ready_update [simp]:
  "sock_ready t (s\<lparr>net := w\<rparr>) = sock_ready t s"
  "sock_ready t s \<Longrightarrow> sock_ready t (s\<lparr>TAP_RAW_FD := Ready\<rparr>)"
  by (simp_all add: sock_ready_def)

lemmas round_simps = act_bind_def act_ret_def act_map_err_def on_smol_def with_smol_def get_tcp_def

section \<open>Sending\<close>

text \<open>A connection that takes what is sent: \<open>out\<close> is what it has taken, \<open>lag\<close> bounds the rounds until
  its buffer has room again.\<close>

definition takes_data ::
  "'w Smol \<Rightarrow> u64 \<Rightarrow> ('w \<Rightarrow> byte list) \<Rightarrow> ('w \<Rightarrow> nat) \<Rightarrow> ('w \<Rightarrow> bool) \<Rightarrow> bool" where
  "takes_data sm h out lag okay =
    (\<forall>w ts bs. okay w \<longrightarrow>
      (let w' = snd (s_now sm w) in okay w' \<and> out w' = out w \<and> lag w' \<le> lag w) \<and>
      (let w' = s_poll sm ts w in okay w' \<and> out w' = out w \<and> lag w' \<le> lag w) \<and>
      s_is_tcp sm h w \<and> s_may_send sm h w \<and>
      (\<exists>n w'. s_send_slice sm h bs w = (Ok n, w') \<and> okay w' \<and> n \<le> length bs \<and> out w' = out w @ take n bs \<and>
        (bs \<noteq> [] \<longrightarrow> 0 < n \<or> 0 < lag w \<and> lag w' = lag w)) \<and>
      (\<exists>w'. s_phy_wait sm ts w = (Ok (), w') \<and> okay w' \<and> out w' = out w \<and> (0 < lag w \<longrightarrow> lag w' < lag w)))"

lemma send_round_progress:
  assumes "takes_data sm (from_sockfd h) out lag okay" "sock_ready t s" "okay (net s)" "cursor \<le> length data"
  shows "\<exists>sent s'. sock_ready t s' \<and> okay (net s') \<and> cursor + sent \<le> length data \<and>
    out (net s') = out (net s) @ take sent (drop cursor data) \<and>
    (send_round sm isol t h data cursor s = (Ok (Inr ()), s') \<and> cursor + sent = length data \<or>
     send_round sm isol t h data cursor s = (Ok (Inl (cursor + sent)), s') \<and> cursor + sent < length data \<and>
       (0 < sent \<or> sent = 0 \<and> lag (net s') < lag (net s)))"
proof -
  let ?h = "from_sockfd h"
  obtain ts w0 where now: "s_now sm (net s) = (ts, w0)" by fastforce
  let ?w1 = "s_poll sm ts w0"
  have w0: "okay w0" "out w0 = out (net s)" "lag w0 \<le> lag (net s)"
    using assms(1, 3) now unfolding takes_data_def Let_def by (metis snd_conv)+
  have w1: "okay ?w1" "out ?w1 = out (net s)" "lag ?w1 \<le> lag (net s)"
    using assms(1) w0 unfolding takes_data_def Let_def by (metis le_trans)+
  have sock: "s_is_tcp sm ?h ?w1" "s_may_send sm ?h ?w1" using assms(1) w1(1) unfolding takes_data_def by blast+
  obtain n w2 where sent: "s_send_slice sm ?h (drop cursor data) ?w1 = (Ok n, w2)" "okay w2" "n \<le> length (drop cursor data)"
    "out w2 = out ?w1 @ take n (drop cursor data)"
    "drop cursor data \<noteq> [] \<longrightarrow> 0 < n \<or> 0 < lag ?w1 \<and> lag w2 = lag ?w1"
    using assms(1) w1(1) unfolding takes_data_def by blast
  obtain w3 where wait: "s_phy_wait sm ts w2 = (Ok (), w3)" "okay w3" "out w3 = out w2" "0 < lag w2 \<longrightarrow> lag w3 < lag w2"
    using assms(1) sent(2) unfolding takes_data_def by blast
  have round: "send_round sm isol t h data cursor s =
      (if cursor + n = length data then (Ok (Inr ()), s\<lparr>net := w2\<rparr>)
       else (Ok (Inl (cursor + n)), s\<lparr>TAP_RAW_FD := Ready, net := w3\<rparr>))"
    using assms(2, 4) sock sent(1) wait(1)
    by (simp add: send_round_def round_simps iface_poll_ready try_phy_wait_ready now)
  show ?thesis
  proof (cases "cursor + n = length data")
    case True
    then show ?thesis using round assms(2) sent w1 by (intro exI [of _ n] exI [of _ "s\<lparr>net := w2\<rparr>"]) simp
  next
    case False
    with sent(3) assms(4) have "cursor + n < length data" by simp
    moreover from this sent(5) wait(4) w1(3) have "0 < n \<or> n = 0 \<and> lag w3 < lag (net s)" by auto
    ultimately show ?thesis using round assms(2) sent wait w1
      by (intro exI [of _ n] exI [of _ "s\<lparr>TAP_RAW_FD := Ready, net := w3\<rparr>"]) simp
  qed
qed

text \<open>C19: Sending ends and hands over the whole buffer in order, however little of it the connection takes
  at a time, as long as its send buffer becomes free again after finitely many rounds.\<close>

theorem smol_send_sends_all:
  assumes "takes_data sm (from_sockfd h) out lag okay" "sock_ready t s" "okay (net s)"
  shows "\<exists>s'. smol_send sm isol t h data s = Some (Ok (), s') \<and> out (net s') = out (net s) @ data"
proof -
  let ?P = "\<lambda>cursor s'. sock_ready t s' \<and> okay (net s') \<and> cursor \<le> length data \<and> out (net s') = out (net s) @ take cursor data"
  let ?r = "inv_image (less_than <*lex*> less_than) (\<lambda>(cursor, s'). (length data - cursor, lag (net s')))"
  have "\<exists>a s'. act_loop (send_round sm isol t h data) 0 s = Some (Ok a, s') \<and> out (net s') = out (net s) @ data"
  proof (rule act_loop_ends [where r = ?r and P = ?P])
    show "wf ?r" by auto
    show "?P 0 s" using assms by simp
    fix cursor s'
    assume P: "?P cursor s'"
    then have *: "sock_ready t s'" "okay (net s')" "cursor \<le> length data" by auto
    from send_round_progress [OF assms(1) *, of isol] obtain sent s'' where
      step: "sock_ready t s''" "okay (net s'')" "cursor + sent \<le> length data"
      "out (net s'') = out (net s') @ take sent (drop cursor data)"
      "send_round sm isol t h data cursor s' = (Ok (Inr ()), s'') \<and> cursor + sent = length data \<or>
       send_round sm isol t h data cursor s' = (Ok (Inl (cursor + sent)), s'') \<and> cursor + sent < length data \<and>
         (0 < sent \<or> sent = 0 \<and> lag (net s'') < lag (net s'))" by blast
    have out: "out (net s'') = out (net s) @ take (cursor + sent) data" using step(4) P by (simp add: take_add)
    from step(5) show "(\<exists>c' s''. send_round sm isol t h data cursor s' = (Ok (Inl c'), s'') \<and> ?P c' s'' \<and>
        ((c', s''), cursor, s') \<in> ?r) \<or>
      (\<exists>a s''. send_round sm isol t h data cursor s' = (Ok (Inr a), s'') \<and> out (net s'') = out (net s) @ data)"
      using out step(1-3) by (elim disjE conjE) auto
  qed
  then show ?thesis using assms(2) by (auto simp: smol_send_def holding_both_ready run_on_panic_def)
qed

text \<open>A connection whose buffer holds two bytes and is free again a round later.\<close>

record pipe_net =
  taken :: "byte list"
  busy :: nat

definition pipe_smol :: "pipe_net Smol" where
  "pipe_smol =
    \<lparr>s_tuntap = (\<lambda>_ w. (True, w)), s_interface = (\<lambda>_ _ _ w. (True, w)),
     s_spawn = (\<lambda>_ _ w. (Exited True None None, w)), s_user = Some ''root'', s_passwd = Some ''pw'',
     s_now = (\<lambda>w. (0, w)), s_poll = (\<lambda>_ w. w), s_phy_wait = (\<lambda>_ w. (Ok (), w\<lparr>busy := busy w - 1\<rparr>)),
     s_random = (\<lambda>w. (0, w)), s_add_tcp = (\<lambda>_ _ w. (0, w)), s_is_tcp = (\<lambda>h w. h = 0),
     s_is_active = (\<lambda>_ _. False), s_is_open = (\<lambda>_ _. False), s_may_send = (\<lambda>_ _. True),
     s_may_recv = (\<lambda>_ _. True), s_can_recv = (\<lambda>_ w. busy w = 0), s_state = (\<lambda>_ _. Established),
     s_state_text = (\<lambda>_. []), s_send_queue = (\<lambda>_ _. 0), s_local_port = (\<lambda>_ _. Some 80),
     s_connect = (\<lambda>_ _ _. act_ret ()), s_listen = (\<lambda>_ _. act_ret ()),
     s_send_slice = (\<lambda>_ bs w. if busy w = 0 then (Ok (min 2 (length bs)), w\<lparr>taken := taken w @ take 2 bs, busy := 1\<rparr>) else (Ok 0, w)),
     s_peek = (\<lambda>_ w. (Ok (taken w), w)), s_dequeue = (\<lambda>_ n w. w\<lparr>taken := drop n (taken w)\<rparr>), s_close = (\<lambda>_ w. w),
     s_add_dns = (\<lambda>_ w. (0, w)), s_start_query = (\<lambda>_ _. act_ret 0),
     s_query_result = (\<lambda>_ _. act_err QueryPending), s_remove = (\<lambda>_ w. w)\<rparr>"

definition pipe_state :: "byte list \<Rightarrow> pipe_net SockState" where
  "pipe_state bs = \<lparr>net = \<lparr>taken = bs, busy = 1\<rparr>, IFACE = Ready, TAP_RAW_FD = Uninit, iface_poisoned = False,
     sockets_poisoned = False, NETDEV_NAME = Some (default_netdev 1), netdev_poisoned = False, logger_set = True, DEVICE = [0]\<rparr>"

theorem smol_send_sends_all_witness:
  "\<exists>s'. smol_send pipe_smol 1 0 0 [1, 2, 3, 4, 5] (pipe_state []) = Some (Ok (), s') \<and> taken (net s') = [1, 2, 3, 4, 5]"
proof -
  have "takes_data pipe_smol (from_sockfd 0) taken busy (\<lambda>_. True)"
    by (auto simp: takes_data_def pipe_smol_def from_sockfd_def min_def Let_def)
  moreover have "sock_ready 0 (pipe_state [])" by (simp add: sock_ready_def pipe_state_def)
  ultimately show ?thesis
    using smol_send_sends_all [of pipe_smol 0 taken busy "\<lambda>_. True" 0 "pipe_state []" 1 "[1, 2, 3, 4, 5]"]
    by (auto simp: pipe_state_def)
qed

section \<open>Receiving\<close>

text \<open>A connection that stays open: \<open>inc\<close> is what has arrived or will arrive and was not received yet,
  \<open>lag\<close> bounds the rounds until something has arrived.\<close>

definition brings_data ::
  "'w Smol \<Rightarrow> u64 \<Rightarrow> ('w \<Rightarrow> byte list) \<Rightarrow> ('w \<Rightarrow> nat) \<Rightarrow> ('w \<Rightarrow> bool) \<Rightarrow> ('w \<Rightarrow> bool) \<Rightarrow> bool" where
  "brings_data sm h inc lag live okay =
    ((\<forall>w ts. live w \<longrightarrow> s_is_tcp sm h w \<and>
      live (snd (s_now sm w)) \<and> inc (snd (s_now sm w)) = inc w \<and> live (s_poll sm ts w) \<and> inc (s_poll sm ts w) = inc w \<and>
      (\<exists>w'. s_phy_wait sm ts w = (Ok (), w') \<and> live w' \<and> inc w' = inc w)) \<and>
     (\<forall>w ts. okay w \<longrightarrow> live w \<and> okay (snd (s_now sm w)) \<and> lag (snd (s_now sm w)) \<le> lag w \<and>
      okay (s_poll sm ts w) \<and> lag (s_poll sm ts w) \<le> lag w \<and> s_may_recv sm h w \<and> s_state sm h w \<noteq> CloseWait \<and>
      (\<exists>w'. s_phy_wait sm ts w = (Ok (), w') \<and> okay w' \<and> (0 < lag w \<longrightarrow> lag w' < lag w)) \<and>
      (if s_can_recv sm h w
       then \<exists>bs rest w'. s_peek sm h w = (Ok bs, w') \<and> bs \<noteq> [] \<and> inc w = bs @ rest \<and> okay (s_dequeue sm h 0 w') \<and>
         (\<forall>n \<le> length bs. live (s_dequeue sm h n w') \<and> inc (s_dequeue sm h n w') = drop n (inc w))
       else 0 < lag w)))"

lemma brings_dataD:
  assumes "brings_data sm h inc lag live okay"
  shows "live w \<Longrightarrow> s_is_tcp sm h w"
    and "live w \<Longrightarrow> s_now sm w = (ts, w') \<Longrightarrow> live w' \<and> inc w' = inc w"
    and "live w \<Longrightarrow> live (s_poll sm ts w) \<and> inc (s_poll sm ts w) = inc w"
    and "live w \<Longrightarrow> \<exists>w'. s_phy_wait sm ts w = (Ok (), w') \<and> live w' \<and> inc w' = inc w"
    and "okay w \<Longrightarrow> live w"
    and "okay w \<Longrightarrow> s_now sm w = (ts, w') \<Longrightarrow> okay w' \<and> lag w' \<le> lag w"
    and "okay w \<Longrightarrow> okay (s_poll sm ts w) \<and> lag (s_poll sm ts w) \<le> lag w"
    and "okay w \<Longrightarrow> s_may_recv sm h w \<and> s_state sm h w \<noteq> CloseWait"
    and "okay w \<Longrightarrow> \<exists>w'. s_phy_wait sm ts w = (Ok (), w') \<and> okay w' \<and> (0 < lag w \<longrightarrow> lag w' < lag w)"
    and "okay w \<Longrightarrow> \<not> s_can_recv sm h w \<Longrightarrow> 0 < lag w"
    and "okay w \<Longrightarrow> s_can_recv sm h w \<Longrightarrow> \<exists>bs rest w'. s_peek sm h w = (Ok bs, w') \<and> bs \<noteq> [] \<and> inc w = bs @ rest \<and>
      okay (s_dequeue sm h 0 w') \<and> (\<forall>n \<le> length bs. live (s_dequeue sm h n w') \<and> inc (s_dequeue sm h n w') = drop n (inc w))"
  using assms unfolding brings_data_def by (metis snd_conv)+

text \<open>One round: a result once something was received, else another round with what came.\<close>

lemma recv_round_result:
  assumes bd: "brings_data sm (from_sockfd h) inc lag live okay" and "sock_ready t s" "live (net s)"
  shows "got \<noteq> [] \<Longrightarrow> \<exists>s'. recv_round sm isol t h n got s = (Ok (Inr got), s') \<and> inc (net s') = inc (net s)"
    and "got = [] \<Longrightarrow> okay (net s) \<Longrightarrow> \<exists>bs s'. recv_round sm isol t h n got s = (Ok (Inl bs), s') \<and> length bs \<le> n \<and>
      sock_ready t s' \<and> live (net s') \<and> inc (net s) = bs @ inc (net s') \<and>
      (bs = [] \<longrightarrow> okay (net s')) \<and> (bs = [] \<and> 0 < n \<longrightarrow> lag (net s') < lag (net s))"
proof -
  let ?h = "from_sockfd h"
  obtain ts w0 where now: "s_now sm (net s) = (ts, w0)" by fastforce
  let ?w1 = "s_poll sm ts w0"
  have w1: "live ?w1" "inc ?w1 = inc (net s)" "s_is_tcp sm ?h ?w1"
    using brings_dataD(1, 3) [OF bd] brings_dataD(2) [OF bd assms(3) now] by auto
  note base = recv_round_def round_simps iface_poll_ready [OF assms(2)] try_phy_wait_ready now w1(3) Let_def
  show "got \<noteq> [] \<Longrightarrow> \<exists>s'. recv_round sm isol t h n got s = (Ok (Inr got), s') \<and> inc (net s') = inc (net s)"
    using assms(2) w1 by (intro exI [of _ "s\<lparr>net := ?w1\<rparr>"]) (simp add: base)
  assume got: "got = []" and "okay (net s)"
  then have ok1: "okay ?w1" "lag ?w1 \<le> lag (net s)" "s_may_recv sm ?h ?w1" "s_state sm ?h ?w1 \<noteq> CloseWait"
    using brings_dataD(7, 8) [OF bd] brings_dataD(6) [OF bd _ now] by (auto intro: le_trans)
  show "\<exists>bs s'. recv_round sm isol t h n got s = (Ok (Inl bs), s') \<and> length bs \<le> n \<and>
      sock_ready t s' \<and> live (net s') \<and> inc (net s) = bs @ inc (net s') \<and>
      (bs = [] \<longrightarrow> okay (net s')) \<and> (bs = [] \<and> 0 < n \<longrightarrow> lag (net s') < lag (net s))"
  proof (cases "s_can_recv sm ?h ?w1")
    case True
    from brings_dataD(11) [OF bd ok1(1) True] obtain bs rest w2 where
      peek: "s_peek sm ?h ?w1 = (Ok bs, w2)" "bs \<noteq> []" "inc ?w1 = bs @ rest" "okay (s_dequeue sm ?h 0 w2)"
      "\<forall>n \<le> length bs. live (s_dequeue sm ?h n w2) \<and> inc (s_dequeue sm ?h n w2) = drop n (inc ?w1)" by blast
    let ?n = "min n (length bs)"
    have w3: "live (s_dequeue sm ?h ?n w2)" "inc (s_dequeue sm ?h ?n w2) = drop ?n (inc ?w1)" using peek(5) by auto
    from brings_dataD(4) [OF bd w3(1)] obtain w4 where wait: "s_phy_wait sm ts (s_dequeue sm ?h ?n w2) = (Ok (), w4)"
      "live w4" "inc w4 = inc (s_dequeue sm ?h ?n w2)" by blast
    have nonzero: "?n = 0 \<longleftrightarrow> n = 0" using peek(2) by (auto simp: min_def)
    have okay: "okay w4" if "n = 0" using brings_dataD(9) [OF bd peek(4), of ts] wait(1) that by auto
    have "inc (net s) = bs @ rest" "inc w4 = drop ?n (bs @ rest)" using w1(2) peek(3) wait(3) w3(2) by simp_all
    then have "inc (net s) = take ?n bs @ inc w4" by (simp add: min_def)
    then show ?thesis using assms(2) got True ok1 peek(1, 2) wait nonzero okay
      by (intro exI [of _ "take ?n bs"] exI [of _ "s\<lparr>TAP_RAW_FD := Ready, net := w4\<rparr>"]) (simp add: base)
  next
    case False
    from brings_dataD(9) [OF bd ok1(1), of ts] brings_dataD(10) [OF bd ok1(1) False] obtain w4 where
      wait: "s_phy_wait sm ts ?w1 = (Ok (), w4)" "okay w4" "lag w4 < lag ?w1" by blast
    moreover have "live w4" "inc w4 = inc ?w1"
      using brings_dataD(4) [OF bd w1(1), of ts] wait(1) by auto
    ultimately show ?thesis using assms(2) got False ok1 w1
      by (intro exI [of _ "[]"] exI [of _ "s\<lparr>TAP_RAW_FD := Ready, net := w4\<rparr>"]) (simp add: base)
  qed
qed

text \<open>C32: Receiving on an open connection ends and gives at least one and at most as many of the next bytes
  as the buffer takes, in order, once something arrives. With an empty buffer the call never returns
  while the connection stays open, even when data is waiting.\<close>

theorem smol_recv_result:
  assumes bd: "brings_data sm (from_sockfd h) inc lag live okay" and "sock_ready t s" "okay (net s)"
  shows "if n = 0 then smol_recv sm isol t h n s = None
    else \<exists>bs s'. smol_recv sm isol t h n s = Some (Ok bs, s') \<and> bs \<noteq> [] \<and> length bs \<le> n \<and>
      inc (net s) = bs @ inc (net s')"
proof (cases "n = 0")
  case True
  have "act_loop (recv_round sm isol t h n) [] s = None"
  proof (rule act_loop_diverges [where P = "\<lambda>got s. got = [] \<and> sock_ready t s \<and> okay (net s)"])
    show "[] = [] \<and> sock_ready t s \<and> okay (net s)" using assms by simp
    show "\<exists>got' s'. recv_round sm isol t h n got s = (Ok (Inl got'), s') \<and> got' = [] \<and> sock_ready t s' \<and> okay (net s')"
      if "got = [] \<and> sock_ready t s \<and> okay (net s)" for got s
      using recv_round_result(2) [OF bd, of t s got isol n] brings_dataD(5) [OF bd] that True by auto
  qed
  then show ?thesis using True assms(2) by (simp add: smol_recv_def holding_both_ready run_on_panic_def)
next
  case False
  let ?P = "\<lambda>got s'. sock_ready t s' \<and> live (net s') \<and> (got = [] \<longrightarrow> okay (net s')) \<and> length got \<le> n \<and>
    inc (net s) = got @ inc (net s')"
  let ?r = "inv_image (less_than <*lex*> less_than) (\<lambda>(got, s'). (if got = [] then 1 else 0 :: nat, lag (net s')))"
  have "\<exists>bs s'. act_loop (recv_round sm isol t h n) [] s = Some (Ok bs, s') \<and>
      bs \<noteq> [] \<and> length bs \<le> n \<and> inc (net s) = bs @ inc (net s')"
  proof (rule act_loop_ends [where r = ?r and P = ?P])
    show "wf ?r" by auto
    show "?P [] s" using assms brings_dataD(5) [OF bd] by simp
    fix got s'
    assume P: "?P got s'"
    show "(\<exists>got' s''. recv_round sm isol t h n got s' = (Ok (Inl got'), s'') \<and> ?P got' s'' \<and>
        ((got', s''), got, s') \<in> ?r) \<or>
      (\<exists>bs s''. recv_round sm isol t h n got s' = (Ok (Inr bs), s'') \<and> bs \<noteq> [] \<and> length bs \<le> n \<and>
        inc (net s) = bs @ inc (net s''))"
    proof (cases "got = []")
      case True
      with recv_round_result(2) [OF bd, of t s' got isol n] P \<open>n \<noteq> 0\<close> show ?thesis by fastforce
    next
      case False
      with recv_round_result(1) [OF bd, of t s' got isol n] P show ?thesis by auto
    qed
  qed
  then show ?thesis using False assms(2) by (auto simp: smol_recv_def holding_both_ready run_on_panic_def)
qed

text \<open>Three bytes on the way: a buffer of two gets two of them, an empty one waits forever.\<close>

theorem smol_recv_result_witness:
  "smol_recv pipe_smol 1 0 0 0 (pipe_state [1, 2, 3]) = None \<and>
   (\<exists>bs s'. smol_recv pipe_smol 1 0 0 2 (pipe_state [1, 2, 3]) = Some (Ok bs, s') \<and> [1, 2, 3] = bs @ taken (net s'))"
proof -
  have "brings_data pipe_smol (from_sockfd 0) taken busy (\<lambda>_. True) (\<lambda>w. taken w \<noteq> [])"
    unfolding brings_data_def by (auto simp: pipe_smol_def from_sockfd_def)
  moreover have "sock_ready 0 (pipe_state [1, 2, 3])" by (simp add: sock_ready_def pipe_state_def)
  moreover have "taken (net (pipe_state [1, 2, 3])) = [1, 2, 3]" by (simp add: pipe_state_def)
  ultimately show ?thesis
    using smol_recv_result [of pipe_smol 0 taken busy "\<lambda>_. True" "\<lambda>w. taken w \<noteq> []" 0 "pipe_state [1, 2, 3]" 0 1]
      smol_recv_result [of pipe_smol 0 taken busy "\<lambda>_. True" "\<lambda>w. taken w \<noteq> []" 0 "pipe_state [1, 2, 3]" 2 1]
    by auto
qed

section \<open>More than one thread\<close>

definition socket_start :: "'w \<Rightarrow> 'w SockState" where
  "socket_start w = \<lparr>net = w, IFACE = Uninit, TAP_RAW_FD = Uninit, iface_poisoned = False, sockets_poisoned = False,
     NETDEV_NAME = None, netdev_poisoned = False, logger_set = False, DEVICE = []\<rparr>"

lemma smol_apply [act_simps]:
  "on_smol m s = (r, s') \<longleftrightarrow> (\<exists>w. m (net s) = (r, w) \<and> s' = s\<lparr>net := w\<rparr>)"
  "with_smol f s = (r', s') \<longleftrightarrow> (\<exists>a w. f (net s) = (a, w) \<and> r' = Ok a \<and> s' = s\<lparr>net := w\<rparr>)"
  by (auto simp: on_smol_def with_smol_def split: prod.splits)

lemma device_init_start:
  assumes "device_init sm isol t (socket_start w) = (Ok (), s)"
  shows "logger_set s \<and> DEVICE s = [t] \<and> IFACE s = Uninit \<and> TAP_RAW_FD s = Uninit \<and> \<not> iface_poisoned s \<and> \<not> sockets_poisoned s"
  using assms
  by (clarsimp simp: device_init_def Let_def act_simps socket_start_def split: if_splits)

lemma acquire_iface_start:
  assumes "acquire_iface sm isol t (socket_start w) = (Ok (), s)"
  shows "logger_set s \<and> DEVICE s = [t] \<and> sock_ready t s"
proof -
  have start: "IFACE (socket_start w) = Uninit" "DEVICE (socket_start w) = []" by (simp_all add: socket_start_def)
  have "force_iface sm isol t (socket_start w) = (Ok (), s)"
    using assms by (auto simp: acquire_iface_def act_simps split: if_splits)
  then obtain s1 w1 where "device_init sm isol t (socket_start w) = (Ok (), s1)" "s = s1\<lparr>net := w1, IFACE := Ready\<rparr>"
    by (auto simp: force_iface_def start device_with_def act_simps split: if_splits)
  with device_init_start [of sm isol t w s1] show ?thesis by (simp add: sock_ready_def)
qed

lemma bind_socket_frame:
  assumes "sock_ready t s" "bind_socket sm isol t addr s = (Ok fd, s')"
  shows "\<exists>w. s' = s\<lparr>net := w\<rparr>"
  using assms
  by (clarsimp simp: bind_socket_def act_simps iface_poll_ready get_tcp_def split: prod.splits if_splits) blast

lemma holding_both_Ok:
  assumes "holding_both sm isol t (run_act m) s = Some (Ok a, s')"
  shows "\<exists>s1. acquire_iface sm isol t s = (Ok (), s1) \<and> \<not> sockets_poisoned s1 \<and> m s1 = (Ok a, s')"
  using assms by (auto simp: holding_both_def holding_iface_def acquire_sockets_def run_defs
      split: prod.splits res.splits if_splits option.splits)

text \<open>A call that finds the interface's lock poisoned.\<close>

definition refused :: "('w, 'a) sock_run \<Rightarrow> 'w SockState \<Rightarrow> bool" where
  "refused m s = (m s = Some (Err (SockAcquireLockErr ''IFACE'' lock_reason), s))"

lemma acquire_poisoned:
  "IFACE s = Ready \<Longrightarrow> iface_poisoned s \<Longrightarrow> acquire_iface sm isol t s = (Err (SockAcquireLockErr ''IFACE'' lock_reason), s)"
  by (simp add: acquire_iface_def force_iface_def force_static_def act_bind_def)

text \<open>A call of another thread than the first panics at its first poll of the interface, over the logger.\<close>

lemma second_thread_poll:
  assumes "logger_set s" "t \<notin> set (DEVICE s)"
  shows "iface_poll sm isol t s = (Panic, s\<lparr>net := snd (s_now sm (net s))\<rparr>)"
  using assms by (cases "s_now sm (net s)") (simp add: iface_poll_def device_with_def device_init_def with_smol_def act_bind_def)

text \<open>What a panic leaves behind: both locks are poisoned, and every call of every thread is refused.\<close>

definition all_refused :: "'w Smol \<Rightarrow> u64 \<Rightarrow> 'w SockState \<Rightarrow> bool" where
  "all_refused sm isol s \<longleftrightarrow>
    (\<forall>t name. refused (addrinfo sm isol t name) s) \<and> (\<forall>t a. refused (smol_connect sm isol t a) s) \<and>
    (\<forall>t h bs. refused (smol_send sm isol t h bs) s) \<and> (\<forall>t h m. refused (smol_recv sm isol t h m) s) \<and>
    (\<forall>t h. refused (smol_close sm isol t h) s) \<and> (\<forall>t a. refused (smol_bind sm isol t a) s) \<and>
    (\<forall>t h. refused (smol_accept sm isol t h) s)"

lemma poisoned_refused: "IFACE s = Ready \<Longrightarrow> iface_poisoned s \<Longrightarrow> all_refused sm isol s"
  by (simp add: all_refused_def refused_def addrinfo_def smol_connect_def smol_send_def smol_recv_def smol_close_def
      smol_bind_def smol_accept_def holding_both_def holding_iface_def run_bind_def acquire_poisoned)

text \<open>The calls end in that state when the first thing they do under the locks panics.\<close>

definition breaks :: "'w Smol \<Rightarrow> u64 \<Rightarrow> ('w, 'a) sock_run \<Rightarrow> 'w SockState \<Rightarrow> bool" where
  "breaks sm isol m s \<longleftrightarrow> (\<exists>s'. m s = Some (Panic, s') \<and> all_refused sm isol s')"

lemma holding_both_breaks:
  assumes "sock_ready t0 s" "m s = Some (Panic, s\<lparr>net := w\<rparr>)"
  shows "breaks sm isol (holding_both sm isol t m) s"
  using assms poisoned_refused [of "s\<lparr>net := w, sockets_poisoned := True, iface_poisoned := True\<rparr>" sm isol]
  by (simp add: breaks_def holding_both_def holding_iface_def acquire_iface_def force_iface_def force_static_def
      acquire_sockets_def sock_ready_def run_defs act_bind_def poison_sockets_def poison_iface_def)

lemma holding_iface_breaks:
  assumes "sock_ready t0 s" "m s = Some (Panic, s\<lparr>net := w, sockets_poisoned := True\<rparr>)"
  shows "breaks sm isol (holding_iface sm isol t m) s"
  using assms poisoned_refused [of "s\<lparr>net := w, sockets_poisoned := True, iface_poisoned := True\<rparr>" sm isol]
  by (simp add: breaks_def holding_iface_def acquire_iface_def force_iface_def force_static_def
      sock_ready_def run_defs act_bind_def poison_iface_def)

lemma loop_panics: "f x s = (Panic, s') \<Longrightarrow> act_loop f x s = Some (Panic, s')"
  by (simp add: act_loop.simps)

lemma second_thread_calls:
  assumes "sock_ready t0 s" "logger_set s" "t \<notin> set (DEVICE s)"
  shows "breaks sm isol (smol_recv sm isol t h n) s" "breaks sm isol (smol_send sm isol t h bs) s"
    "breaks sm isol (smol_bind sm isol t a) s" "breaks sm isol (smol_accept sm isol t h) s"
    "breaks sm isol (smol_close sm isol t h) s"
proof -
  note poll = second_thread_poll [OF assms(2,3), of sm isol]
  have "recv_round sm isol t h n [] s = (Panic, s\<lparr>net := snd (s_now sm (net s))\<rparr>)"
    by (simp add: recv_round_def act_bind_def poll)
  then have "act_loop (recv_round sm isol t h n) [] s = Some (Panic, s\<lparr>net := snd (s_now sm (net s))\<rparr>)" by (simp add: loop_panics)
  then show "breaks sm isol (smol_recv sm isol t h n) s"
    unfolding smol_recv_def by (intro holding_both_breaks [OF assms(1)])
  have "send_round sm isol t h bs 0 s = (Panic, s\<lparr>net := snd (s_now sm (net s))\<rparr>)"
    by (simp add: send_round_def act_bind_def poll)
  then have "act_loop (send_round sm isol t h bs) 0 s = Some (Panic, s\<lparr>net := snd (s_now sm (net s))\<rparr>)" by (simp add: loop_panics)
  then show "breaks sm isol (smol_send sm isol t h bs) s"
    unfolding smol_send_def by (intro holding_both_breaks [OF assms(1)])
  obtain k w where add: "s_add_tcp sm 64 128 (net s) = (k, w)" by fastforce
  have "bind_socket sm isol t a s = (Panic, s\<lparr>net := snd (s_now sm w)\<rparr>)"
    using second_thread_poll [of "s\<lparr>net := w\<rparr>" t sm isol] assms add
    by (simp add: bind_socket_def act_bind_def with_smol_def)
  then have "run_act (bind_socket sm isol t a) s = Some (Panic, s\<lparr>net := snd (s_now sm w)\<rparr>)" by (simp add: run_defs)
  then show "breaks sm isol (smol_bind sm isol t a) s"
    unfolding smol_bind_def by (intro holding_both_breaks [OF assms(1)])
  have "accept_round sm isol t h () s = (Panic, s\<lparr>net := snd (s_now sm (net s))\<rparr>)"
    by (simp add: accept_round_def act_bind_def poll)
  then have "run_then (act_loop (accept_round sm isol t h) ()) (\<lambda>_ s.
      (ok_or NoLocalEndpoint (s_local_port sm (from_sockfd h) (net s)), s)) s = Some (Panic, s\<lparr>net := snd (s_now sm (net s))\<rparr>)"
    by (simp add: loop_panics run_defs)
  then have "breaks sm isol (holding_both sm isol t (run_then (act_loop (accept_round sm isol t h) ()) (\<lambda>_ s.
      (ok_or NoLocalEndpoint (s_local_port sm (from_sockfd h) (net s)), s)))) s"
    by (intro holding_both_breaks [OF assms(1)])
  then show "breaks sm isol (smol_accept sm isol t h) s" by (auto simp: smol_accept_def breaks_def)
  have "close_round sm isol t h False s = (Panic, s\<lparr>net := snd (s_now sm (net s)), sockets_poisoned := True\<rparr>)"
    using assms(1)
    by (simp add: close_round_def holding_sockets_def acquire_sockets_def sock_ready_def act_bind_def act_on_panic_def
        poison_sockets_def poll)
  then have "act_loop (close_round sm isol t h) False s = Some (Panic, s\<lparr>net := snd (s_now sm (net s)), sockets_poisoned := True\<rparr>)" by (simp add: loop_panics)
  then show "breaks sm isol (smol_close sm isol t h) s"
    unfolding smol_close_def by (intro holding_iface_breaks [OF assms(1)])
qed

text \<open>C20: Once a thread has bound a socket, no other thread, such as that of the next function of the
  workflow, can drive the network. When it receives, sends, binds, accepts or closes, the creation of
  its device panics over the second logger; the panic poisons the locks of the service, and from then
  on every call of every thread is refused. (Opening a connection does not poll the interface and so
  does not panic by itself; the first transfer over it does.)\<close>

theorem second_thread_breaks_sockets:
  assumes "smol_bind sm isol t0 addr (socket_start w) = Some (Ok fd, s)" "t \<noteq> t0"
  shows "breaks sm isol (smol_recv sm isol t h n) s \<and> breaks sm isol (smol_send sm isol t h bs) s \<and>
    breaks sm isol (smol_bind sm isol t a) s \<and> breaks sm isol (smol_accept sm isol t h) s \<and>
    breaks sm isol (smol_close sm isol t h) s"
proof -
  obtain s1 where s1: "acquire_iface sm isol t0 (socket_start w) = (Ok (), s1)" "bind_socket sm isol t0 addr s1 = (Ok fd, s)"
    using holding_both_Ok [OF assms(1) [unfolded smol_bind_def]] by blast
  have ready: "logger_set s1" "DEVICE s1 = [t0]" "sock_ready t0 s1" using acquire_iface_start [OF s1(1)] by auto
  then obtain w' where "s = s1\<lparr>net := w'\<rparr>" using bind_socket_frame [OF ready(3) s1(2)] by blast
  with ready assms(2) have "sock_ready t0 s" "logger_set s" "t \<notin> set (DEVICE s)" by (simp_all add: sock_ready_def)
  from second_thread_calls [OF this] show ?thesis by blast
qed

theorem second_thread_breaks_sockets_witness:
  "\<exists>fd s s'. smol_bind pipe_smol 1 0 ([0, 0, 0, 0], 80) (socket_start \<lparr>taken = [], busy = 0\<rparr>) = Some (Ok fd, s) \<and>
    smol_recv pipe_smol 1 1 fd 10 s = Some (Panic, s') \<and> refused (smol_recv pipe_smol 1 0 fd 10) s'"
proof -
  have "\<exists>fd s. smol_bind pipe_smol 1 0 ([0, 0, 0, 0], 80) (socket_start \<lparr>taken = [], busy = 0\<rparr>) = Some (Ok fd, s)"
    by (simp add: smol_bind_def holding_both_def holding_iface_def acquire_iface_def force_iface_def force_static_def device_with_def
        device_init_def socket_start_def acquire_sockets_def bind_socket_def iface_poll_def run_defs round_simps pipe_smol_def
        exec_tap_setup_def exec_sudo_commands_def gen_tap_setup_def exec_sudo_command_def act_defs Let_def)
  then obtain fd s where bound: "smol_bind pipe_smol 1 0 ([0, 0, 0, 0], 80) (socket_start \<lparr>taken = [], busy = 0\<rparr>) = Some (Ok fd, s)"
    by blast
  from second_thread_breaks_sockets [OF bound, of 1 fd 10] have "breaks pipe_smol 1 (smol_recv pipe_smol 1 1 fd 10) s" by simp
  with bound show ?thesis unfolding breaks_def all_refused_def by blast
qed

end
