(* ===== verification/Rux_Fdtab.thy ===== *)
theory Rux_Fdtab
  imports Lazy_Static Fatfs
begin

text \<open>
  The descriptor service over the file systems of RuxOS (\<open>common_service/ruxfdtab/src/as_apis.rs\<close>,
  \<open>fd_ops.rs\<close>, \<open>fs.rs\<close>, \<open>stdio.rs\<close>), with its default features. The crates \<open>ruxfs\<close> and \<open>ruxfdtable\<close> are
  parameters: \<open>'w\<close> is the state of the file systems and the console, \<open>'i\<close> an open file of them, \<open>'t\<close> the
  table of descriptors. Errors of the crates are the texts they print. The table owns the files: closing
  a descriptor drops its file. The locks are not poisoned by a panic.
\<close>

unbundle bit_operations_syntax

section \<open>Parameters\<close>

record FileAttr =
  attr_type :: "8 word"
  attr_perm :: "16 word"
  attr_size :: u64
  attr_blocks :: u64

record OpenOptions =
  opt_read :: bool
  opt_write :: bool
  opt_create :: bool

record ('w, 'i) Ruxfs =
  x_init :: "string \<Rightarrow> 'w \<Rightarrow> bool \<times> 'w"
  x_open :: "string \<Rightarrow> OpenOptions \<Rightarrow> ('w, string, 'i) act"
  x_read :: "'i \<Rightarrow> nat \<Rightarrow> ('w, string, byte list) act"
  x_write :: "'i \<Rightarrow> byte list \<Rightarrow> ('w, string, nat) act"
  x_flush :: "'i \<Rightarrow> ('w, string, unit) act"
  x_seek :: "'i \<Rightarrow> u64 \<Rightarrow> ('w, string, u64) act"
  x_get_attr :: "'i \<Rightarrow> ('w, string, FileAttr) act"
  x_read_dir :: "string \<Rightarrow> ('w, string, (string, DirEntry) res list) act"
  x_drop :: "'i \<Rightarrow> 'w \<Rightarrow> 'w"
  x_stdout :: "byte list \<Rightarrow> 'w \<Rightarrow> nat \<times> 'w"
  x_eperm :: string

record ('t, 'f) TableOps =
  t_add :: "'f \<Rightarrow> 't \<Rightarrow> nat option \<times> 't"
  t_add_at :: "nat \<Rightarrow> 'f \<Rightarrow> 't \<Rightarrow> nat option \<times> 't"
  t_get :: "'t \<Rightarrow> nat \<Rightarrow> 'f option"
  t_remove :: "nat \<Rightarrow> 't \<Rightarrow> 'f option \<times> 't"

datatype 'i FileLike = RuxStdin | RuxStdout | RuxFile 'i

record ('w, 't) RuxState =
  rux_fs :: 'w
  rux_table :: 't
  MUST_EXIC :: lazy
  MUST_EXEC :: lazy

type_synonym ('w, 't, 'a) rux_act = "(('w, 't) RuxState, FdtabError, 'a) act"

definition on_ruxfs :: "('w, 'e, 'a) act \<Rightarrow> (('w, 't) RuxState, 'e, 'a) act" where
  "on_ruxfs m = (\<lambda>s. case m (rux_fs s) of (r, w) \<Rightarrow> (r, s\<lparr>rux_fs := w\<rparr>))"

section \<open>What a descriptor refers to\<close>

record RuxStat =
  rx_dev :: u64
  rx_ino :: u64
  rx_nlink :: u64
  rx_mode :: u32
  rx_uid :: u32
  rx_gid :: u32
  rx_pad0 :: u32
  rx_rdev :: u64
  rx_size :: "64 word"
  rx_blksize :: int
  rx_blocks :: int
  rx_atime :: TimeSpec
  rx_mtime :: TimeSpec
  rx_ctime :: TimeSpec
  rx_unused :: "int list"

definition rux_stat_default :: RuxStat where
  "rux_stat_default =
    \<lparr>rx_dev = 0, rx_ino = 0, rx_nlink = 0, rx_mode = 0, rx_uid = 0, rx_gid = 0, rx_pad0 = 0, rx_rdev = 0,
     rx_size = 0, rx_blksize = 0, rx_blocks = 0, rx_atime = \<lparr>tv_sec = 0, tv_nsec = 0\<rparr>,
     rx_mtime = \<lparr>tv_sec = 0, tv_nsec = 0\<rparr>, rx_ctime = \<lparr>tv_sec = 0, tv_nsec = 0\<rparr>, rx_unused = [0, 0, 0]\<rparr>"

definition rux_file_mode :: "FileAttr \<Rightarrow> u32" where
  "rux_file_mode a = push_bit 12 (ucast (attr_type a)) OR ucast (attr_perm a)"

definition rux_file_stat :: "FileAttr \<Rightarrow> RuxStat" where
  "rux_file_stat a =
    (let st_mode = rux_file_mode a in
     rux_stat_default\<lparr>rx_ino := attr_size a + ucast st_mode, rx_nlink := 1, rx_mode := st_mode, rx_uid := 1000,
       rx_gid := 1000, rx_size := attr_size a, rx_blocks := sint (attr_blocks a), rx_blksize := 512\<rparr>)"

definition stdin_stat :: RuxStat where
  "stdin_stat = rux_stat_default\<lparr>rx_ino := 1, rx_nlink := 1, rx_mode := 0x2000 OR 0x120\<rparr>"

definition stdout_stat :: RuxStat where
  "stdout_stat = rux_stat_default\<lparr>rx_ino := 1, rx_nlink := 1, rx_mode := 0x2000 OR 0x90\<rparr>"

fun filelike_read :: "('w, 'i) Ruxfs \<Rightarrow> 'i FileLike \<Rightarrow> nat \<Rightarrow> ('w, string, byte list) act" where
  "filelike_read x RuxStdin n = act_panic"
| "filelike_read x RuxStdout n = act_err (x_eperm x)"
| "filelike_read x (RuxFile i) n = x_read x i n"

fun filelike_write :: "('w, 'i) Ruxfs \<Rightarrow> 'i FileLike \<Rightarrow> byte list \<Rightarrow> ('w, string, nat) act" where
  "filelike_write x RuxStdin buf = act_err (x_eperm x)"
| "filelike_write x RuxStdout buf = (\<lambda>w. case x_stdout x buf w of (n, w') \<Rightarrow> (Ok n, w'))"
| "filelike_write x (RuxFile i) buf = x_write x i buf"

fun filelike_flush :: "('w, 'i) Ruxfs \<Rightarrow> 'i FileLike \<Rightarrow> ('w, string, unit) act" where
  "filelike_flush x (RuxFile i) = x_flush x i"
| "filelike_flush x _ = act_ret ()"

fun filelike_stat :: "('w, 'i) Ruxfs \<Rightarrow> 'i FileLike \<Rightarrow> ('w, string, RuxStat) act" where
  "filelike_stat x RuxStdin = act_ret stdin_stat"
| "filelike_stat x RuxStdout = act_ret stdout_stat"
| "filelike_stat x (RuxFile i) = act_bind (x_get_attr x i) (\<lambda>a. act_ret (rux_file_stat a))"

fun filelike_drop :: "('w, 'i) Ruxfs \<Rightarrow> 'i FileLike \<Rightarrow> 'w \<Rightarrow> 'w" where
  "filelike_drop x (RuxFile i) w = x_drop x i w"
| "filelike_drop x _ w = w"

definition rux_convert :: "RuxStat \<Rightarrow> Stat" where
  "rux_convert r =
    \<lparr>st_dev = rx_dev r, st_ino = rx_ino r, st_nlink = rx_nlink r, st_mode = rx_mode r, st_uid = rx_uid r,
     st_gid = rx_gid r, pad0 = rx_pad0 r, st_rdev = rx_rdev r, st_size = rx_size r, st_blksize = rx_blksize r,
     st_blocks = rx_blocks r, st_atime = rx_atime r, st_mtime = rx_mtime r, st_ctime = rx_ctime r,
     st_unused = rx_unused r\<rparr>"

section \<open>The table of descriptors\<close>

definition add_std :: "('t, 'f) TableOps \<Rightarrow> nat \<Rightarrow> 'f \<Rightarrow> ('w, 't, unit) rux_act" where
  "add_std T n f = (\<lambda>s. case t_add_at T n f (rux_table s) of
     (Some _, t) \<Rightarrow> (Ok (), s\<lparr>rux_table := t\<rparr>)
   | (None, t) \<Rightarrow> (Panic, s\<lparr>rux_table := t\<rparr>))"

definition must_exec :: "('t, 'i FileLike) TableOps \<Rightarrow> ('w, 't, unit) rux_act" where
  "must_exec T = force_static MUST_EXEC (\<lambda>x s. s\<lparr>MUST_EXEC := x\<rparr>)
    (act_bind (add_std T 0 RuxStdin) (\<lambda>_. act_bind (add_std T 1 RuxStdout) (\<lambda>_. add_std T 2 RuxStdout)))"

definition get_file_like :: "('t, 'i FileLike) TableOps \<Rightarrow> Fd \<Rightarrow> ('w, 't, 'i FileLike) rux_act" where
  "get_file_like T fd = act_bind (must_exec T) (\<lambda>_ s. (ok_or (NoExistFd fd) (t_get T (rux_table s) (unat fd)), s))"

definition add_file_like ::
  "('w, 'i) Ruxfs \<Rightarrow> ('t, 'i FileLike) TableOps \<Rightarrow> 'i FileLike \<Rightarrow> ('w, 't, Fd) rux_act" where
  "add_file_like x T f = act_bind (must_exec T) (\<lambda>_ s. case t_add T f (rux_table s) of
     (Some n, t) \<Rightarrow> (Ok (word_of_nat n), s\<lparr>rux_table := t\<rparr>)
   | (None, t) \<Rightarrow> (Err (RuxfsErr ''add_file_like failed''), s\<lparr>rux_table := t, rux_fs := filelike_drop x f (rux_fs s)\<rparr>))"

definition close_file_like :: "('w, 'i) Ruxfs \<Rightarrow> ('t, 'i FileLike) TableOps \<Rightarrow> Fd \<Rightarrow> ('w, 't, unit) rux_act" where
  "close_file_like x T fd = act_bind (must_exec T) (\<lambda>_ s. case t_remove T (unat fd) (rux_table s) of
     (Some f, t) \<Rightarrow> (Ok (), s\<lparr>rux_table := t, rux_fs := filelike_drop x f (rux_fs s)\<rparr>)
   | (None, t) \<Rightarrow> (Err (RuxfsErr ''close_file_like failed''), s\<lparr>rux_table := t\<rparr>))"

text \<open>\<open>File::from_fd\<close>: a standard stream is reported as no descriptor at all.\<close>

definition file_from_fd :: "('t, 'i FileLike) TableOps \<Rightarrow> Fd \<Rightarrow> ('w, 't, 'i) rux_act" where
  "file_from_fd T fd = act_bind (get_file_like T fd) (\<lambda>f.
     case f of RuxFile i \<Rightarrow> act_ret i | _ \<Rightarrow> act_err (NoExistFd fd))"

section \<open>Calls\<close>

text \<open>\<open>MUST_EXIC\<close>: the file system is mounted by the first call.\<close>

definition must_exic :: "('w, 'i) Ruxfs \<Rightarrow> string \<Rightarrow> ('w, 't, unit) rux_act" where
  "must_exic x image_path = force_static MUST_EXIC (\<lambda>l s. s\<lparr>MUST_EXIC := l\<rparr>)
    (\<lambda>s. case x_init x image_path (rux_fs s) of (ok, w) \<Rightarrow> (if ok then Ok () else Panic, s\<lparr>rux_fs := w\<rparr>))"

definition rux_open ::
  "('w, 'i) Ruxfs \<Rightarrow> ('t, 'i FileLike) TableOps \<Rightarrow> string \<Rightarrow> string \<Rightarrow> OpenFlags \<Rightarrow> OpenMode \<Rightarrow> ('w, 't, Fd) rux_act" where
  "rux_open x T image_path path flags mode =
    act_bind (must_exic x image_path) (\<lambda>_.
    let options = \<lparr>opt_read = flags_contain mode RD, opt_write = flags_contain mode WR,
                   opt_create = flags_contain flags O_CREAT\<rparr> in
    act_bind (act_map_err (\<lambda>e. RuxfsErr (''open '' @ path @ '' failed: '' @ e)) (on_ruxfs (x_open x path options))) (\<lambda>i.
    add_file_like x T (RuxFile i)))"

text \<open>The file is flushed after every write, also after one that failed, and the result of that is
  unwrapped.\<close>

definition write_flushed :: "('w, 'i) Ruxfs \<Rightarrow> 'i FileLike \<Rightarrow> byte list \<Rightarrow> ('w, string, nat) act" where
  "write_flushed x f buf = (\<lambda>w. case filelike_write x f buf w of
      (Panic, w') \<Rightarrow> (Panic, w')
    | (result, w') \<Rightarrow> act_bind (act_unwrap (filelike_flush x f)) (\<lambda>_. act_lift result) w')"

definition rux_write ::
  "('w, 'i) Ruxfs \<Rightarrow> ('t, 'i FileLike) TableOps \<Rightarrow> string \<Rightarrow> Fd \<Rightarrow> byte list \<Rightarrow> ('w, 't, nat) rux_act" where
  "rux_write x T image_path fd buf =
    act_bind (must_exic x image_path) (\<lambda>_.
    act_bind (get_file_like T fd) (\<lambda>f. act_map_err RuxfsErr (on_ruxfs (write_flushed x f buf))))"

definition rux_read ::
  "('w, 'i) Ruxfs \<Rightarrow> ('t, 'i FileLike) TableOps \<Rightarrow> string \<Rightarrow> Fd \<Rightarrow> nat \<Rightarrow> ('w, 't, byte list) rux_act" where
  "rux_read x T image_path fd n =
    act_bind (must_exic x image_path) (\<lambda>_.
    act_bind (get_file_like T fd) (\<lambda>f. act_map_err RuxfsErr (on_ruxfs (filelike_read x f n))))"

definition rux_close ::
  "('w, 'i) Ruxfs \<Rightarrow> ('t, 'i FileLike) TableOps \<Rightarrow> string \<Rightarrow> Fd \<Rightarrow> ('w, 't, unit) rux_act" where
  "rux_close x T image_path fd = act_bind (must_exic x image_path) (\<lambda>_. close_file_like x T fd)"

definition rux_lseek ::
  "('w, 'i) Ruxfs \<Rightarrow> ('t, 'i FileLike) TableOps \<Rightarrow> string \<Rightarrow> Fd \<Rightarrow> u32 \<Rightarrow> ('w, 't, unit) rux_act" where
  "rux_lseek x T image_path fd pos =
    act_bind (must_exic x image_path) (\<lambda>_.
    act_bind (file_from_fd T fd) (\<lambda>i.
    act_bind (act_map_err RuxfsErr (on_ruxfs (x_seek x i (ucast pos)))) (\<lambda>_. act_ret ())))"

definition rux_stat ::
  "('w, 'i) Ruxfs \<Rightarrow> ('t, 'i FileLike) TableOps \<Rightarrow> string \<Rightarrow> Fd \<Rightarrow> ('w, 't, Stat) rux_act" where
  "rux_stat x T image_path fd =
    act_bind (must_exic x image_path) (\<lambda>_.
    act_bind (file_from_fd T fd) (\<lambda>i.
    act_bind (act_map_err RuxfsErr (on_ruxfs (filelike_stat x (RuxFile i)))) (\<lambda>st. act_ret (rux_convert st))))"

fun flatten_ok :: "('e, 'a) res list \<Rightarrow> 'a list" where
  "flatten_ok [] = []"
| "flatten_ok (Ok a # rs) = a # flatten_ok rs"
| "flatten_ok (_ # rs) = flatten_ok rs"

definition rux_readdir :: "('w, 'i) Ruxfs \<Rightarrow> string \<Rightarrow> string \<Rightarrow> ('w, 't, DirEntry list) rux_act" where
  "rux_readdir x image_path path =
    act_bind (must_exic x image_path) (\<lambda>_.
    act_bind (act_unwrap (on_ruxfs (x_read_dir x path))) (\<lambda>items. act_ret (flatten_ok items)))"

end
