(* ===== verification/Rux_Props.thy ===== *)
theory Rux_Props
  imports Rux_Fdtab Fdtab Wasi
begin

text \<open>
  What the RuxOS descriptor service promises, on a table that hands out the lowest free number, and what
  the status of a file says.
\<close>

section \<open>The table\<close>

text \<open>\<open>FlattenObjects\<close> of the crate: at most \<open>cap\<close> entries, \<open>add\<close> takes the lowest number that is free.\<close>

definition flat_table :: "('t, 'f) TableOps \<Rightarrow> nat \<Rightarrow> bool" where
  "flat_table T cap =
    ((\<forall>t n. cap \<le> n \<longrightarrow> t_get T t n = None) \<and>
     (\<forall>t f n t'. t_add T f t = (Some n, t') \<longrightarrow>
        n < cap \<and> t_get T t n = None \<and> (\<forall>m < n. t_get T t m \<noteq> None) \<and> t_get T t' = (t_get T t)(n \<mapsto> f)) \<and>
     (\<forall>t f t'. t_add T f t = (None, t') \<longrightarrow> t_get T t' = t_get T t \<and> (\<forall>m < cap. t_get T t m \<noteq> None)) \<and>
     (\<forall>t n f r t'. t_add_at T n f t = (r, t') \<longrightarrow>
        (if n < cap \<and> t_get T t n = None then r = Some n \<and> t_get T t' = (t_get T t)(n \<mapsto> f)
         else r = None \<and> t_get T t' = t_get T t)) \<and>
     (\<forall>t n r t'. t_remove T n t = (r, t') \<longrightarrow> r = t_get T t n \<and> t_get T t' = (t_get T t)(n := None)))"

lemma flat_tableD:
  assumes "flat_table T cap"
  shows "cap \<le> n \<Longrightarrow> t_get T t n = None"
    and "t_add T f t = (Some n, t') \<Longrightarrow>
      n < cap \<and> t_get T t n = None \<and> (\<forall>m < n. t_get T t m \<noteq> None) \<and> t_get T t' = (t_get T t)(n \<mapsto> f)"
    and "t_add T f t = (None, t') \<Longrightarrow> t_get T t' = t_get T t \<and> (\<forall>m < cap. t_get T t m \<noteq> None)"
    and "t_add_at T n f t = (q, t') \<Longrightarrow> n < cap \<Longrightarrow> t_get T t n = None \<Longrightarrow> q = Some n \<and> t_get T t' = (t_get T t)(n \<mapsto> f)"
    and "t_remove T n t = (r, t') \<Longrightarrow> r = t_get T t n \<and> t_get T t' = (t_get T t)(n := None)"
  using assms unfolding flat_table_def by (blast, blast, blast, metis, blast)

definition rux_ready :: "('w, 't) RuxState \<Rightarrow> bool" where
  "rux_ready s = (MUST_EXIC s = Ready \<and> MUST_EXEC s = Ready)"

text \<open>The open descriptors.\<close>

definition rux_fds :: "('t, 'f) TableOps \<Rightarrow> ('w, 't) RuxState \<Rightarrow> Fd \<Rightarrow> 'f option" where
  "rux_fds T s fd = t_get T (rux_table s) (unat fd)"

section \<open>Calls\<close>

datatype rux_call =
    XOpen string OpenFlags OpenMode | XWrite Fd "byte list" | XRead Fd nat | XClose Fd | XLseek Fd u32 | XStat Fd | XReaddir string

datatype rux_out = OutFd Fd | OutNat nat | OutBytes "byte list" | OutUnit | OutStat Stat | OutDir "DirEntry list"

fun rux_exec :: "('w, 'i) Ruxfs \<Rightarrow> ('t, 'i FileLike) TableOps \<Rightarrow> string \<Rightarrow> rux_call \<Rightarrow> ('w, 't, rux_out) rux_act" where
  "rux_exec x T img (XOpen p fl mode) = act_map OutFd (rux_open x T img p fl mode)"
| "rux_exec x T img (XWrite fd buf) = act_map OutNat (rux_write x T img fd buf)"
| "rux_exec x T img (XRead fd n) = act_map OutBytes (rux_read x T img fd n)"
| "rux_exec x T img (XClose fd) = act_map (\<lambda>_. OutUnit) (rux_close x T img fd)"
| "rux_exec x T img (XLseek fd pos) = act_map (\<lambda>_. OutUnit) (rux_lseek x T img fd pos)"
| "rux_exec x T img (XStat fd) = act_map OutStat (rux_stat x T img fd)"
| "rux_exec x T img (XReaddir p) = act_map OutDir (rux_readdir x img p)"

text \<open>What a client may rely on: \<open>m\<close> and \<open>m'\<close> are the open descriptors before and after a call.\<close>

fun rux_promise :: "rux_call \<Rightarrow> (Fd \<rightharpoonup> 'i FileLike) \<Rightarrow> (FdtabError, rux_out) res \<Rightarrow> (Fd \<rightharpoonup> 'i FileLike) \<Rightarrow> bool" where
  "rux_promise (XOpen p fl mode) m r m' =
    (case r of
       Ok out \<Rightarrow> (\<exists>fd i. out = OutFd fd \<and> m fd = None \<and> (\<forall>k < fd. m k \<noteq> None) \<and> m' = m(fd \<mapsto> RuxFile i))
     | _ \<Rightarrow> m' = m)"
| "rux_promise (XClose fd) m r m' = (m' = m(fd := None) \<and> (is_ok r \<longleftrightarrow> m fd \<noteq> None))"
| "rux_promise (XWrite fd buf) m r m' = (m' = m \<and> (m fd = None \<longrightarrow> r = Err (NoExistFd fd)))"
| "rux_promise (XRead fd n) m r m' = (m' = m \<and> (m fd = None \<longrightarrow> r = Err (NoExistFd fd)))"
| "rux_promise (XLseek fd pos) m r m' = (m' = m \<and> ((\<forall>i. m fd \<noteq> Some (RuxFile i)) \<longrightarrow> r = Err (NoExistFd fd)))"
| "rux_promise (XStat fd) m r m' = (m' = m \<and> ((\<forall>i. m fd \<noteq> Some (RuxFile i)) \<longrightarrow> r = Err (NoExistFd fd)))"
| "rux_promise (XReaddir p) m r m' = (m' = m)"

lemma must_ready:
  "rux_ready s \<Longrightarrow> must_exic x img s = (Ok (), s)" "rux_ready s \<Longrightarrow> must_exec T s = (Ok (), s)"
  by (simp_all add: rux_ready_def must_exic_def must_exec_def force_static_simps)

lemma on_ruxfs_apply [act_simps]:
  "on_ruxfs m s = (r, s') \<longleftrightarrow> (\<exists>w. m (rux_fs s) = (r, w) \<and> s' = s\<lparr>rux_fs := w\<rparr>)"
  by (auto simp: on_ruxfs_def split: prod.splits)

lemma rux_fds_fs [simp]: "rux_fds T (s\<lparr>rux_fs := w\<rparr>) = rux_fds T s" "rux_ready (s\<lparr>rux_fs := w\<rparr>) = rux_ready s"
  "rux_ready (s\<lparr>rux_table := t\<rparr>) = rux_ready s"
  by (auto simp: rux_fds_def rux_ready_def)

text \<open>Code that changes nothing but the file systems.\<close>

definition only_fs :: "('w, 't) RuxState \<Rightarrow> ('w, 't) RuxState \<Rightarrow> bool" where
  "only_fs s s' = (\<exists>w. s' = s\<lparr>rux_fs := w\<rparr>)"

interpretation only_fs: step_relation only_fs
proof
  fix s s' s'' :: "('w, 't) RuxState"
  show "only_fs s s" unfolding only_fs_def by (intro exI [of _ "rux_fs s"]) simp
  show "only_fs s s''" if "only_fs s s'" "only_fs s' s''" using that by (auto simp: only_fs_def)
qed

lemma within_on_ruxfs: "within only_fs (on_ruxfs m)"
  by (rule withinI) (auto simp: act_simps only_fs_def)

lemma get_file_like_ready:
  "rux_ready s \<Longrightarrow> get_file_like T fd s = (ok_or (NoExistFd fd) (rux_fds T s fd), s)"
  by (simp add: get_file_like_def must_ready act_bind_def rux_fds_def)

lemma file_from_fd_ready:
  "rux_ready s \<Longrightarrow> file_from_fd T fd s =
    (case rux_fds T s fd of Some (RuxFile i) \<Rightarrow> (Ok i, s) | _ \<Rightarrow> (Err (NoExistFd fd), s))"
  by (auto simp: file_from_fd_def get_file_like_ready act_bind_def act_ret_def act_err_def split: option.split FileLike.split)

lemma only_fs_keeps: "only_fs s s' \<Longrightarrow> rux_fds T s' = rux_fds T s \<and> rux_ready s' = rux_ready s"
  by (auto simp: only_fs_def)

lemma call_on_open:
  "rux_ready s \<Longrightarrow> act_bind (must_exic x img) (\<lambda>_. act_bind (get_file_like T fd) g) s =
    (case rux_fds T s fd of None \<Rightarrow> (Err (NoExistFd fd), s) | Some f \<Rightarrow> g f s)"
  by (simp add: act_bind_def must_ready get_file_like_ready split: option.split)

lemma call_on_file:
  "rux_ready s \<Longrightarrow> act_bind (must_exic x img) (\<lambda>_. act_bind (file_from_fd T fd) g) s =
    (case rux_fds T s fd of Some (RuxFile i) \<Rightarrow> g i s | _ \<Rightarrow> (Err (NoExistFd fd), s))"
  by (simp add: act_bind_def must_ready file_from_fd_ready split: option.split FileLike.split)

lemma rux_io_keeps:
  assumes "rux_ready s"
  shows "rux_read x T img fd n s = (r1, s') \<Longrightarrow> only_fs s s' \<and> (rux_fds T s fd = None \<longrightarrow> r1 = Err (NoExistFd fd))"
    and "rux_write x T img fd buf s = (r2, s') \<Longrightarrow> only_fs s s' \<and> (rux_fds T s fd = None \<longrightarrow> r2 = Err (NoExistFd fd))"
    and "rux_readdir x img p s = (r3, s') \<Longrightarrow> only_fs s s'"
proof -
  note fs = only_fs.R_refl withinD [OF only_fs.within_map_err [OF within_on_ruxfs]]
  show "only_fs s s' \<and> (rux_fds T s fd = None \<longrightarrow> r1 = Err (NoExistFd fd))" if "rux_read x T img fd n s = (r1, s')"
    using that by (auto simp: rux_read_def call_on_open [OF assms] intro: fs split: option.splits)
  show "only_fs s s' \<and> (rux_fds T s fd = None \<longrightarrow> r2 = Err (NoExistFd fd))" if "rux_write x T img fd buf s = (r2, s')"
    using that by (auto simp: rux_write_def call_on_open [OF assms] intro: fs split: option.splits)
  have "within only_fs (act_bind (act_unwrap (on_ruxfs (x_read_dir x p))) (\<lambda>items. act_ret (flatten_ok items)))"
    by (intro only_fs.within_intros within_on_ruxfs)
  from withinD [OF this] show "only_fs s s'" if "rux_readdir x img p s = (r3, s')"
    using that by (auto simp: rux_readdir_def must_ready [OF assms] act_bind_def)
qed

lemma rux_file_calls_keep:
  assumes "rux_ready s"
  shows "rux_lseek x T img fd pos s = (r1, s') \<Longrightarrow>
      only_fs s s' \<and> ((\<forall>i. rux_fds T s fd \<noteq> Some (RuxFile i)) \<longrightarrow> r1 = Err (NoExistFd fd))"
    and "rux_stat x T img fd s = (r2, s') \<Longrightarrow>
      only_fs s s' \<and> ((\<forall>i. rux_fds T s fd \<noteq> Some (RuxFile i)) \<longrightarrow> r2 = Err (NoExistFd fd))"
proof -
  have "within only_fs (act_bind (act_map_err RuxfsErr (on_ruxfs (x_seek x i (ucast pos)))) (\<lambda>_. act_ret ()))" for i
    by (intro only_fs.within_intros within_on_ruxfs)
  from withinD [OF this]
  show "only_fs s s' \<and> ((\<forall>i. rux_fds T s fd \<noteq> Some (RuxFile i)) \<longrightarrow> r1 = Err (NoExistFd fd))"
    if "rux_lseek x T img fd pos s = (r1, s')"
    using that by (auto simp: rux_lseek_def call_on_file [OF assms] intro: only_fs.R_refl split: option.splits FileLike.splits)
  have "within only_fs (act_bind (act_map_err RuxfsErr (on_ruxfs (filelike_stat x (RuxFile i)))) (\<lambda>st. act_ret (rux_convert st)))" for i
    by (intro only_fs.within_intros within_on_ruxfs)
  from withinD [OF this]
  show "only_fs s s' \<and> ((\<forall>i. rux_fds T s fd \<noteq> Some (RuxFile i)) \<longrightarrow> r2 = Err (NoExistFd fd))"
    if "rux_stat x T img fd s = (r2, s')"
    using that by (auto simp: rux_stat_def call_on_file [OF assms] intro: only_fs.R_refl simp del: filelike_stat.simps
        split: option.splits FileLike.splits)
qed

lemma unat_word_eq: "n < 2 ^ 32 \<Longrightarrow> unat (word_of_nat n :: Fd) = n"
  by (intro unat_word_of_nat_lt) simp

lemma rux_open_effect:
  assumes "flat_table T cap" "cap \<le> 2 ^ 32" "rux_ready s" "rux_open x T img p fl mode s = (r, s')"
  shows "rux_ready s' \<and> (case r of
      Ok fd \<Rightarrow> (\<exists>i. rux_fds T s fd = None \<and> (\<forall>k < fd. rux_fds T s k \<noteq> None) \<and> rux_fds T s' = (rux_fds T s)(fd \<mapsto> RuxFile i))
    | _ \<Rightarrow> rux_fds T s' = rux_fds T s)"
proof -
  let ?opts = "\<lparr>opt_read = flags_contain mode RD, opt_write = flags_contain mode WR, opt_create = flags_contain fl O_CREAT\<rparr>"
  obtain ro w where op: "x_open x p ?opts (rux_fs s) = (ro, w)" by fastforce
  have run: "rux_open x T img p fl mode s = (case ro of
      Ok i \<Rightarrow> add_file_like x T (RuxFile i) (s\<lparr>rux_fs := w\<rparr>)
    | Err e \<Rightarrow> (Err (RuxfsErr (''open '' @ p @ '' failed: '' @ e)), s\<lparr>rux_fs := w\<rparr>)
    | Panic \<Rightarrow> (Panic, s\<lparr>rux_fs := w\<rparr>))"
    using op by (cases ro) (simp_all add: rux_open_def act_bind_def must_ready [OF assms(3)] act_map_err_def on_ruxfs_def)
  show ?thesis
  proof (cases ro)
    case (Ok i)
    obtain rn t where add: "t_add T (RuxFile i) (rux_table s) = (rn, t)" by fastforce
    have added: "add_file_like x T (RuxFile i) (s\<lparr>rux_fs := w\<rparr>) = (case rn of
        Some n \<Rightarrow> (Ok (word_of_nat n), s\<lparr>rux_fs := w, rux_table := t\<rparr>)
      | None \<Rightarrow> (Err (RuxfsErr ''add_file_like failed''), s\<lparr>rux_fs := w, rux_table := t, rux_fs := x_drop x i w\<rparr>))"
      using add assms(3) by (simp add: add_file_like_def act_bind_def must_ready split: option.split)
    show ?thesis
    proof (cases rn)
      case None
      with added run Ok assms(3, 4) flat_tableD(3) [OF assms(1) add [unfolded None]] show ?thesis
        by (auto simp: rux_fds_def)
    next
      case (Some n)
      note n = flat_tableD(2) [OF assms(1) add [unfolded Some]]
      then have "n < 2 ^ 32" using assms(2) by linarith
      then obtain fd :: Fd where fd: "n = unat fd" "word_of_nat n = fd" by (metis unat_word_eq)
      have "r = Ok fd" "s' = s\<lparr>rux_fs := w, rux_table := t\<rparr>" using added run Ok Some assms(4) fd(2) by auto
      moreover have "rux_fds T (s\<lparr>rux_fs := w, rux_table := t\<rparr>) = (rux_fds T s)(fd \<mapsto> RuxFile i)"
        using n by (auto simp: rux_fds_def fun_eq_iff fd(1) word_unat_eq_iff)
      ultimately show ?thesis using n assms(3) by (auto simp: rux_fds_def fd(1) word_less_nat_alt)
    qed
  qed (use run assms(3, 4) in auto)
qed

lemma rux_close_effect:
  assumes "flat_table T cap" "rux_ready s" "rux_close x T img fd s = (r, s')"
  shows "rux_ready s' \<and> r \<noteq> Panic \<and> rux_fds T s' = (rux_fds T s)(fd := None) \<and> (is_ok r \<longleftrightarrow> rux_fds T s fd \<noteq> None)"
proof -
  obtain rf t where rm: "t_remove T (unat fd) (rux_table s) = (rf, t)" by fastforce
  note get = flat_tableD(5) [OF assms(1) rm]
  have "rux_fds T (s\<lparr>rux_table := t\<rparr>) = (rux_fds T s)(fd := None)"
    using get by (auto simp: rux_fds_def fun_eq_iff word_unat_eq_iff)
  moreover have "rf = rux_fds T s fd" using get by (simp add: rux_fds_def)
  ultimately show ?thesis using assms(2, 3) rm
    by (auto simp: rux_close_def close_file_like_def act_bind_def must_ready split: option.splits)
qed

text \<open>C21: The calls of the RuxOS descriptor service keep a map of open descriptors. A successful \<open>open\<close> binds
  the lowest number that is free to a file, \<open>close\<close> frees exactly the number it is given and fails
  exactly for one that is not open, and no other call changes the map; on a number that is not open
  they report so, and \<open>lseek\<close> and \<open>stat\<close> do also for the standard streams.\<close>

theorem rux_calls_keep_promise:
  assumes "flat_table T cap" "cap \<le> 2 ^ 32" "rux_ready s" "rux_exec x T img c s = (r, s')"
  shows "rux_ready s' \<and> rux_promise c (rux_fds T s) r (rux_fds T s')"
proof (cases c)
  case (XOpen p fl mode)
  then obtain r0 where r0: "rux_open x T img p fl mode s = (r0, s')" "r = map_ok OutFd r0" using assms(4) by (auto simp: act_simps)
  with rux_open_effect [OF assms(1-3) r0(1)] XOpen show ?thesis by (cases r0) auto
next
  case (XClose fd)
  then obtain r0 where r0: "rux_close x T img fd s = (r0, s')" "r = map_ok (\<lambda>_. OutUnit) r0"
    using assms(4) by (auto simp: act_simps)
  with rux_close_effect [OF assms(1, 3) r0(1)] XClose show ?thesis by (cases r0) auto
next
  case (XWrite fd buf)
  then obtain r0 where r0: "rux_write x T img fd buf s = (r0, s')" "r = map_ok OutNat r0" using assms(4) by (auto simp: act_simps)
  with rux_io_keeps(2) [OF assms(3) r0(1)] only_fs_keeps [of s s' T] assms(3) XWrite show ?thesis by auto
next
  case (XRead fd n)
  then obtain r0 where r0: "rux_read x T img fd n s = (r0, s')" "r = map_ok OutBytes r0" using assms(4) by (auto simp: act_simps)
  with rux_io_keeps(1) [OF assms(3) r0(1)] only_fs_keeps [of s s' T] assms(3) XRead show ?thesis by auto
next
  case (XLseek fd pos)
  then obtain r0 where r0: "rux_lseek x T img fd pos s = (r0, s')" "r = map_ok (\<lambda>_. OutUnit) r0" using assms(4) by (auto simp: act_simps)
  with rux_file_calls_keep(1) [OF assms(3) r0(1)] only_fs_keeps [of s s' T] assms(3) XLseek show ?thesis by auto
next
  case (XStat fd)
  then obtain r0 where r0: "rux_stat x T img fd s = (r0, s')" "r = map_ok OutStat r0" using assms(4) by (auto simp: act_simps)
  with rux_file_calls_keep(2) [OF assms(3) r0(1)] only_fs_keeps [of s s' T] assms(3) XStat show ?thesis by auto
next
  case (XReaddir p)
  then obtain r0 where r0: "rux_readdir x img p s = (r0, s')" "r = map_ok OutDir r0" using assms(4) by (auto simp: act_simps)
  with rux_io_keeps(3) [OF assms(3) r0(1)] only_fs_keeps [of s s' T] assms(3) XReaddir show ?thesis by auto
qed

text \<open>A table of eight descriptors, and a file system with one file, its bytes, which keeps what is
  printed apart.\<close>

definition small_table :: "(nat \<Rightarrow> 'f option, 'f) TableOps" where
  "small_table =
    \<lparr>t_add = (\<lambda>f t. case List.find (\<lambda>n. t n = None) [0..<8] of None \<Rightarrow> (None, t) | Some n \<Rightarrow> (Some n, t(n \<mapsto> f))),
     t_add_at = (\<lambda>n f t. if n < 8 \<and> t n = None then (Some n, t(n \<mapsto> f)) else (None, t)),
     t_get = (\<lambda>t n. if n < 8 then t n else None),
     t_remove = (\<lambda>n t. if n < 8 then (t n, t(n := None)) else (None, t))\<rparr>"

lemma small_table_flat: "flat_table small_table 8"
  unfolding flat_table_def small_table_def
  by (auto simp: find_Some_iff find_None_iff fun_upd_def split: option.splits if_splits)

definition one_file :: "(byte list \<times> byte list, unit) Ruxfs" where
  "one_file =
    \<lparr>x_init = (\<lambda>_ w. (True, w)), x_open = (\<lambda>_ _. act_ret ()), x_read = (\<lambda>_ n (f, out). (Ok (take n f), f, out)),
     x_write = (\<lambda>_ bs (f, out). (Ok (length bs), f @ bs, out)), x_flush = (\<lambda>_. act_ret ()), x_seek = (\<lambda>_ p. act_ret p),
     x_get_attr = (\<lambda>_ (f, out). (Ok \<lparr>attr_type = 8, attr_perm = 0x1FF, attr_size = word_of_nat (length f), attr_blocks = 1\<rparr>, f, out)),
     x_read_dir = (\<lambda>_. act_ret []), x_drop = (\<lambda>_ w. w), x_stdout = (\<lambda>bs (f, out). (length bs, f, out @ bs)),
     x_eperm = ''EPERM''\<rparr>"

definition three_streams :: "(byte list \<times> byte list, nat \<Rightarrow> unit FileLike option) RuxState" where
  "three_streams = \<lparr>rux_fs = ([7], []), rux_table = [0 \<mapsto> RuxStdin, 1 \<mapsto> RuxStdout, 2 \<mapsto> RuxStdout],
     MUST_EXIC = Ready, MUST_EXEC = Ready\<rparr>"

lemma find_upt_8: "[0..<8] = [0, 1, 2, 3, 4, 5, 6, 7 :: nat]"
  by (simp add: numeral_eq_Suc)

theorem rux_calls_keep_promise_witness:
  "\<exists>s'. rux_exec one_file small_table [] (XOpen ''a'' 0 RD) three_streams = (Ok (OutFd 3), s') \<and>
    rux_fds small_table s' = (rux_fds small_table three_streams)(3 \<mapsto> RuxFile ())"
proof -
  have run: "\<exists>s'. rux_exec one_file small_table [] (XOpen ''a'' 0 RD) three_streams = (Ok (OutFd 3), s')"
    by (simp add: three_streams_def one_file_def small_table_def rux_open_def must_exic_def force_static_def on_ruxfs_def
        add_file_like_def must_exec_def act_defs act_map_def find_upt_8)
  have "rux_ready three_streams" by (simp add: rux_ready_def three_streams_def)
  with run rux_calls_keep_promise [OF small_table_flat, of three_streams one_file "[]" "XOpen ''a'' 0 RD"]
  show ?thesis by fastforce
qed

section \<open>Closing a standard stream\<close>

text \<open>The RuxOS service lets a function close its standard output, which the other descriptor service
  refuses. The next file that is opened gets the number 1, and what is then written to descriptor 1
  goes to the file.\<close>

theorem rux_stdout_replaced:
  assumes "flat_table T cap" "cap \<le> 2 ^ 32" "rux_ready s" "rux_fds T s 0 \<noteq> None" "rux_fds T s 1 = Some RuxStdout"
    and "rux_close x T img 1 s = (r, s1)" "rux_open x T img p fl mode s1 = (Ok fd, s2)"
  shows "r = Ok () \<and> fd = 1 \<and>
    (\<exists>i. rux_fds T s2 1 = Some (RuxFile i) \<and>
      (\<forall>buf. rux_write x T img 1 buf s2 = act_map_err RuxfsErr (on_ruxfs (write_flushed x (RuxFile i) buf)) s2)) \<and>
    (\<forall>b t. fst (fd_close b 1 t) = Err (BadInputFd ''>2'' 1))"
proof -
  have closed: "rux_ready s1" "r = Ok ()" "rux_fds T s1 = (rux_fds T s)(1 := None)"
    using rux_close_effect [OF assms(1, 3, 6)] assms(5) by (cases r; simp)+
  obtain i where opened: "rux_ready s2" "rux_fds T s1 fd = None" "\<forall>k < fd. rux_fds T s1 k \<noteq> None"
    "rux_fds T s2 = (rux_fds T s1)(fd \<mapsto> RuxFile i)"
    using rux_open_effect [OF assms(1, 2) closed(1) assms(7)] by auto
  have "fd \<noteq> 0" using opened(2) assms(4) closed(3) by auto
  moreover have "\<not> 1 < fd" using opened(3) closed(3) by auto
  ultimately have "fd = 1" by (metis antisym not_le word_less_1 linorder_neqE)
  with opened closed(2) show ?thesis
    by (auto simp: rux_write_def call_on_open fd_close_def act_err_def intro!: exI [of _ i])
qed

theorem rux_stdout_replaced_witness:
  "\<exists>s1 s2. rux_close one_file small_table [] 1 three_streams = (Ok (), s1) \<and>
    rux_open one_file small_table [] ''a'' 0 WR s1 = (Ok 1, s2) \<and>
    rux_fs (snd (rux_write one_file small_table [] 1 [5] s2)) = ([7, 5], [])"
proof -
  obtain s1 where s1: "rux_close one_file small_table [] 1 three_streams = (Ok (), s1)"
    "s1 = three_streams\<lparr>rux_table := [0 \<mapsto> RuxStdin, 2 \<mapsto> RuxStdout]\<rparr>"
    by (simp add: three_streams_def one_file_def small_table_def rux_close_def must_exic_def force_static_def
        close_file_like_def must_exec_def act_defs fun_upd_twist)
  obtain s2 where s2: "rux_open one_file small_table [] ''a'' 0 WR s1 = (Ok 1, s2)"
    "s2 = s1\<lparr>rux_table := [0 \<mapsto> RuxStdin, 2 \<mapsto> RuxStdout, 1 \<mapsto> RuxFile ()]\<rparr>"
    by (simp add: s1(2) three_streams_def one_file_def small_table_def rux_open_def must_exic_def force_static_def
        on_ruxfs_def add_file_like_def must_exec_def act_defs find_upt_8)
  have "rux_ready three_streams" by (simp add: rux_ready_def three_streams_def)
  moreover have "rux_fds small_table three_streams 0 \<noteq> None" "rux_fds small_table three_streams 1 = Some RuxStdout"
    by (simp_all add: rux_fds_def small_table_def three_streams_def)
  ultimately have "\<forall>buf. \<exists>i. rux_write one_file small_table [] 1 buf s2 =
      act_map_err RuxfsErr (on_ruxfs (write_flushed one_file (RuxFile i) buf)) s2"
    using rux_stdout_replaced [OF small_table_flat _ _ _ _ s1(1) s2(1)] by auto
  then have "rux_fs (snd (rux_write one_file small_table [] 1 [5] s2)) = ([7, 5], [])"
    by (auto simp: dest!: spec [of _ "[5]"]) (simp add: s2(2) s1(2) three_streams_def write_flushed_def one_file_def on_ruxfs_def act_defs)
  then show ?thesis using s1(1) s2(1) by blast
qed

section \<open>Status\<close>

lemma rux_mode_parts:
  assumes "take_bit 12 (attr_perm a) = attr_perm a"
  shows "drop_bit 12 (rux_file_mode a) = ucast (attr_type a)" "take_bit 12 (rux_file_mode a) = ucast (attr_perm a)"
proof -
  have perm: "\<not> bit (attr_perm a) n" if "12 \<le> n" for n
    using assms that by (metis bit_take_bit_iff not_le)
  show "drop_bit 12 (rux_file_mode a) = ucast (attr_type a)"
    by (rule bit_word_eqI) (auto simp: rux_file_mode_def bit_simps perm dest: bit_imp_le_length)
  show "take_bit 12 (rux_file_mode a) = ucast (attr_perm a)"
    by (rule bit_word_eqI) (auto simp: rux_file_mode_def bit_simps perm dest: bit_imp_le_length)
qed

text \<open>\<open>stat\<close> of an open file encodes its attributes so that they can be decoded: the WASI layer gets
  back the type of the file and its size, the lower bits of the mode are its permissions. The inode number
  is made up from the size and the mode: files that agree in type, permissions and size have the same.\<close>

theorem rux_status_decodes:
  assumes "rux_ready s" "rux_fds T s fd = Some (RuxFile i)" "x_get_attr x i (rux_fs s) = (Ok a, w)"
    and "take_bit 12 (attr_perm a) = attr_perm a"
  shows "\<exists>st. rux_stat x T img fd s = (Ok st, s\<lparr>rux_fs := w\<rparr>) \<and>
    fst_filetype (filestat_of st) = wasi_filetype (ucast (attr_type a)) \<and> fst_size (filestat_of st) = attr_size a \<and>
    take_bit 12 (st_mode st) = ucast (attr_perm a) \<and>
    (\<forall>b. attr_type b = attr_type a \<and> attr_perm b = attr_perm a \<and> attr_size b = attr_size a \<longrightarrow>
      st_ino (rux_convert (rux_file_stat b)) = st_ino st)"
proof -
  have "rux_stat x T img fd s = (Ok (rux_convert (rux_file_stat a)), s\<lparr>rux_fs := w\<rparr>)"
    using assms(2, 3) by (simp add: rux_stat_def act_defs must_ready [OF assms(1)] file_from_fd_ready [OF assms(1)] on_ruxfs_def)
  moreover have "st_mode (rux_convert (rux_file_stat a)) = rux_file_mode a"
    "st_size (rux_convert (rux_file_stat a)) = attr_size a"
    by (simp_all add: rux_convert_def rux_file_stat_def rux_stat_default_def Let_def)
  ultimately show ?thesis using rux_mode_parts [OF assms(4)]
    by (auto simp: filestat_of_def rux_convert_def rux_file_stat_def rux_file_mode_def rux_stat_default_def Let_def)
qed

theorem rux_status_decodes_witness:
  "\<exists>s1 st. rux_open one_file small_table [] ''a'' 0 RD three_streams = (Ok 3, s1) \<and>
    fst (rux_stat one_file small_table [] 3 s1) = Ok st \<and> fst_filetype (filestat_of st) = 4 \<and> fst_size (filestat_of st) = 1"
proof -
  obtain s1 where s1: "rux_open one_file small_table [] ''a'' 0 RD three_streams = (Ok 3, s1)"
    "s1 = three_streams\<lparr>rux_table := [0 \<mapsto> RuxStdin, 1 \<mapsto> RuxStdout, 2 \<mapsto> RuxStdout, 3 \<mapsto> RuxFile ()]\<rparr>"
    by (simp add: three_streams_def one_file_def small_table_def rux_open_def must_exic_def force_static_def
        on_ruxfs_def add_file_like_def must_exec_def act_defs find_upt_8)
  have ready: "rux_ready s1" "rux_fds small_table s1 3 = Some (RuxFile ())"
    by (simp_all add: rux_ready_def rux_fds_def small_table_def s1(2) three_streams_def)
  have attr: "x_get_attr one_file () (rux_fs s1) =
      (Ok \<lparr>attr_type = 8, attr_perm = 0x1FF, attr_size = 1, attr_blocks = 1\<rparr>, rux_fs s1)"
    by (simp add: one_file_def s1(2) three_streams_def)
  have perm: "take_bit 12 (0x1FF :: 16 word) = 0x1FF" by (simp add: take_bit_eq_mod)
  show ?thesis using rux_status_decodes [OF ready attr, of "[]"] s1(1) perm by (auto simp: wasi_filetype_def)
qed

end
