(* ===== verification/Sort_Workflow.thy ===== *)
theory Sort_Workflow
  imports Sort_Functions
begin

text \<open>
  The sorting workflow from end to end: \<open>main\<close> of \<open>user/file_reader\<close>, and the groups of functions that
  \<open>isol_config/parallel_sort.json\<close> and its larger variants describe, readers, sorters, splitters, mergers
  and the checker. The functions of a group run one after the other; each works on slots of its own. A
  new buffer is taken to read as the empty string or array, as the default of its type does.
\<close>

section \<open>The reader\<close>

text \<open>\<open>read_file\<close> opens a file and reads it to a string: an error to open it is returned, one to read it
  is a panic. The slot is registered before the file is opened.\<close>

definition file_reader_main ::
  "(string \<Rightarrow> u64) \<Rightarrow> string \<Rightarrow> (string \<Rightarrow> (string, string) res) \<Rightarrow> (string \<Rightarrow> string option) \<Rightarrow> func" where
  "file_reader_main hash fresh read_file get_arg =
    (case (get_arg ''slot_name'', get_arg ''input_file'') of
       (Some slot_name, Some input_file) \<Rightarrow>
         act_bind (act_modify (slot_put (fp_content hash) slot_name (Str fresh))) (\<lambda>_.
         act_bind (act_lift (read_file input_file)) (\<lambda>content.
         act_modify (slot_put (fp_content hash) slot_name (Str (fresh @ content)))))
     | _ \<Rightarrow> act_panic)"

section \<open>The workflow\<close>

definition sort_file :: "nat \<Rightarrow> string" where
  "sort_file i = ''sort_data_'' @ to_string i @ ''.txt''"

definition reader_args :: "nat \<Rightarrow> string \<Rightarrow> string option" where
  "reader_args i = [''slot_name'' \<mapsto> slot_input (to_string i), ''input_file'' \<mapsto> sort_file i]"

definition sort_args :: "nat \<Rightarrow> nat \<Rightarrow> nat \<Rightarrow> string \<Rightarrow> string option" where
  "sort_args i n k = [''id'' \<mapsto> to_string i, ''sorter_num'' \<mapsto> to_string n, ''merger_num'' \<mapsto> to_string k]"

definition run_sort :: "(string \<Rightarrow> u64) \<Rightarrow> (string \<Rightarrow> (string, string) res) \<Rightarrow> nat \<Rightarrow> nat \<Rightarrow> func" where
  "run_sort hash read_file n k =
    act_bind (act_each (\<lambda>i. file_reader_main hash [] read_file (reader_args i)) [0..<n]) (\<lambda>_.
    act_bind (act_each (\<lambda>i. sorter_main hash [] (sort_args i n k)) [0..<n]) (\<lambda>_.
    act_bind (act_each (\<lambda>i. splitter_main hash (sort_args i n k)) [0..<n]) (\<lambda>_.
    act_each (\<lambda>j. merger_main hash [] (sort_args j n k)) [0..<k])))"

section \<open>One function\<close>

definition array_in :: "(string \<Rightarrow> u64) \<Rightarrow> faas_value slots \<Rightarrow> string \<Rightarrow> u32 list \<Rightarrow> bool" where
  "array_in hash m slot xs = (m slot = Some (fp_array hash, Nums xs))"

lemma slot_names_inject [simp]:
  "slot_input (to_string a) = slot_input (to_string b) \<longleftrightarrow> a = b"
  "slot_sorted (to_string a) = slot_sorted (to_string b) \<longleftrightarrow> a = b"
  "slot_pivots (to_string a) = slot_pivots (to_string b) \<longleftrightarrow> a = b"
  "slot_merged (to_string a) = slot_merged (to_string b) \<longleftrightarrow> a = b"
  by (simp_all add: slot_input_def slot_sorted_def slot_pivots_def slot_merged_def)

lemmas slot_names = slot_split_inject slot_kinds_distinct slot_kinds_distinct [symmetric]

lemma slot_input_merged: "slot_input a \<noteq> slot_merged c" "slot_merged c \<noteq> slot_input a"
  by (simp_all add: slot_input_def slot_merged_def)

lemma slot_split_first: "slot_split (to_string a) b = slot_split (to_string c) d \<Longrightarrow> a = c"
proof -
  assume eq: "slot_split (to_string a) b = slot_split (to_string c) d"
  have no_dash: "CHR ''-'' \<notin> set (to_string n)" for n
    using to_string_digits [of "CHR ''-''" n] by (auto simp: is_ascii_digit_def)
  have "to_string a @ CHR ''-'' # (''resp-part-'' @ b) = to_string c @ CHR ''-'' # (''resp-part-'' @ d)"
    using eq by (simp add: slot_split_def)
  from delimiter_cut [OF no_dash no_dash this] show "a = c" by simp
qed

lemma sort_args_simps [simp]:
  "sort_args i n k ''id'' = Some (to_string i)" "sort_args i n k ''sorter_num'' = Some (to_string n)"
  "sort_args i n k ''merger_num'' = Some (to_string k)"
  by (simp_all add: sort_args_def)

lemma parse_sort_arg:
  "v < 2 ^ w \<Longrightarrow> get_arg name = Some (to_string v) \<Longrightarrow> parse_arg w get_arg name m = (Ok v, m)"
  by (simp add: parse_arg_def parse_uint_to_string act_ret_def)

lemma reader_effect:
  "read_file (sort_file i) = Ok c \<Longrightarrow>
    \<exists>m'. file_reader_main hash [] read_file (reader_args i) m = (Ok (), m') \<and>
      m' = m(slot_input (to_string i) \<mapsto> (fp_content hash, Str c))"
  by (simp add: file_reader_main_def reader_args_def slot_put_def act_defs)

lemma put_pivots:
  "act_each (\<lambda>i. put_array hash (slot_pivots (to_string i)) pivots) js m =
    (Ok (), \<lambda>slot. if \<exists>j \<in> set js. slot = slot_pivots (to_string j) then Some (fp_array hash, Nums pivots) else m slot)"
proof (induction js arbitrary: m)
  case (Cons j js)
  then show ?case by (auto simp: act_bind_def put_array_effect fun_eq_iff)
qed (simp add: act_ret_def)

lemma sorter_effect:
  assumes "n < 2 ^ 32" "k < 2 ^ 32" "m (slot_input (to_string i)) = Some (fp_content hash, Str c)"
    and "parse_numbers (split_on (CHR '','') c) [] = (nums, None)" and "i = 0 \<longrightarrow> choose_pivots (sort nums) k = Ok pivots"
  shows "\<exists>m'. sorter_main hash [] (sort_args i n k) m = (Ok (), m') \<and> array_in hash m' (slot_sorted (to_string i)) (sort nums) \<and>
    (i = 0 \<longrightarrow> (\<forall>j < n. array_in hash m' (slot_pivots (to_string j)) pivots)) \<and>
    (\<forall>slot. slot \<noteq> slot_input (to_string i) \<and> slot \<noteq> slot_sorted (to_string i) \<and> (i = 0 \<longrightarrow> (\<forall>j. slot \<noteq> slot_pivots j)) \<longrightarrow>
      m' slot = m slot)"
proof -
  have args: "parse_arg 64 (sort_args i n k) ''sorter_num'' m' = (Ok n, m')"
    "parse_arg 64 (sort_args i n k) ''merger_num'' m' = (Ok k, m')" for m'
    using assms(1, 2) by (auto intro!: parse_sort_arg)
  have id: "to_string i = ''0'' \<longleftrightarrow> i = 0"
  proof -
    have "to_string 0 = ''0''" by code_simp
    then show ?thesis using to_string_inject [of i 0] by simp
  qed
  let ?m1 = "m(slot_input (to_string i) := None, slot_sorted (to_string i) \<mapsto> (fp_array hash, Nums (sort nums)))"
  let ?m2 = "\<lambda>slot. if \<exists>j \<in> set [0..<n]. slot = slot_pivots (to_string j) then Some (fp_array hash, Nums pivots) else ?m1 slot"
  have content: "take_content hash (slot_input (to_string i)) m = (Ok c, m(slot_input (to_string i) := None))"
    using assms(3) by (simp add: take_content_def slot_take_def act_defs)
  have run: "sorter_main hash [] (sort_args i n k) m = (Ok (), if i = 0 then ?m2 else ?m1)"
    using assms(4, 5) content id put_pivots [of hash pivots "[0..<n]" ?m1]
    by (auto simp: sorter_main_def act_bind_def args put_array_effect act_lift_def act_ret_def Let_def
        simp del: fun_upd_apply)
  show ?thesis
    by (intro exI [of _ "if i = 0 then ?m2 else ?m1"] conjI run) (auto simp: array_in_def slot_names)
qed

lemma splitter_effect:
  assumes "array_in hash m (slot_sorted (to_string i)) numbers" "array_in hash m (slot_pivots (to_string i)) pivots"
  shows "\<exists>m'. splitter_main hash (sort_args i n k) m = (Ok (), m') \<and>
    (\<forall>j < length (split_numbers numbers pivots).
       array_in hash m' (slot_split (to_string i) (to_string j)) (split_numbers numbers pivots ! j)) \<and>
    (\<forall>slot. slot \<noteq> slot_sorted (to_string i) \<and> slot \<noteq> slot_pivots (to_string i) \<and> (\<forall>j. slot \<noteq> slot_split (to_string i) j) \<longrightarrow>
      m' slot = m slot)"
proof -
  let ?m1 = "m(slot_sorted (to_string i) := None, slot_pivots (to_string i) := None)"
  let ?name = "\<lambda>j. slot_split (to_string i) (to_string j)"
  have inj: "inj ?name" by (rule injI) (simp add: slot_split_inject)
  obtain m' where m': "act_each (\<lambda>(idx, xs). put_array hash (?name idx) xs)
      (List.enumerate 0 (split_numbers numbers pivots)) ?m1 = (Ok (), m')"
    "\<forall>j. m' (?name j) = (if 0 \<le> j \<and> j < 0 + length (split_numbers numbers pivots)
       then Some (fp_array hash, Nums (split_numbers numbers pivots ! (j - 0))) else ?m1 (?name j))"
    "\<forall>slot. (\<forall>j. slot \<noteq> ?name j) \<longrightarrow> m' slot = ?m1 slot"
    using put_all_effect [OF inj, of hash 0 "split_numbers numbers pivots" ?m1] by blast
  have "splitter_main hash (sort_args i n k) m = (Ok (), m')"
    using m'(1) assms by (simp add: splitter_main_def act_bind_def array_in_def take_array_present slot_names)
  then show ?thesis using m'(2, 3) by (intro exI [of _ m']) (auto simp: array_in_def)
qed

lemma merger_effect:
  assumes "n < 2 ^ 32" "\<forall>i < n. array_in hash m (slot_split (to_string i) (to_string j)) (f i)"
  shows "\<exists>m'. merger_main hash [] (sort_args j n k) m = (Ok (), m') \<and>
    array_in hash m' (slot_merged (to_string j)) (merge_partitions (map f [0..<n]) []) \<and>
    (\<forall>slot. slot \<noteq> slot_merged (to_string j) \<and> (\<forall>i. slot \<noteq> slot_split (to_string i) (to_string j)) \<longrightarrow> m' slot = m slot)"
proof -
  have inj: "inj (\<lambda>i. slot_split (to_string i) (to_string j))" by (rule injI) (simp add: slot_split_inject)
  have "act_collect (\<lambda>idx. take_array hash (slot_split (to_string idx) (to_string j))) [0..<n] m =
      (Ok (map f [0..<n]), (\<lambda>slot. if \<exists>i \<in> set [0..<n]. slot = slot_split (to_string i) (to_string j) then None else m slot))"
    using assms(2) by (intro take_all_effect [OF inj]) (auto simp: array_in_def)
  moreover have "parse_arg 32 (sort_args j n k) ''sorter_num'' m' = (Ok n, m')" for m'
    using assms(1) by (auto intro!: parse_sort_arg)
  ultimately show ?thesis by (auto simp: merger_main_def act_bind_def put_array_effect array_in_def)
qed

section \<open>The groups\<close>

lemma upt_split:
  assumes "[0..<n] = ys @ x # zs"
  shows "x = length ys \<and> x < n \<and> set ys = {..<x}"
proof -
  have len: "length ys < n" using arg_cong [OF assms, of length] by simp
  then have "x = length ys" using arg_cong [OF assms, of "\<lambda>xs. xs ! length ys"] by (simp add: nth_append)
  moreover have "ys = [0..<length ys]" using arg_cong [OF assms, of "take (length ys)"] len by simp
  ultimately show ?thesis using len by (metis atLeast_upt)
qed

lemma readers_effect:
  assumes "\<forall>i < n. read_file (sort_file i) = Ok (texts i)"
  shows "\<exists>m'. act_each (\<lambda>i. file_reader_main hash [] read_file (reader_args i)) [0..<n] m = (Ok (), m') \<and>
    (\<forall>i < n. m' (slot_input (to_string i)) = Some (fp_content hash, Str (texts i)))"
proof -
  have "\<exists>m'. act_each (\<lambda>i. file_reader_main hash [] read_file (reader_args i)) [0..<n] m = (Ok (), m') \<and>
      (\<forall>i \<in> set [0..<n]. m' (slot_input (to_string i)) = Some (fp_content hash, Str (texts i)))"
  proof (rule act_each_invariant)
    fix ys x zs m
    assume xs: "[0..<n] = ys @ x # zs" and inv: "\<forall>i \<in> set ys. m (slot_input (to_string i)) = Some (fp_content hash, Str (texts i))"
    have "read_file (sort_file x) = Ok (texts x)" using assms upt_split [OF xs] by simp
    from reader_effect [where read_file = read_file and i = x, OF this, of hash m] inv
    show "\<exists>m'. file_reader_main hash [] read_file (reader_args x) m = (Ok (), m') \<and>
        (\<forall>i \<in> set (ys @ [x]). m' (slot_input (to_string i)) = Some (fp_content hash, Str (texts i)))" by auto
  qed simp
  then show ?thesis by auto
qed

lemma sorters_effect:
  assumes "n < 2 ^ 32" "k < 2 ^ 32" "\<forall>i < n. m (slot_input (to_string i)) = Some (fp_content hash, Str (texts i))"
    and "\<forall>i < n. parse_numbers (split_on (CHR '','') (texts i)) [] = (nums i, None)"
    and "choose_pivots (sort (nums 0)) k = Ok pivots"
  shows "\<exists>m'. act_each (\<lambda>i. sorter_main hash [] (sort_args i n k)) [0..<n] m = (Ok (), m') \<and>
    (\<forall>i < n. array_in hash m' (slot_sorted (to_string i)) (sort (nums i)) \<and> array_in hash m' (slot_pivots (to_string i)) pivots)"
proof -
  let ?I = "\<lambda>ys m. (\<forall>i < n. i \<notin> set ys \<longrightarrow> m (slot_input (to_string i)) = Some (fp_content hash, Str (texts i))) \<and>
    (\<forall>i \<in> set ys. array_in hash m (slot_sorted (to_string i)) (sort (nums i))) \<and>
    (ys \<noteq> [] \<longrightarrow> (\<forall>i < n. array_in hash m (slot_pivots (to_string i)) pivots))"
  have "\<exists>m'. act_each (\<lambda>i. sorter_main hash [] (sort_args i n k)) [0..<n] m = (Ok (), m') \<and> ?I [0..<n] m'"
  proof (rule act_each_invariant)
    show "?I [] m" using assms(3) by simp
    fix ys x zs m
    assume xs: "[0..<n] = ys @ x # zs" and inv: "?I ys m"
    note x = upt_split [OF xs]
    have zero: "ys = [] \<longleftrightarrow> x = 0" using x by auto
    have "m (slot_input (to_string x)) = Some (fp_content hash, Str (texts x))" using inv x by simp
    moreover have "parse_numbers (split_on (CHR '','') (texts x)) [] = (nums x, None)" using assms(4) x by simp
    ultimately obtain m' where m': "sorter_main hash [] (sort_args x n k) m = (Ok (), m')"
      "array_in hash m' (slot_sorted (to_string x)) (sort (nums x))"
      "x = 0 \<longrightarrow> (\<forall>j < n. array_in hash m' (slot_pivots (to_string j)) pivots)"
      "\<forall>slot. slot \<noteq> slot_input (to_string x) \<and> slot \<noteq> slot_sorted (to_string x) \<and> (x = 0 \<longrightarrow> (\<forall>j. slot \<noteq> slot_pivots j)) \<longrightarrow>
        m' slot = m slot"
      using sorter_effect [OF assms(1, 2), of m x hash "texts x" "nums x" pivots] assms(5) by blast
    have "m' (slot_input (to_string i)) = Some (fp_content hash, Str (texts i))" if "i < n" "i \<notin> set (ys @ [x])" for i
      using inv m'(4) that by (simp add: slot_names)
    moreover have "array_in hash m' (slot_sorted (to_string i)) (sort (nums i))" if "i \<in> set (ys @ [x])" for i
      using inv m'(2, 4) that by (cases "i = x") (simp_all add: array_in_def slot_names)
    moreover have "array_in hash m' (slot_pivots (to_string i)) pivots" if "i < n" for i
      using inv m'(3, 4) that zero by (cases "x = 0") (simp_all add: array_in_def slot_names)
    ultimately have "?I (ys @ [x]) m'" by blast
    with m'(1) show "\<exists>m'. sorter_main hash [] (sort_args x n k) m = (Ok (), m') \<and> ?I (ys @ [x]) m'" by blast
  qed
  then show ?thesis by (cases "n = 0") auto
qed

lemma splitters_effect:
  assumes "\<forall>i < n. array_in hash m (slot_sorted (to_string i)) (arrays i) \<and> array_in hash m (slot_pivots (to_string i)) pivots"
    and "\<forall>i < n. length (split_numbers (arrays i) pivots) = k"
  shows "\<exists>m'. act_each (\<lambda>i. splitter_main hash (sort_args i n k)) [0..<n] m = (Ok (), m') \<and>
    (\<forall>i < n. \<forall>j < k. array_in hash m' (slot_split (to_string i) (to_string j)) (split_numbers (arrays i) pivots ! j))"
proof -
  let ?I = "\<lambda>ys m. (\<forall>i < n. i \<notin> set ys \<longrightarrow> array_in hash m (slot_sorted (to_string i)) (arrays i) \<and>
      array_in hash m (slot_pivots (to_string i)) pivots) \<and>
    (\<forall>i \<in> set ys. \<forall>j < k. array_in hash m (slot_split (to_string i) (to_string j)) (split_numbers (arrays i) pivots ! j))"
  have "\<exists>m'. act_each (\<lambda>i. splitter_main hash (sort_args i n k)) [0..<n] m = (Ok (), m') \<and> ?I [0..<n] m'"
  proof (rule act_each_invariant)
    show "?I [] m" using assms(1) by simp
    fix ys x zs m
    assume xs: "[0..<n] = ys @ x # zs" and inv: "?I ys m"
    note x = upt_split [OF xs]
    have "array_in hash m (slot_sorted (to_string x)) (arrays x)" "array_in hash m (slot_pivots (to_string x)) pivots"
      using inv x by auto
    from splitter_effect [OF this, of n k] assms(2) x obtain m' where m': "splitter_main hash (sort_args x n k) m = (Ok (), m')"
      "\<forall>j < k. array_in hash m' (slot_split (to_string x) (to_string j)) (split_numbers (arrays x) pivots ! j)"
      "\<forall>slot. slot \<noteq> slot_sorted (to_string x) \<and> slot \<noteq> slot_pivots (to_string x) \<and> (\<forall>j. slot \<noteq> slot_split (to_string x) j) \<longrightarrow>
        m' slot = m slot" by auto
    have "slot_split (to_string i) (to_string j) \<noteq> slot_split (to_string x) b" if "i \<noteq> x" for i j b
      using that slot_split_first by blast
    then have "array_in hash m' (slot_split (to_string i) (to_string j)) (split_numbers (arrays i) pivots ! j)"
      if "i \<in> set (ys @ [x])" "j < k" for i j
      using inv m'(2, 3) that by (cases "i = x") (simp_all add: array_in_def slot_names)
    moreover have "array_in hash m' (slot_sorted (to_string i)) (arrays i) \<and> array_in hash m' (slot_pivots (to_string i)) pivots"
      if "i < n" "i \<notin> set (ys @ [x])" for i
      using inv m'(3) that by (simp add: array_in_def slot_names)
    ultimately have "?I (ys @ [x]) m'" by blast
    with m'(1) show "\<exists>m'. splitter_main hash (sort_args x n k) m = (Ok (), m') \<and> ?I (ys @ [x]) m'" by blast
  qed
  then show ?thesis by auto
qed


lemma mergers_effect:
  assumes "n < 2 ^ 32"
    and "\<forall>i < n. \<forall>j < k. array_in hash m (slot_split (to_string i) (to_string j)) (part i j)"
  shows "\<exists>m'. act_each (\<lambda>j. merger_main hash [] (sort_args j n k)) [0..<k] m = (Ok (), m') \<and>
    (\<forall>j < k. array_in hash m' (slot_merged (to_string j)) (merge_partitions (map (\<lambda>i. part i j) [0..<n]) []))"
proof -
  let ?I = "\<lambda>ys m. (\<forall>i < n. \<forall>j < k. j \<notin> set ys \<longrightarrow> array_in hash m (slot_split (to_string i) (to_string j)) (part i j)) \<and>
    (\<forall>j \<in> set ys. array_in hash m (slot_merged (to_string j)) (merge_partitions (map (\<lambda>i. part i j) [0..<n]) []))"
  have "\<exists>m'. act_each (\<lambda>j. merger_main hash [] (sort_args j n k)) [0..<k] m = (Ok (), m') \<and> ?I [0..<k] m'"
  proof (rule act_each_invariant)
    show "?I [] m" using assms(2) by simp
    fix ys x zs m
    assume xs: "[0..<k] = ys @ x # zs" and inv: "?I ys m"
    note x = upt_split [OF xs]
    have "\<forall>i < n. array_in hash m (slot_split (to_string i) (to_string x)) (part i x)" using inv x by auto
    from merger_effect [OF assms(1) this, of k] obtain m' where m': "merger_main hash [] (sort_args x n k) m = (Ok (), m')"
      "array_in hash m' (slot_merged (to_string x)) (merge_partitions (map (\<lambda>i. part i x) [0..<n]) [])"
      "\<forall>slot. slot \<noteq> slot_merged (to_string x) \<and> (\<forall>i. slot \<noteq> slot_split (to_string i) (to_string x)) \<longrightarrow> m' slot = m slot"
      by blast
    have "array_in hash m' (slot_split (to_string i) (to_string j)) (part i j)"
      if "i < n" "j < k" "j \<notin> set (ys @ [x])" for i j
      using inv m'(3) that by (simp add: array_in_def slot_names)
    moreover have "array_in hash m' (slot_merged (to_string j)) (merge_partitions (map (\<lambda>i. part i j) [0..<n]) [])"
      if "j \<in> set (ys @ [x])" for j
      using inv m'(2, 3) that by (cases "j = x") (simp_all add: array_in_def slot_names)
    ultimately have "?I (ys @ [x]) m'" by blast
    with m'(1) show "\<exists>m'. merger_main hash [] (sort_args x n k) m = (Ok (), m') \<and> ?I (ys @ [x]) m'" by blast
  qed
  then show ?thesis by auto
qed

lemma check_loop_accepts:
  assumes "distinct js" "\<forall>j \<in> set js. array_in hash m (slot_merged (to_string j)) (outs j)"
    "sorted (concat (map outs js))" "\<forall>x \<in> set (concat (map outs js)). last_max \<le> x"
  shows "fst (check_loop hash last_max js m) = Ok ()"
  using assms
proof (induction js arbitrary: m last_max)
  case (Cons j js)
  let ?m = "m(slot_merged (to_string j) := None)"
  have take: "take_array hash (slot_merged (to_string j)) m = (Ok (outs j), ?m)"
    using Cons.prems(2) by (intro take_array_present) (simp add: array_in_def)
  have srt: "sorted (outs j)" "sorted (concat (map outs js))" using Cons.prems(3) by (simp_all add: sorted_append)
  have rest: "\<forall>i \<in> set js. array_in hash ?m (slot_merged (to_string i)) (outs i)"
    using Cons.prems(1, 2) by (auto simp: array_in_def)
  note IH = Cons.IH [OF _ rest srt(2)] and prems = Cons.prems
  show ?case
  proof (cases "outs j")
    case Nil
    then show ?thesis using IH [of last_max] prems(1, 4) take by (simp add: act_bind_def del: fun_upd_apply)
  next
    case (Cons a xs)
    have "\<forall>x \<in> set (concat (map outs js)). a \<le> x" using prems(3) Cons by (auto simp: sorted_append)
    moreover have "\<not> a < last_max" using prems(4) Cons by auto
    ultimately show ?thesis using IH [of a] prems(1) take Cons srt(1) by (simp add: act_bind_def del: fun_upd_apply)
  qed
qed (simp add: act_ret_def)

lemma choose_pivots_ok:
  assumes "choose_pivots (sort array) k = Ok pivots"
  shows "k = Suc (length pivots) \<and> sorted pivots"
proof (cases "sort array = []")
  case True
  have k: "0 < k" using assms by (auto simp: choose_pivots_def split: if_splits)
  with choose_pivots_sorted [of "sort array" k] True assms have "k = 1" by (cases "1 < k") auto
  with assms show ?thesis by (simp add: choose_pivots_def)
next
  case False
  have "0 < k" using assms by (auto simp: choose_pivots_def split: if_splits)
  with choose_pivots_sorted [of "sort array" k] False assms show ?thesis by auto
qed

section \<open>The whole workflow\<close>

lemma run_sort_effect:
  assumes "n < 2 ^ 32" "k < 2 ^ 32"
    and "\<forall>i < n. read_file (sort_file i) = Ok (texts i)"
    and "\<forall>i < n. parse_numbers (split_on (CHR '','') (texts i)) [] = (nums i, None)"
    and "choose_pivots (sort (nums 0)) k = Ok pivots"
    and "\<forall>i < n. length (split_numbers (sort (nums i)) pivots) = k"
  shows "\<exists>m. run_sort hash read_file n k Map.empty = (Ok (), m) \<and> (\<forall>j < k. array_in hash m (slot_merged (to_string j))
    (merge_all k (split_all (map (\<lambda>i. sort (nums i)) [0..<n]) pivots) ! j))"
proof -
  obtain m1 where m1: "act_each (\<lambda>i. file_reader_main hash [] read_file (reader_args i)) [0..<n] Map.empty = (Ok (), m1)"
    "\<forall>i < n. m1 (slot_input (to_string i)) = Some (fp_content hash, Str (texts i))"
    using readers_effect [OF assms(3), of hash Map.empty] by blast
  obtain m2 where m2: "act_each (\<lambda>i. sorter_main hash [] (sort_args i n k)) [0..<n] m1 = (Ok (), m2)"
    "\<forall>i < n. array_in hash m2 (slot_sorted (to_string i)) (sort (nums i)) \<and> array_in hash m2 (slot_pivots (to_string i)) pivots"
    using sorters_effect [OF assms(1, 2) m1(2) assms(4, 5)] by blast
  obtain m3 where m3: "act_each (\<lambda>i. splitter_main hash (sort_args i n k)) [0..<n] m2 = (Ok (), m3)"
    "\<forall>i < n. \<forall>j < k. array_in hash m3 (slot_split (to_string i) (to_string j)) (split_numbers (sort (nums i)) pivots ! j)"
    using splitters_effect [OF m2(2) assms(6)] by blast
  obtain m4 where m4: "act_each (\<lambda>j. merger_main hash [] (sort_args j n k)) [0..<k] m3 = (Ok (), m4)"
    "\<forall>j < k. array_in hash m4 (slot_merged (to_string j))
      (merge_partitions (map (\<lambda>i. split_numbers (sort (nums i)) pivots ! j) [0..<n]) [])"
    using mergers_effect [OF assms(1) m3(2)] by blast
  have "run_sort hash read_file n k Map.empty = (Ok (), m4)"
    using m1(1) m2(1) m3(1) m4(1) by (simp add: run_sort_def act_bind_def)
  moreover have "\<forall>j < k. array_in hash m4 (slot_merged (to_string j)) (merge_all k (split_all (map (\<lambda>i. sort (nums i)) [0..<n]) pivots) ! j)"
    using m4(2) by (simp add: merge_all_def split_all_def comp_def)
  ultimately show ?thesis by blast
qed

text \<open>C1: The sorting workflow sorts. When every input file reads as a list of numbers, pivots can be taken
  from the first, and every sorter's numbers reach past the last pivot, the readers, sorters, splitters and
  mergers of the workflow all succeed; the results of the mergers one after the other are the numbers of all
  the files in order, except those equal to \<open>u32::MAX\<close>, which are lost; and the checker accepts them.\<close>

theorem sort_workflow_sorts:
  assumes "n < 2 ^ 32" "k < 2 ^ 32" "0 < n"
    and "\<forall>i < n. read_file (sort_file i) = Ok (texts i)"
    and "\<forall>i < n. parse_numbers (split_on (CHR '','') (texts i)) [] = (nums i, None)"
    and "choose_pivots (sort (nums 0)) k = Ok pivots"
    and "\<forall>i < n. length (split_numbers (sort (nums i)) pivots) = k"
  shows "\<exists>m outs. run_sort hash read_file n k Map.empty = (Ok (), m) \<and> length outs = k \<and>
    (\<forall>j < k. array_in hash m (slot_merged (to_string j)) (outs ! j)) \<and> sorted (concat outs) \<and>
    mset (concat outs) = filter_mset (\<lambda>x. x \<noteq> - 1) (mset (concat (map nums [0..<n]))) \<and>
    fst (checker_main hash (sort_args i n k) m) = Ok ()"
proof -
  let ?arrays = "map (\<lambda>i. sort (nums i)) [0..<n]"
  let ?outs = "merge_all k (split_all ?arrays pivots)"
  note k = choose_pivots_ok [OF assms(6)]
  obtain m where run: "run_sort hash read_file n k Map.empty = (Ok (), m)"
    and outs: "\<forall>j < k. array_in hash m (slot_merged (to_string j)) (?outs ! j)"
    using run_sort_effect [OF assms(1, 2, 4-7), of hash] by blast
  have merged: "sorted (concat ?outs)" "mset (concat ?outs) = filter_mset (\<lambda>x. x \<noteq> - 1) (mset (concat ?arrays))"
    using merge_of_splits [of ?arrays pivots] assms(7) k by auto
  have "mset (concat ?arrays) = mset (concat (map nums [0..<n]))" by (simp add: mset_concat comp_def)
  moreover have "length ?outs = k" by (simp add: merge_all_def)
  moreover have "fst (checker_main hash (sort_args i n k) m) = Ok ()"
  proof -
    have "map (\<lambda>j. ?outs ! j) [0..<k] = ?outs" by (simp add: merge_all_def)
    then have "fst (check_loop hash 0 [0..<k] m) = Ok ()"
      using outs merged(1) by (intro check_loop_accepts [where outs = "\<lambda>j. ?outs ! j"]) auto
    moreover have "parse_arg 32 (sort_args i n k) ''merger_num'' m = (Ok k, m)"
      using assms(2) by (auto intro!: parse_sort_arg)
    ultimately show ?thesis by (simp add: checker_main_def act_bind_def)
  qed
  ultimately show ?thesis using run outs merged by (intro exI [of _ m] exI [of _ ?outs]) simp
qed

theorem sort_workflow_sorts_witness:
  "\<exists>m outs. run_sort (\<lambda>_. 9) (\<lambda>f. Ok (if f = sort_file 0 then ''7, 1'' else ''5,4'')) 2 2 Map.empty = (Ok (), m) \<and>
    sorted (concat outs) \<and> mset (concat outs) = {#7, 1, 5, 4 :: u32#} \<and>
    (\<forall>j < 2. array_in (\<lambda>_. 9) m (slot_merged (to_string j)) (outs ! j))"
proof -
  let ?read = "\<lambda>f. Ok (if f = sort_file 0 then ''7, 1'' else ''5,4'') :: (string, string) res"
  let ?texts = "\<lambda>i :: nat. if i = 0 then ''7, 1'' else ''5,4''"
  let ?nums = "\<lambda>i :: nat. if i = 0 then [7, 1] else [5, 4 :: u32]"
  have "\<forall>i < 2. ?read (sort_file i) = Ok (?texts i)" by (simp add: sort_file_def)
  moreover have pieces: "split_on (CHR '','') ''7, 1'' = [''7'', '' 1'']" "split_on (CHR '','') ''5,4'' = [''5'', ''4'']"
    by (code_simp, code_simp)
  have "parse_numbers [''7'', '' 1''] [] = ([7, 1], None)" "parse_numbers [''5'', ''4''] [] = ([5, 4], None)"
    by (simp_all add: trim_def is_ws_def parse_uint_def is_ascii_digit_def digit_val_def)
  then have "\<forall>i < 2. parse_numbers (split_on (CHR '','') (?texts i)) [] = (?nums i, None)" using pieces by simp
  moreover have srt: "sort [7, 1] = [1, 7 :: u32]" "sort [5, 4] = [4, 5 :: u32]" by (simp_all add: word_le_nat_alt word_less_nat_alt)
  have "choose_pivots [1, 7] 2 = Ok [7 :: u32]" by code_simp
  then have "choose_pivots (sort (?nums 0)) 2 = Ok [7]" using srt by simp
  moreover have "length (split_numbers [1, 7] [7 :: u32]) = 2" "length (split_numbers [4, 5] [7 :: u32]) = 2"
    by (code_simp, code_simp)
  then have "\<forall>i < 2. length (split_numbers (sort (?nums i)) [7]) = 2" using srt by simp
  moreover have "(2 :: nat) < 2 ^ 32" "0 < (2 :: nat)" by simp_all
  ultimately obtain m outs where "run_sort (\<lambda>_. 9) ?read 2 2 Map.empty = (Ok (), m)" "sorted (concat outs)"
    "mset (concat outs) = filter_mset (\<lambda>x. x \<noteq> - 1) (mset (concat (map ?nums [0..<2])))"
    "\<forall>j < 2. array_in (\<lambda>_. 9) m (slot_merged (to_string j)) (outs ! j)"
    using sort_workflow_sorts [of 2 2 ?read ?texts ?nums "[7]" "\<lambda>_. 9" 0] by blast
  moreover have "[0..<2] = [0, 1]" by code_simp
  ultimately show ?thesis by (intro exI [of _ m] exI [of _ outs]) simp
qed

end
