(* ===== verification/File_Buffers.thy ===== *)
theory File_Buffers
  imports As_Io_Props
begin

text \<open>
  Data buffers kept in files: the variant of \<open>DataBuffer\<close> that \<open>as_std/src/agent.rs\<close> has under the feature
  \<open>file-based\<close>, over the files of \<open>as_std\<close> and so over the descriptor service and the FAT service. The
  value of a buffer is written as JSON when its producer drops it, and parsed when its consumer opens it;
  \<open>serde_json\<close> is a parameter.
\<close>

record 'v FileBuffer =
  fb_inner :: 'v
  fb_slot :: string
  fb_used :: bool

definition imd_name :: "string \<Rightarrow> string" where
  "imd_name slot = slot @ ''.imd''"

definition file_with_slot :: "'v \<Rightarrow> string \<Rightarrow> 'v FileBuffer" where
  "file_with_slot default_value slot = \<lparr>fb_inner = default_value, fb_slot = slot, fb_used = False\<rparr>"

text \<open>\<open>from_buffer_slot\<close>: a file that cannot be opened is a slot that is not there; the file is closed at
  the end. Reading may go on forever in general, so the value is an option.\<close>

definition file_from_slot ::
  "'w FdBackend \<Rightarrow> (byte list \<Rightarrow> (string, 'v) res) \<Rightarrow> string \<Rightarrow> 'w FdState \<Rightarrow>
   ((FdtabError, 'v FileBuffer option) res \<times> 'w FdState) option" where
  "file_from_slot b from_slice slot s =
    (case File_open b (imd_name slot) s of
       (Err e, s1) \<Rightarrow> Some (Ok None, s1)
     | (Panic, s1) \<Rightarrow> Some (Panic, s1)
     | (Ok content, s1) \<Rightarrow>
         (case read_to_end (File_read b content) [] 0 s1 of
            None \<Rightarrow> None
          | Some (Ok sz, buffer, s2) \<Rightarrow>
              (case from_slice buffer of
                 Ok v \<Rightarrow> Some (act_bind (File_drop b content) (\<lambda>_.
                   act_ret (Some \<lparr>fb_inner = v, fb_slot = slot, fb_used = True\<rparr>)) s2)
               | _ \<Rightarrow> Some (Panic, s2))
          | Some (_, buffer, s2) \<Rightarrow> Some (Panic, s2)))"

definition file_drop :: "'w FdBackend \<Rightarrow> ('v \<Rightarrow> (string, byte list) res) \<Rightarrow> 'v FileBuffer \<Rightarrow> ('w, unit) fd_act" where
  "file_drop b to_json buf =
    (if fb_used buf then act_ret ()
     else act_bind (act_unwrap (File_create b (imd_name (fb_slot buf)))) (\<lambda>content.
       act_bind (act_unwrap (act_lift (to_json (fb_inner buf)))) (\<lambda>data_str.
       act_bind (act_unwrap (File_write_str b content data_str)) (\<lambda>_.
       File_drop b content))))"

section \<open>Files of the FAT service by name\<close>

text \<open>What the \<open>fatfs\<close> crate is documented to do with a file, while the disk has room: \<open>content\<close> gives the
  bytes of the files by name, \<open>at\<close> the name and the cursor of an open file, \<open>valid\<close> the names it accepts.
  Creating a file that exists opens it and leaves its bytes; a write replaces the bytes at the cursor.\<close>

definition stored :: "('w \<Rightarrow> string \<Rightarrow> byte list option) \<Rightarrow> ('f \<Rightarrow> string \<times> nat) \<Rightarrow> 'f \<times> 'w \<Rightarrow> byte list" where
  "stored content at fw =
    drop (snd (at (fst fw))) (case content (snd fw) (fst (at (fst fw))) of Some cs \<Rightarrow> cs | None \<Rightarrow> [])"

definition fat_files ::
  "('w, 'f) FatCrate \<Rightarrow> (string \<Rightarrow> bool) \<Rightarrow> ('w \<Rightarrow> string \<Rightarrow> byte list option) \<Rightarrow> ('f \<Rightarrow> string \<times> nat) \<Rightarrow> bool" where
  "fat_files c valid content at =
    (reads_rest c (stored content at) \<and>
     (\<forall>n fw. content (snd (snd (c_read c n fw))) = content (snd fw)) \<and>
     (\<forall>p w. valid p \<longrightarrow> (\<exists>f w'. c_create_file c p w = (Ok f, w') \<and> at f = (p, 0) \<and>
        content w' = (content w)(p \<mapsto> case content w p of Some cs \<Rightarrow> cs | None \<Rightarrow> []))) \<and>
     (\<forall>p w cs. content w p = Some cs \<longrightarrow> (\<exists>f w'. c_open_file c p w = (Ok f, w') \<and> at f = (p, 0) \<and> content w' = content w)) \<and>
     (\<forall>bs f w p cs. at f = (p, 0) \<and> content w p = Some cs \<longrightarrow> (\<exists>f' w'. c_write_all c bs (f, w) = (Ok (), f', w') \<and>
        content w' = (content w)(p \<mapsto> bs @ drop (length bs) cs))) \<and>
     (\<forall>f w. \<exists>f' w'. c_flush c (f, w) = (Ok (), f', w') \<and> content w' = content w) \<and>
     (\<forall>f w. content (c_drop c f w) = content w))"

lemma fat_filesD:
  assumes "fat_files c valid content at"
  shows "reads_rest c (stored content at)" "content (snd (snd (c_read c n fw))) = content (snd fw)"
    "valid p \<Longrightarrow> \<exists>f w'. c_create_file c p w = (Ok f, w') \<and> at f = (p, 0) \<and>
       content w' = (content w)(p \<mapsto> case content w p of Some cs \<Rightarrow> cs | None \<Rightarrow> [])"
    "content w p = Some cs \<Longrightarrow> \<exists>f w'. c_open_file c p w = (Ok f, w') \<and> at f = (p, 0) \<and> content w' = content w"
    "at f = (p, 0) \<Longrightarrow> content w p = Some cs \<Longrightarrow> \<exists>f' w'. c_write_all c bs (f, w) = (Ok (), f', w') \<and>
       content w' = (content w)(p \<mapsto> bs @ drop (length bs) cs)"
    "\<exists>f' w'. c_flush c (f, w) = (Ok (), f', w') \<and> content w' = content w"
    "content (c_drop c f w) = content w"
  using assms unfolding fat_files_def by blast+

text \<open>The service is mounted and works, with room for \<open>k\<close> more descriptors.\<close>

definition fat_ready :: "nat \<Rightarrow> ('w, 'f, 'n) os_state \<Rightarrow> bool" where
  "fat_ready k s = (\<not> poisoned (fst (services s)) \<and> FS_REF_ADDR (fst (services s)) \<and> fdvec_ok k (FD_TABLE s) \<and>
     fatvec_ok k (FTABLE (fst (services s))))"

definition opened_as :: "Fd \<Rightarrow> OpenMode \<Rightarrow> Fd \<Rightarrow> 'f \<Rightarrow> ('w, 'f, 'n) os_state \<Rightarrow> bool" where
  "opened_as fd mode h f s = (fd_lookup s fd = Some \<lparr>file_mode = mode, file_src = FatFS h\<rparr> \<and>
     fat_lookup (fst (services s)) h = Some f)"

lemma lib_open:
  assumes "fat_ready (Suc k) s"
    and "(if flags_contain flags O_CREAT then c_create_file c p else c_open_file c p) (fs (fst (services s))) = (Ok f, w)"
  shows "\<exists>fd h s'. fd_open (libos_backend c img net) p flags mode s = (Ok fd, s') \<and> opened_as fd mode h f s' \<and>
    fs (fst (services s')) = w \<and> fat_ready k s' \<and> fd_lookup s fd = None \<and> (fd_lookup s')(fd := None) = fd_lookup s"
proof -
  obtain t n where sv: "services s = (t, n)" by (cases "services s")
  obtain h T where add: "fat_add_file f (FTABLE t) = (h, T)" by (cases "fat_add_file f (FTABLE t)")
  let ?t = "t\<lparr>FTABLE := T, fs := w\<rparr>"
  let ?s = "s\<lparr>services := (?t, n)\<rparr>"
  have rdy: "\<not> poisoned t" "FS_REF_ADDR t" "fdvec_ok (Suc k) (FD_TABLE s)" "fatvec_ok (Suc k) (FTABLE t)"
    using assms(1) by (auto simp: fat_ready_def sv)
  have opn: "fatfs_open c img p flags t = (Ok h, ?t)"
    using assms(2) rdy by (simp add: fatfs_open_def lock_table_def act_bind_def get_fs_ref_def sv add)
  obtain r s' where inst: "install_file \<lparr>file_mode = mode, file_src = FatFS h\<rparr> ?s = (r, s')"
    by (cases "install_file \<lparr>file_mode = mode, file_src = FatFS h\<rparr> ?s")
  obtain fd where fd: "r = Ok fd" "fd_lookup s fd = None"
    "fd_lookup s' = (fd_lookup s)(fd \<mapsto> \<lparr>file_mode = mode, file_src = FatFS h\<rparr>)" "services s' = (?t, n)" "fdvec_ok k (FD_TABLE s')"
    using install_file_effect [OF _ inst, of k] rdy(3) by auto
  have "fd_open (libos_backend c img net) p flags mode s = (Ok fd, s')"
    using opn inst fd(1) by (simp add: fd_open_def act_bind_def libos_backend_def call_fat_def on_fat_def sv)
  moreover have "fat_lookup ?t h = Some f" using fatvec.lookup_add [OF rdy(4) add, of h] by simp
  moreover have "fatvec_ok k T" by (rule fatvec.ok_add [OF rdy(4) add])
  moreover have "(fd_lookup s')(fd := None) = fd_lookup s" using fd(2, 3) by auto
  ultimately show ?thesis using rdy(1, 2) fd by (auto simp: opened_as_def fat_ready_def)
qed

lemma lib_close:
  assumes "fat_ready k s" "opened_as fd mode h f s"
  shows "\<exists>s'. fd_close (libos_backend c img net) fd s = (Ok (), s') \<and> fat_ready k s' \<and>
    fd_lookup s' = (fd_lookup s)(fd := None) \<and> fs (fst (services s')) = c_drop c f (fs (fst (services s)))"
proof -
  obtain t n where sv: "services s = (t, n)" by (cases "services s")
  have rdy: "\<not> poisoned t" "FS_REF_ADDR t" "fdvec_ok k (FD_TABLE s)" "fatvec_ok k (FTABLE t)"
    using assms(1) by (auto simp: fat_ready_def sv)
  have opn: "fd_lookup s fd = Some \<lparr>file_mode = mode, file_src = FatFS h\<rparr>" "fat_lookup t h = Some f"
    using assms(2) by (auto simp: opened_as_def sv)
  have fd: "\<not> fd \<le> 2" using installed_not_reserved [OF opn(1)] .
  obtain x T where rm: "remove_file fd (FD_TABLE s) = (x, T)" by (cases "remove_file fd (FD_TABLE s)")
  have x: "x = Ok (Some \<lparr>file_mode = mode, file_src = FatFS h\<rparr>)"
    using remove_file_lookup [of fd "FD_TABLE s"] fd rm opn(1) by (simp add: not_reserved)
  have frm: "fat_remove_file h (FTABLE t) = (Ok (), (FTABLE t)[unat h := None])"
    using opn(2) by (auto simp: fat_remove_file_def fatvec_lookup_def split: option.splits bind_splits)
  let ?t = "t\<lparr>FTABLE := (FTABLE t)[unat h := None], fs := c_drop c f (fs t)\<rparr>"
  have "fd_close (libos_backend c img net) fd s = (Ok (), s\<lparr>FD_TABLE := T, services := (?t, n)\<rparr>)"
    using rdy(1) opn(2) fd
    by (simp add: fd_close_def rm x libos_backend_def call_fat_def on_fat_def sv fatfs_close_def lock_table_def frm)
  moreover have "fdvec_lookup T = (fd_lookup s)(fd := None)"
    using fdvec.lookup_rm [OF rdy(3), of fd] rm by (auto simp: fun_eq_iff)
  moreover have "fdvec_ok k T" using fdvec.ok_rm [OF rdy(3), of fd] rm by simp
  moreover have "fatvec_ok k ((FTABLE t)[unat h := None])" using rdy(4) by (simp add: fatvec_ok_def)
  ultimately show ?thesis using rdy(1, 2) by (auto simp: fat_ready_def sv)
qed

lemma lib_write:
  assumes "fat_ready k s" "opened_as fd RDWR h f s"
    and "c_write_all c buf (f, fs (fst (services s))) = (Ok (), f1, w1)" "c_flush c (f1, w1) = (Ok (), f2, w2)"
  shows "\<exists>s'. fd_write (libos_backend c img net) fd buf s = (Ok (length buf), s') \<and> fat_ready k s' \<and>
    opened_as fd RDWR h f2 s' \<and> FD_TABLE s' = FD_TABLE s \<and> fs (fst (services s')) = w2"
proof -
  obtain t n where sv: "services s = (t, n)" by (cases "services s")
  let ?t = "t\<lparr>FTABLE := (FTABLE t)[unat h := Some f2], fs := w2\<rparr>"
  have opn: "fd_lookup s fd = Some \<lparr>file_mode = RDWR, file_src = FatFS h\<rparr>" "fat_lookup t h = Some f"
    using assms(2) by (auto simp: opened_as_def sv)
  have fd: "\<not> fd \<le> 2" using installed_not_reserved [OF opn(1)] .
  then have streams: "fd \<noteq> 0" "fd \<noteq> 1" "fd \<noteq> 2" by auto
  have "fatfs_write c h buf t = (Ok (length buf), ?t)"
    using assms(1, 3, 4) opn(2) by (simp add: fatfs_write_def lock_table_def on_file_def write_and_flush_def act_bind_def
        fat_ready_def sv)
  then have "fd_write (libos_backend c img net) fd buf s = (Ok (length buf), s\<lparr>services := (?t, n)\<rparr>)"
    using opn(1) fd streams by (simp add: fd_write_def with_open_file_eq can_write_def open_mode_defs libos_backend_def
        call_fat_def on_fat_def sv)
  moreover have "fat_lookup ?t h = Some f2" using fatvec_lookup_update [OF opn(2), of f2] by simp
  ultimately show ?thesis using assms(1) opn(1) by (auto simp: fat_ready_def opened_as_def sv fatvec_ok_def)
qed

section \<open>The producer\<close>

lemma write_str_effect:
  assumes files: "fat_files c valid content at" and "fat_ready k s" "opened_as fd RDWR h f s"
    and "at f = (p, 0)" "content (fs (fst (services s))) p = Some cs"
  shows "\<exists>f' s'. File_write_str (libos_backend c img net) \<lparr>raw_fd = fd\<rparr> data s = (Ok (), s') \<and> fat_ready k s' \<and>
    opened_as fd RDWR h f' s' \<and> FD_TABLE s' = FD_TABLE s \<and>
    content (fs (fst (services s'))) = (content (fs (fst (services s))))(p \<mapsto> data @ drop (length data) cs)"
proof (cases "data = []")
  case True
  then show ?thesis using assms(2, 3, 5)
    by (intro exI [of _ f] exI [of _ s]) (auto simp: File_write_str_def act_map_err_def write_all.simps)
next
  case False
  obtain f1 w1 f2 w2 where w: "c_write_all c data (f, fs (fst (services s))) = (Ok (), f1, w1)"
    "content w1 = (content (fs (fst (services s))))(p \<mapsto> data @ drop (length data) cs)"
    "c_flush c (f1, w1) = (Ok (), f2, w2)" "content w2 = content w1"
    using fat_filesD(5) [OF files assms(4, 5), of data] fat_filesD(6) [OF files] by metis
  obtain s' where s': "fd_write (libos_backend c img net) fd data s = (Ok (length data), s')" "fat_ready k s'"
    "opened_as fd RDWR h f2 s'" "FD_TABLE s' = FD_TABLE s" "fs (fst (services s')) = w2"
    using lib_write [OF assms(2, 3) w(1, 3)] by blast
  have "File_write_str (libos_backend c img net) \<lparr>raw_fd = fd\<rparr> data s = (Ok (), s')"
    using s'(1) False by (simp add: File_write_str_def act_map_err_def File_write_def write_all.simps [of _ data]
        write_all.simps [of _ "[]"])
  with s' w show ?thesis by auto
qed

lemma file_drop_effect:
  assumes files: "fat_files c valid content at" and "fat_ready (Suc k) s" "valid (imd_name slot)" "to_json v = Ok data"
    and "old = (case content (fs (fst (services s))) (imd_name slot) of Some cs \<Rightarrow> cs | None \<Rightarrow> [])"
  shows "\<exists>s'. file_drop (libos_backend c img net) to_json \<lparr>fb_inner = v, fb_slot = slot, fb_used = False\<rparr> s = (Ok (), s') \<and>
    fat_ready k s' \<and> fd_lookup s' = fd_lookup s \<and>
    content (fs (fst (services s'))) = (content (fs (fst (services s))))(imd_name slot \<mapsto> data @ drop (length data) old)"
proof -
  let ?b = "libos_backend c img net" and ?p = "imd_name slot"
  obtain f w where f: "c_create_file c ?p (fs (fst (services s))) = (Ok f, w)" "at f = (?p, 0)"
    "content w = (content (fs (fst (services s))))(?p \<mapsto> old)"
    using fat_filesD(3) [OF files assms(3)] assms(5) by blast
  have "(if flags_contain O_CREAT O_CREAT then c_create_file c ?p else c_open_file c ?p) (fs (fst (services s))) = (Ok f, w)"
    using f(1) by (simp add: open_mode_defs)
  from lib_open [OF assms(2) this, of img net RDWR] obtain fd h s1 where
    s1: "fd_open ?b ?p O_CREAT RDWR s = (Ok fd, s1)" "opened_as fd RDWR h f s1" "fs (fst (services s1)) = w" "fat_ready k s1"
    "(fd_lookup s1)(fd := None) = fd_lookup s" by blast
  have "content (fs (fst (services s1))) ?p = Some old" using f(3) s1(3) by simp
  from write_str_effect [OF files s1(4, 2) f(2) this, of img net data] obtain f2 s2 where
    s2: "File_write_str ?b \<lparr>raw_fd = fd\<rparr> data s1 = (Ok (), s2)" "fat_ready k s2" "opened_as fd RDWR h f2 s2"
    "FD_TABLE s2 = FD_TABLE s1" "content (fs (fst (services s2))) = (content w)(?p \<mapsto> data @ drop (length data) old)"
    unfolding s1(3) by blast
  from lib_close [OF s2(2, 3), of c img net] obtain s3 where
    s3: "fd_close ?b fd s2 = (Ok (), s3)" "fat_ready k s3" "fd_lookup s3 = (fd_lookup s2)(fd := None)"
    "fs (fst (services s3)) = c_drop c f2 (fs (fst (services s2)))" by blast
  have "file_drop ?b to_json \<lparr>fb_inner = v, fb_slot = slot, fb_used = False\<rparr> s = (Ok (), s3)"
    using s1(1) s2(1) s3(1) assms(4)
    by (simp add: file_drop_def File_create_def File_drop_def act_bind_def act_unwrap_def act_lift_def act_ret_def)
  moreover have "content (fs (fst (services s3))) = (content (fs (fst (services s))))(?p \<mapsto> data @ drop (length data) old)"
    using fat_filesD(7) [OF files] s3(4) s2(5) f(3) by simp
  moreover have "fd_lookup s3 = fd_lookup s" using s3(3) s2(4) s1(5) by simp
  ultimately show ?thesis using s3(2) by blast
qed

section \<open>The consumer\<close>

lemma byte_source_keep:
  assumes "byte_source rd rest okay" "\<And>s. Q s \<Longrightarrow> okay s \<Longrightarrow> Q (snd (rd 1024 s))"
  shows "byte_source rd rest (\<lambda>s. okay s \<and> Q s)"
  unfolding byte_source_def
proof (intro allI impI, elim conjE)
  fix s
  assume "okay s" "Q s"
  moreover from this obtain bs s' where "rd 1024 s = (Ok bs, s')" "okay s'" "length bs \<le> 1024" "rest s = bs @ rest s'"
    "bs = [] \<longrightarrow> rest s = []"
    using assms(1) unfolding byte_source_def by blast
  ultimately show "\<exists>bs s'. rd 1024 s = (Ok bs, s') \<and> (okay s' \<and> Q s') \<and> length bs \<le> 1024 \<and> rest s = bs @ rest s' \<and>
      (bs = [] \<longrightarrow> rest s = [])"
    using assms(2) [of s] by auto
qed

lemma read_loop_content:
  assumes "\<And>n fw. content (snd (snd (c_read c n fw))) = content (snd fw)"
  shows "content (snd (snd (read_loop c n fw))) = content (snd fw)"
proof (induction n arbitrary: fw rule: less_induct)
  case (less n)
  obtain r fw1 where rd: "c_read c n fw = (r, fw1)" by (cases "c_read c n fw")
  then have same: "content (snd fw1) = content (snd fw)" using assms [of n fw] by simp
  show ?case
  proof (cases r)
    case (Ok bs)
    have "content (snd (snd (read_loop c (n - length bs) fw1))) = content (snd fw1)" if "bs \<noteq> []" "n \<noteq> 0"
      using that by (intro less.IH) (cases bs, auto)
    with Ok same rd show ?thesis by (auto simp: read_loop.simps [of c n] split: prod.splits)
  qed (use rd same in \<open>auto simp: read_loop.simps [of c n]\<close>)
qed

text \<open>A read changes the open file and nothing else.\<close>

definition files_same :: "('w \<Rightarrow> 'x) \<Rightarrow> ('w, 'f, 'n) os_state \<Rightarrow> ('w, 'f, 'n) os_state \<Rightarrow> bool" where
  "files_same content s s' = (FD_TABLE s' = FD_TABLE s \<and> content (fs (fst (services s'))) = content (fs (fst (services s))) \<and>
     length (FTABLE (fst (services s'))) = length (FTABLE (fst (services s))) \<and>
     FS_REF_ADDR (fst (services s')) = FS_REF_ADDR (fst (services s)))"

lemma File_read_same:
  assumes "\<And>n fw. content (snd (snd (c_read c n fw))) = content (snd fw)" "fat_file_open fd h s"
  shows "files_same content s (snd (File_read (libos_backend c img net) \<lparr>raw_fd = fd\<rparr> n s))"
proof -
  obtain t m where sv: "services s = (t, m)" by (cases "services s")
  from assms(2) obtain fil f where opn: "fd_lookup s fd = Some fil" "can_read fil" "file_src fil = FatFS h"
    "fat_lookup t h = Some f" "\<not> poisoned t" by (auto simp: fat_file_open_def sv)
  obtain r f' w' where rl: "read_loop c n (f, fs t) = (r, f', w')" by (cases "read_loop c n (f, fs t)")
  have "content w' = content (fs t)" using read_loop_content [of content c n "(f, fs t)"] assms(1) rl by simp
  moreover have "\<not> fd \<le> 2" using installed_not_reserved [OF opn(1)] .
  ultimately show ?thesis using opn rl
    by (cases r) (auto simp: File_read_def fd_read_def with_open_file_eq libos_backend_def call_fat_def on_fat_def sv
        fatfs_read_def lock_table_def on_file_def files_same_def)
qed

lemma file_from_slot_effect:
  assumes files: "fat_files c valid content at" and "fat_ready (Suc k) s"
    and "content (fs (fst (services s))) (imd_name slot) = Some cs"
  shows "\<exists>s'. file_from_slot (libos_backend c img net) from_slice slot s =
      Some (case from_slice cs of Ok v \<Rightarrow> Ok (Some \<lparr>fb_inner = v, fb_slot = slot, fb_used = True\<rparr>) | _ \<Rightarrow> Panic, s') \<and>
    content (fs (fst (services s'))) = content (fs (fst (services s))) \<and>
    (is_ok (from_slice cs) \<longrightarrow> fat_ready k s' \<and> fd_lookup s' = fd_lookup s)"
proof -
  let ?b = "libos_backend c img net" and ?p = "imd_name slot"
  obtain f w where f: "c_open_file c ?p (fs (fst (services s))) = (Ok f, w)" "at f = (?p, 0)"
    "content w = content (fs (fst (services s)))"
    using fat_filesD(4) [OF files assms(3)] by blast
  have "(if flags_contain 0 O_CREAT then c_create_file c ?p else c_open_file c ?p) (fs (fst (services s))) = (Ok f, w)"
    using f(1) by (simp add: open_mode_defs O_CREAT_def)
  from lib_open [OF assms(2) this, of img net RD] obtain fd h s1 where
    s1: "fd_open ?b ?p 0 RD s = (Ok fd, s1)" "opened_as fd RD h f s1" "fs (fst (services s1)) = w" "fat_ready k s1"
    "(fd_lookup s1)(fd := None) = fd_lookup s" by blast
  let ?Q = "\<lambda>s2. fat_file_open fd h s2 \<and> files_same content s1 s2"
  have start: "?Q s1" using s1(2, 4)
    by (auto simp: fat_file_open_def opened_as_def fat_ready_def files_same_def can_read_def open_mode_defs)
  have "byte_source (File_read ?b \<lparr>raw_fd = fd\<rparr>) (fat_rest (stored content at) h) ?Q"
  proof (rule byte_source_keep [OF fat_file_source [OF fat_filesD(1) [OF files]]])
    fix s2 assume "files_same content s1 s2" "fat_file_open fd h s2"
    then show "files_same content s1 (snd (File_read ?b \<lparr>raw_fd = fd\<rparr> 1024 s2))"
      using File_read_same [where content = content, OF fat_filesD(2) [OF files], of fd h s2 img net 1024]
      by (simp add: files_same_def)
  qed
  from read_to_end_source [OF this start, of "[]" 0] obtain s2 where
    s2: "read_to_end (File_read ?b \<lparr>raw_fd = fd\<rparr>) [] 0 s1 = Some (Ok (length (fat_rest (stored content at) h s1)),
      fat_rest (stored content at) h s1, s2)" "?Q s2" by auto
  have rest: "fat_rest (stored content at) h s1 = cs"
    using s1(2, 3) f(2, 3) assms(3) by (simp add: fat_rest_def opened_as_def stored_def)
  obtain f2 where "opened_as fd RD h f2 s2" using s2(2) s1(2) by (auto simp: opened_as_def fat_file_open_def files_same_def)
  moreover have "fat_ready k s2"
    using s2(2) s1(4) by (auto simp: fat_ready_def files_same_def fat_file_open_def fatvec_ok_def)
  ultimately obtain s3 where s3: "fd_close ?b fd s2 = (Ok (), s3)" "fat_ready k s3" "fd_lookup s3 = (fd_lookup s2)(fd := None)"
    "fs (fst (services s3)) = c_drop c f2 (fs (fst (services s2)))"
    using lib_close [of k s2 fd RD h f2 c img net] by blast
  have same: "content (fs (fst (services s2))) = content (fs (fst (services s)))" "FD_TABLE s2 = FD_TABLE s1"
    using s2(2) s1(3) f(3) by (auto simp: files_same_def)
  have run: "file_from_slot ?b from_slice slot s = (case from_slice cs of
      Ok v \<Rightarrow> Some (Ok (Some \<lparr>fb_inner = v, fb_slot = slot, fb_used = True\<rparr>), s3) | _ \<Rightarrow> Some (Panic, s2))"
    using s1(1) s2(1) s3(1) by (simp add: file_from_slot_def File_open_def act_bind_def act_ret_def rest File_drop_def
        act_unwrap_def split: res.split)
  show ?thesis
  proof (cases "from_slice cs")
    case (Ok v)
    with run s3 same fat_filesD(7) [OF files] s1(5) show ?thesis by auto
  qed (use run same in auto)
qed

section \<open>Passing a value\<close>

text \<open>C12: A value passed through a file. When the file of the slot does not exist, or is no longer than the new
  text, the consumer gets the value the producer dropped, through \<open>as_std\<close>, the descriptor service and the
  FAT service; no descriptor stays open, and the slot can be read again, unlike a slot of the memory service.
  A longer file keeps its tail behind the new text, since creating it does not truncate it; if the parser
  refuses that, the consumer panics.\<close>

theorem file_buffer_exchange:
  assumes "fat_files c valid content at" "fat_ready (Suc (Suc k)) s" "valid (imd_name slot)" "to_json v = Ok data"
    and "old = (case content (fs (fst (services s))) (imd_name slot) of Some cs \<Rightarrow> cs | None \<Rightarrow> [])"
  shows "\<exists>s1 s2. file_drop (libos_backend c img net) to_json \<lparr>fb_inner = v, fb_slot = slot, fb_used = False\<rparr> s = (Ok (), s1) \<and>
    (length old \<le> length data \<and> from_slice data = Ok v \<longrightarrow>
      file_from_slot (libos_backend c img net) from_slice slot s1 =
        Some (Ok (Some \<lparr>fb_inner = v, fb_slot = slot, fb_used = True\<rparr>), s2) \<and>
      fd_lookup s2 = fd_lookup s \<and> content (fs (fst (services s2))) (imd_name slot) = Some data) \<and>
    (\<not> is_ok (from_slice (data @ drop (length data) old)) \<longrightarrow>
      file_from_slot (libos_backend c img net) from_slice slot s1 = Some (Panic, s2))"
proof -
  from file_drop_effect [where to_json = to_json, OF assms, of img net] obtain s1 where
    s1: "file_drop (libos_backend c img net) to_json \<lparr>fb_inner = v, fb_slot = slot, fb_used = False\<rparr> s = (Ok (), s1)"
    "fat_ready (Suc k) s1" "fd_lookup s1 = fd_lookup s"
    "content (fs (fst (services s1))) (imd_name slot) = Some (data @ drop (length data) old)" by auto
  from file_from_slot_effect [OF assms(1) s1(2, 4), of img net from_slice] obtain s2 where
    "file_from_slot (libos_backend c img net) from_slice slot s1 = Some (case from_slice (data @ drop (length data) old) of
       Ok v \<Rightarrow> Ok (Some \<lparr>fb_inner = v, fb_slot = slot, fb_used = True\<rparr>) | _ \<Rightarrow> Panic, s2)"
    "content (fs (fst (services s2))) = content (fs (fst (services s1)))"
    "is_ok (from_slice (data @ drop (length data) old)) \<longrightarrow> fd_lookup s2 = fd_lookup s1" by blast
  with s1 show ?thesis
    by (intro exI [of _ s1] exI [of _ s2]) (cases "from_slice (data @ drop (length data) old)", auto)
qed

text \<open>A file system in memory with names, and texts that start with the number of their bytes.\<close>

definition named_at :: "string \<times> nat \<Rightarrow> string \<times> nat" where
  "named_at f = f"

definition named_bytes :: "(string \<Rightarrow> byte list option) \<Rightarrow> string \<Rightarrow> byte list" where
  "named_bytes w p = (case w p of Some cs \<Rightarrow> cs | None \<Rightarrow> [])"

definition named_crate :: "(string \<Rightarrow> byte list option, string \<times> nat) FatCrate" where
  "named_crate =
    \<lparr>c_mount = (\<lambda>p w. Some w),
     c_create_file = (\<lambda>p w. (Ok (p, 0), w(p \<mapsto> named_bytes w p))),
     c_open_file = (\<lambda>p w. (if w p = None then Err ''not found'' else Ok (p, 0), w)),
     c_read = (\<lambda>n (f, w). (Ok (take n (drop (snd f) (named_bytes w (fst f)))),
        (fst f, snd f + length (take n (drop (snd f) (named_bytes w (fst f))))), w)),
     c_write_all = (\<lambda>bs (f, w). (Ok (), (fst f, snd f + length bs),
        w(fst f \<mapsto> take (snd f) (named_bytes w (fst f)) @ bs @ drop (snd f + length bs) (named_bytes w (fst f))))),
     c_flush = (\<lambda>fw. (Ok (), fw)),
     c_seek = (\<lambda>p (f, w). (Ok (), (fst f, unat p), w)),
     c_stream_len = (\<lambda>(f, w). (Ok (word_of_nat (length (named_bytes w (fst f)))), f, w)),
     c_drop = (\<lambda>f w. w)\<rparr>"

lemma named_fat_files: "fat_files named_crate (\<lambda>_. True) id named_at"
proof -
  have rest: "drop (length (take n xs)) xs = drop n xs" for n and xs :: "byte list" by (cases "n \<le> length xs") simp_all
  have "reads_rest named_crate (stored id named_at)"
    unfolding reads_rest_def
  proof (intro allI)
    fix n and fw :: "(string \<times> nat) \<times> (string \<Rightarrow> byte list option)"
    obtain p i w where fw: "fw = ((p, i), w)" by (cases fw) auto
    let ?cs = "drop i (named_bytes w p)"
    have "c_read named_crate n fw = (Ok (take n ?cs), (p, i + length (take n ?cs)), w)" by (simp add: named_crate_def fw)
    moreover have "stored id named_at ((p, i + length (take n ?cs)), w) = drop n ?cs"
      using rest [of n ?cs] by (simp add: stored_def named_at_def named_bytes_def add.commute [of i] flip: drop_drop)
    moreover have eq: "stored id named_at fw = ?cs" by (simp add: fw stored_def named_at_def named_bytes_def)
    ultimately show "\<exists>bs fw'. c_read named_crate n fw = (Ok bs, fw') \<and> length bs \<le> n \<and>
        stored id named_at fw = bs @ stored id named_at fw' \<and> (bs = [] \<longrightarrow> n = 0 \<or> stored id named_at fw = [])"
      using append_take_drop_id [of n ?cs] eq by (intro exI [of _ "take n ?cs"] exI [of _ "((p, i + length (take n ?cs)), w)"]) auto
  qed
  then show ?thesis unfolding fat_files_def
    by (auto simp: named_crate_def named_at_def named_bytes_def fun_upd_idem_iff split: option.splits)
qed

definition counted :: "byte list \<Rightarrow> (string, byte list) res" where
  "counted xs = Ok (word_of_nat (length xs) # xs)"

definition uncounted :: "byte list \<Rightarrow> (string, byte list) res" where
  "uncounted bs = (case bs of [] \<Rightarrow> Err ''EOF'' | n # xs \<Rightarrow> if unat n = length xs then Ok xs else Err ''trailing characters'')"

definition empty_disk :: "(string \<Rightarrow> byte list option) \<Rightarrow> (string \<Rightarrow> byte list option, string \<times> nat, unit) os_state" where
  "empty_disk w = \<lparr>FD_TABLE = [], services = (\<lparr>FTABLE = [], poisoned = False, FS_REF_ADDR = True, fs = w\<rparr>, ())\<rparr>"

theorem file_buffer_exchange_witness:
  "(\<exists>s1 s2. file_drop (libos_backend named_crate [] quiet_net) counted \<lparr>fb_inner = [7, 8], fb_slot = ''a'', fb_used = False\<rparr>
      (empty_disk Map.empty) = (Ok (), s1) \<and>
    file_from_slot (libos_backend named_crate [] quiet_net) uncounted ''a'' s1 =
      Some (Ok (Some \<lparr>fb_inner = [7, 8], fb_slot = ''a'', fb_used = True\<rparr>), s2)) \<and>
   (\<exists>s1 s2. file_drop (libos_backend named_crate [] quiet_net) counted \<lparr>fb_inner = [9], fb_slot = ''a'', fb_used = False\<rparr>
      (empty_disk [''a.imd'' \<mapsto> [2, 7, 8]]) = (Ok (), s1) \<and>
    file_from_slot (libos_backend named_crate [] quiet_net) uncounted ''a'' s1 = Some (Panic, s2))"
proof -
  have ready: "fat_ready (Suc (Suc 0)) (empty_disk w)" for w
    by (simp add: fat_ready_def empty_disk_def fdvec_ok_def fatvec_ok_def)
  note exchange = file_buffer_exchange [where to_json = counted and from_slice = uncounted and slot = "''a''" and
      img = "[]" and net = quiet_net, OF named_fat_files ready]
  have "counted [7, 8] = Ok [2, 7, 8]" "counted [9] = Ok [1, 9]" by (simp_all add: counted_def)
  note first = exchange [OF _ this(1) refl, of Map.empty] and second = exchange [OF _ this(2) refl, of "[''a.imd'' \<mapsto> [2, 7, 8]]"]
  have "uncounted [2, 7, 8] = Ok [7, 8]" "uncounted [1, 9, 8] = Err ''trailing characters''" by (simp_all add: uncounted_def)
  then show ?thesis using first second by (auto simp: empty_disk_def imd_name_def)
qed

end
