(* ===== verification/Baseline_Sort.thy ===== *)
theory Baseline_Sort
  imports Sort_Workflow
begin

text \<open>
  The sorting workflow on OpenFaaS, the platform AlloyStack is compared with
  (\<open>baseline/parallel_sort/sorter-rust\<close>, \<open>splitter-rust\<close>, \<open>merger-rust\<close> and \<open>client.py\<close>): the functions pass
  their arrays as text through objects of a store. The store is a parameter, with buckets of named objects;
  the request of a function is the JSON object its body parses to. Times are left out.
\<close>

datatype Json = JNum nat | JStr string

type_synonym event = "string \<Rightarrow> Json option"

record 'w S3 =
  s3_create :: "string \<Rightarrow> ('w, string, unit) act"
  s3_get :: "string \<Rightarrow> string \<Rightarrow> ('w, string, string) act"
  s3_put :: "string \<Rightarrow> string \<Rightarrow> string \<Rightarrow> ('w, string, unit) act"

definition event_u64 :: "event \<Rightarrow> string \<Rightarrow> ('w, string, nat) act" where
  "event_u64 event key = (case event key of Some (JNum n) \<Rightarrow> act_ret n | _ \<Rightarrow> act_panic)"

definition event_str :: "event \<Rightarrow> string \<Rightarrow> ('w, string, string) act" where
  "event_str event key = (case event key of Some (JStr v) \<Rightarrow> act_ret v | _ \<Rightarrow> act_panic)"

definition get_object :: "'w S3 \<Rightarrow> string \<Rightarrow> string \<Rightarrow> ('w, string, string) act" where
  "get_object s3 bucket_name object_name = s3_get s3 bucket_name object_name"

text \<open>The bucket is created by every call, whether it exists or not.\<close>

definition put_object_to_minio :: "'w S3 \<Rightarrow> string \<Rightarrow> string \<Rightarrow> string \<Rightarrow> ('w, string, unit) act" where
  "put_object_to_minio s3 bucket_name object_name val =
    act_bind (s3_create s3 bucket_name) (\<lambda>_. s3_put s3 bucket_name object_name val)"

text \<open>The calls whose result is unwrapped at once.\<close>

definition must_get :: "'w S3 \<Rightarrow> string \<Rightarrow> string \<Rightarrow> ('w, string, string) act" where
  "must_get s3 bucket_name object_name = act_unwrap (get_object s3 bucket_name object_name)"

definition must_put :: "'w S3 \<Rightarrow> string \<Rightarrow> string \<Rightarrow> string \<Rightarrow> ('w, string, unit) act" where
  "must_put s3 bucket_name object_name val = act_unwrap (put_object_to_minio s3 bucket_name object_name val)"

definition parse_to_vec :: "string \<Rightarrow> (string, u32 list) res" where
  "parse_to_vec numbers =
    (case parse_numbers (split_on (CHR '','') numbers) [] of (result, None) \<Rightarrow> Ok result | (_, Some _) \<Rightarrow> Panic)"

definition dump_to_string :: "u32 list \<Rightarrow> string" where
  "dump_to_string numbers = join_with '','' (map (\<lambda>num. to_string (unat num)) numbers)"

definition part_name :: "nat \<Rightarrow> string" where
  "part_name i = ''part-'' @ to_string i"

definition sorter_bucket :: string where "sorter_bucket = ''rust-sorter-resp''"
definition splitter_bucket :: string where "splitter_bucket = ''rust-splitter-resp''"
definition merger_bucket :: string where "merger_bucket = ''rust-merger-resp''"
definition input_bucket :: string where "input_bucket = ''parallel-sort-input''"

definition sorter_handle :: "'w S3 \<Rightarrow> event \<Rightarrow> ('w, string, unit) act" where
  "sorter_handle s3 event =
    act_bind (event_u64 event ''input_part'') (\<lambda>input_part.
    act_bind (event_str event ''input_name'') (\<lambda>input_name.
    act_bind (event_u64 event ''merger_num'') (\<lambda>merger_num.
    act_bind (must_get s3 input_name (part_name input_part)) (\<lambda>content.
    case parse_numbers (split_on (CHR '','') content) [] of
      (_, Some e) \<Rightarrow> act_err e
    | (nums, None) \<Rightarrow>
        (let sorter_resp = sort nums in
         act_bind (if input_part = 0 then act_lift (choose_pivots sorter_resp merger_num) else act_ret []) (\<lambda>pivots.
         act_bind (must_put s3 sorter_bucket (part_name input_part) (dump_to_string sorter_resp)) (\<lambda>_.
         if input_part = 0 then must_put s3 sorter_bucket ''pivots'' (dump_to_string pivots)
         else act_ret ())))))))"

definition splitter_handle :: "'w S3 \<Rightarrow> event \<Rightarrow> ('w, string, unit) act" where
  "splitter_handle s3 event =
    act_bind (event_u64 event ''input_part'') (\<lambda>input_part.
    act_bind (event_str event ''input_name'') (\<lambda>input_name.
    act_bind (get_object s3 input_name ''pivots'') (\<lambda>pivots.
    act_bind (get_object s3 input_name (part_name input_part)) (\<lambda>numbers.
    act_bind (act_lift (parse_to_vec pivots)) (\<lambda>pivots.
    act_bind (act_lift (parse_to_vec numbers)) (\<lambda>numbers.
    act_each (\<lambda>(idx, part). must_put s3 splitter_bucket (slot_split (to_string input_part) (to_string idx)) (dump_to_string part))
      (List.enumerate 0 (split_numbers numbers pivots))))))))"

definition merger_handle :: "'w S3 \<Rightarrow> event \<Rightarrow> ('w, string, unit) act" where
  "merger_handle s3 event =
    act_bind (event_u64 event ''input_part'') (\<lambda>input_part.
    act_bind (event_str event ''input_name'') (\<lambda>input_name.
    act_bind (event_u64 event ''sorter_num'') (\<lambda>sorter_num.
    act_bind (act_collect (\<lambda>idx. must_get s3 input_name (slot_split (to_string idx) (to_string input_part))) [0..<sorter_num]) (\<lambda>partitions.
    act_bind (act_collect (\<lambda>part. act_lift (parse_to_vec part)) partitions) (\<lambda>partitions.
    must_put s3 merger_bucket (slot_merged (to_string input_part)) (dump_to_string (merge_partitions partitions [])))))))"

text \<open>The client invokes the functions of a group one after the other here and looks at the answers only in
  the end. The number of mergers is the number of sorters.\<close>

definition invoke_func :: "('w, string, unit) act \<Rightarrow> ('w, string, unit) act" where
  "invoke_func handle = (\<lambda>w. (Ok (), snd (handle w)))"

definition sorter_event :: "nat \<Rightarrow> nat \<Rightarrow> event" where
  "sorter_event n i = [''input_name'' \<mapsto> JStr input_bucket, ''input_part'' \<mapsto> JNum i, ''merger_num'' \<mapsto> JNum n]"

definition splitter_event :: "nat \<Rightarrow> event" where
  "splitter_event i = [''input_name'' \<mapsto> JStr sorter_bucket, ''input_part'' \<mapsto> JNum i]"

definition merger_event :: "nat \<Rightarrow> nat \<Rightarrow> event" where
  "merger_event n i = [''input_name'' \<mapsto> JStr splitter_bucket, ''input_part'' \<mapsto> JNum i, ''sorter_num'' \<mapsto> JNum n]"

definition openfaas_workflow :: "'w S3 \<Rightarrow> nat \<Rightarrow> ('w, string, unit) act" where
  "openfaas_workflow s3 sorter_num =
    act_bind (act_each (\<lambda>i. invoke_func (sorter_handle s3 (sorter_event sorter_num i))) [0..<sorter_num]) (\<lambda>_.
    act_bind (act_each (\<lambda>i. invoke_func (splitter_handle s3 (splitter_event i))) [0..<sorter_num]) (\<lambda>_.
    act_each (\<lambda>i. invoke_func (merger_handle s3 (merger_event sorter_num i))) [0..<sorter_num]))"

section \<open>Arrays as text\<close>

lemma trim_to_string: "trim (to_string n) = to_string n"
proof -
  have no_ws: "\<not> is_ws c" if "is_ascii_digit c" for c
    using that by (auto simp: is_ws_def is_ascii_digit_def)
  have keep: "dropWhile is_ws xs = xs" if "\<forall>c \<in> set xs. \<not> is_ws c" for xs
    using that by (cases xs) auto
  have "\<forall>c \<in> set (to_string n). \<not> is_ws c" using to_string_digits [of _ n] no_ws by blast
  then show ?thesis using keep [of "to_string n"] keep [of "rev (to_string n)"] by (simp add: trim_def)
qed

lemma parse_numbers_shown:
  "parse_numbers (map (\<lambda>num. to_string (unat num)) xs) acc = (acc @ xs, None)"
proof (induction xs arbitrary: acc)
  case (Cons x xs)
  have "parse_uint 32 (to_string (unat x)) = Some (unat x)"
    using unsigned_less [of x] by (intro parse_uint_to_string) simp
  then show ?case using Cons by (simp add: trim_to_string)
qed simp

lemma parse_dump: "parse_to_vec (dump_to_string xs) = Ok xs"
proof (cases "xs = []")
  case True
  then show ?thesis by (simp add: parse_to_vec_def dump_to_string_def trim_def)
next
  case False
  have "CHR '','' \<notin> set (to_string n)" for n
    using to_string_digits [of "CHR '',''" n] by (auto simp: is_ascii_digit_def)
  then have "split_on (CHR '','') (dump_to_string xs) = map (\<lambda>num. to_string (unat num)) xs"
    using False by (auto simp: dump_to_string_def intro!: split_on_join)
  then show ?thesis using parse_numbers_shown [of xs "[]"] by (simp add: parse_to_vec_def)
qed

section \<open>A store that keeps its objects\<close>

text \<open>What the functions rely on: creating a bucket succeeds also when it is there, an object that was put is
  got back.\<close>

definition store_keeps :: "'w S3 \<Rightarrow> ('w \<Rightarrow> string \<times> string \<Rightarrow> string option) \<Rightarrow> bool" where
  "store_keeps s3 obj =
    ((\<forall>b w. \<exists>w'. s3_create s3 b w = (Ok (), w') \<and> obj w' = obj w) \<and>
     (\<forall>b n v w. obj w (b, n) = Some v \<longrightarrow> (\<exists>w'. s3_get s3 b n w = (Ok v, w') \<and> obj w' = obj w)) \<and>
     (\<forall>b n v w. \<exists>w'. s3_put s3 b n v w = (Ok (), w') \<and> obj w' = (obj w)((b, n) \<mapsto> v)))"

lemma get_kept:
  assumes "store_keeps s3 obj" "obj w (b, n) = Some v"
  shows "\<exists>w'. get_object s3 b n w = (Ok v, w') \<and> obj w' = obj w"
  using assms unfolding store_keeps_def get_object_def by blast

lemma put_kept:
  assumes "store_keeps s3 obj"
  shows "\<exists>w'. put_object_to_minio s3 b n v w = (Ok (), w') \<and> obj w' = (obj w)((b, n) \<mapsto> v)"
proof -
  obtain w1 where w1: "s3_create s3 b w = (Ok (), w1)" "obj w1 = obj w" using assms unfolding store_keeps_def by blast
  obtain w2 where "s3_put s3 b n v w1 = (Ok (), w2)" "obj w2 = (obj w1)((b, n) \<mapsto> v)"
    using assms unfolding store_keeps_def by blast
  with w1 show ?thesis by (auto simp: put_object_to_minio_def act_bind_def)
qed

lemma must_get_kept:
  "store_keeps s3 obj \<Longrightarrow> obj w (b, n) = Some v \<Longrightarrow> \<exists>w'. must_get s3 b n w = (Ok v, w') \<and> obj w' = obj w"
  using get_kept [of s3 obj w b n v] by (auto simp: must_get_def act_unwrap_def)

lemma must_put_kept:
  "store_keeps s3 obj \<Longrightarrow> \<exists>w'. must_put s3 b n v w = (Ok (), w') \<and> obj w' = (obj w)((b, n) \<mapsto> v)"
  using put_kept [of s3 obj b n v w] by (auto simp: must_put_def act_unwrap_def)

lemma put_parts:
  assumes "store_keeps s3 obj" "inj name"
  shows "\<exists>w'. act_each (\<lambda>(idx, part). must_put s3 b (name idx) (dump_to_string part))
      (List.enumerate n parts) w = (Ok (), w') \<and>
    (\<forall>j < length parts. obj w' (b, name (n + j)) = Some (dump_to_string (parts ! j))) \<and>
    (\<forall>key. (\<forall>j \<ge> n. key \<noteq> (b, name j)) \<longrightarrow> obj w' key = obj w key)"
proof (induction parts arbitrary: n w)
  case (Cons part parts)
  obtain w1 where w1: "must_put s3 b (name n) (dump_to_string part) w = (Ok (), w1)"
    "obj w1 = (obj w)((b, name n) \<mapsto> dump_to_string part)"
    using must_put_kept [OF assms(1)] by blast
  obtain w2 where w2: "act_each (\<lambda>(idx, part). must_put s3 b (name idx) (dump_to_string part))
      (List.enumerate (Suc n) parts) w1 = (Ok (), w2)"
    "\<forall>j < length parts. obj w2 (b, name (Suc n + j)) = Some (dump_to_string (parts ! j))"
    "\<forall>key. (\<forall>j \<ge> Suc n. key \<noteq> (b, name j)) \<longrightarrow> obj w2 key = obj w1 key"
    using Cons.IH [of "Suc n" w1] by blast
  have "obj w2 (b, name n) = Some (dump_to_string part)" using w2(3) w1(2) inj_eq [OF assms(2)] by auto
  then have "\<forall>j < length (part # parts). obj w2 (b, name (n + j)) = Some (dump_to_string ((part # parts) ! j))"
    using w2(2) by (auto simp: nth_Cons split: nat.splits)
  moreover have "\<forall>key. (\<forall>j \<ge> n. key \<noteq> (b, name j)) \<longrightarrow> obj w2 key = obj w key" using w2(3) w1(2) by auto
  moreover have "act_each (\<lambda>(idx, part). must_put s3 b (name idx) (dump_to_string part))
      (List.enumerate n (part # parts)) w = (Ok (), w2)"
    using w2(1) w1(1) by (simp add: act_bind_def)
  ultimately show ?case by blast
qed (simp add: act_ret_def)

lemma get_parts:
  assumes "store_keeps s3 obj" "\<forall>i \<in> set is. obj w (b, name i) = Some (f i)"
  shows "\<exists>w'. act_collect (\<lambda>i. must_get s3 b (name i)) is w = (Ok (map f is), w') \<and>
    obj w' = obj w"
  using assms(2)
proof (induction "is" arbitrary: w)
  case (Cons i "is")
  obtain w1 where w1: "must_get s3 b (name i) w = (Ok (f i), w1)" "obj w1 = obj w"
    using must_get_kept [OF assms(1), of w b "name i" "f i"] Cons.prems by auto
  moreover obtain w2 where "act_collect (\<lambda>i. must_get s3 b (name i)) is w1 =
      (Ok (map f is), w2)" "obj w2 = obj w1"
    using Cons.IH [of w1] Cons.prems w1(2) by auto
  ultimately show ?case by (auto simp: act_bind_def act_ret_def)
qed (simp add: act_ret_def)

lemma parse_parts:
  "act_collect (\<lambda>part. act_lift (parse_to_vec part)) (map (\<lambda>i. dump_to_string (f i)) is) w = (Ok (map f is), w)"
  by (induction "is") (simp_all add: act_ret_def act_bind_def act_lift_def parse_dump)

lemma buckets_differ:
  "input_bucket \<noteq> sorter_bucket" "sorter_bucket \<noteq> input_bucket" "splitter_bucket \<noteq> sorter_bucket" "sorter_bucket \<noteq> splitter_bucket"
  "merger_bucket \<noteq> splitter_bucket" "splitter_bucket \<noteq> merger_bucket"
  by (simp_all add: input_bucket_def sorter_bucket_def splitter_bucket_def merger_bucket_def)

lemma part_names [simp]: "part_name i = part_name j \<longleftrightarrow> i = j" "part_name i \<noteq> ''pivots''" "''pivots'' \<noteq> part_name i"
  by (simp_all add: part_name_def)

section \<open>One function\<close>

lemma event_simps [simp]:
  "event_u64 (sorter_event n i) ''input_part'' w = (Ok i, w)" "event_str (sorter_event n i) ''input_name'' w = (Ok input_bucket, w)"
  "event_u64 (sorter_event n i) ''merger_num'' w = (Ok n, w)"
  "event_u64 (splitter_event i) ''input_part'' w = (Ok i, w)" "event_str (splitter_event i) ''input_name'' w = (Ok sorter_bucket, w)"
  "event_u64 (merger_event n i) ''input_part'' w = (Ok i, w)" "event_str (merger_event n i) ''input_name'' w = (Ok splitter_bucket, w)"
  "event_u64 (merger_event n i) ''sorter_num'' w = (Ok n, w)"
  by (simp_all add: event_u64_def event_str_def sorter_event_def splitter_event_def merger_event_def act_ret_def)

lemma sorter_handle_effect:
  assumes "store_keeps s3 obj" "obj w (input_bucket, part_name i) = Some c"
    and "parse_numbers (split_on (CHR '','') c) [] = (nums, None)" and "i = 0 \<longrightarrow> choose_pivots (sort nums) n = Ok pivots"
  shows "\<exists>w'. invoke_func (sorter_handle s3 (sorter_event n i)) w = (Ok (), w') \<and>
    obj w' = (if i = 0 then (obj w)((sorter_bucket, part_name i) \<mapsto> dump_to_string (sort nums),
        (sorter_bucket, ''pivots'') \<mapsto> dump_to_string pivots)
      else (obj w)((sorter_bucket, part_name i) \<mapsto> dump_to_string (sort nums)))"
proof -
  let ?put = "must_put s3 sorter_bucket"
  obtain w1 where w1: "must_get s3 input_bucket (part_name i) w = (Ok c, w1)" "obj w1 = obj w"
    using must_get_kept [where obj = obj and w = w, OF assms(1, 2)] by blast
  obtain w2 where w2: "?put (part_name i) (dump_to_string (sort nums)) w1 = (Ok (), w2)"
    "obj w2 = (obj w1)((sorter_bucket, part_name i) \<mapsto> dump_to_string (sort nums))" using must_put_kept [OF assms(1)] by blast
  obtain w3 where w3: "?put ''pivots'' (dump_to_string pivots) w2 = (Ok (), w3)"
    "obj w3 = (obj w2)((sorter_bucket, ''pivots'') \<mapsto> dump_to_string pivots)" using must_put_kept [OF assms(1)] by blast
  have "sorter_handle s3 (sorter_event n i) w = (Ok (), if i = 0 then w3 else w2)"
    using w1(1) w2(1) w3(1) assms(3, 4)
    by (cases "i = 0") (simp_all add: sorter_handle_def act_bind_def act_lift_def act_ret_def Let_def)
  then show ?thesis using w1(2) w2(2) w3(2) by (auto simp: invoke_func_def)
qed

lemma splitter_handle_effect:
  assumes "store_keeps s3 obj" "obj w (sorter_bucket, part_name i) = Some (dump_to_string numbers)"
    and "obj w (sorter_bucket, ''pivots'') = Some (dump_to_string pivots)"
  shows "\<exists>w'. invoke_func (splitter_handle s3 (splitter_event i)) w = (Ok (), w') \<and>
    (\<forall>j < length (split_numbers numbers pivots). obj w' (splitter_bucket, slot_split (to_string i) (to_string j)) =
       Some (dump_to_string (split_numbers numbers pivots ! j))) \<and>
    (\<forall>key. (\<forall>j. key \<noteq> (splitter_bucket, slot_split (to_string i) (to_string j))) \<longrightarrow> obj w' key = obj w key)"
proof -
  obtain w1 where w1: "get_object s3 sorter_bucket ''pivots'' w = (Ok (dump_to_string pivots), w1)" "obj w1 = obj w"
    using get_kept [where obj = obj and w = w, OF assms(1, 3)] by blast
  have "obj w1 (sorter_bucket, part_name i) = Some (dump_to_string numbers)" using assms(2) w1(2) by simp
  from get_kept [where obj = obj and w = w1, OF assms(1) this]
  obtain w2 where w2: "get_object s3 sorter_bucket (part_name i) w1 = (Ok (dump_to_string numbers), w2)" "obj w2 = obj w1" by blast
  have inj: "inj (\<lambda>j. slot_split (to_string i) (to_string j))" by (rule injI) (simp add: slot_split_inject)
  let ?parts = "split_numbers numbers pivots"
  obtain w3 where w3: "act_each (\<lambda>(idx, part). must_put s3 splitter_bucket (slot_split (to_string i) (to_string idx))
      (dump_to_string part)) (List.enumerate 0 ?parts) w2 = (Ok (), w3) \<and>
    (\<forall>j < length ?parts. obj w3 (splitter_bucket, slot_split (to_string i) (to_string (0 + j))) = Some (dump_to_string (?parts ! j))) \<and>
    (\<forall>key. (\<forall>j \<ge> 0. key \<noteq> (splitter_bucket, slot_split (to_string i) (to_string j))) \<longrightarrow> obj w3 key = obj w2 key)"
    by (rule exE [OF put_parts [OF assms(1) inj, of splitter_bucket 0 ?parts w2]])
  have "splitter_handle s3 (splitter_event i) w =
      act_each (\<lambda>(idx, part). must_put s3 splitter_bucket (slot_split (to_string i) (to_string idx)) (dump_to_string part))
        (List.enumerate 0 ?parts) w2"
    using w1(1) w2(1) by (simp add: splitter_handle_def act_bind_def act_lift_def parse_dump)
  then have "invoke_func (splitter_handle s3 (splitter_event i)) w = (Ok (), w3)" using w3 by (simp add: invoke_func_def)
  moreover have "obj w2 = obj w" using w2(2) w1(2) by simp
  ultimately show ?thesis using w3 by (intro exI [of _ w3]) simp
qed

lemma merger_handle_effect:
  assumes "store_keeps s3 obj"
    and "\<forall>i < n. obj w (splitter_bucket, slot_split (to_string i) (to_string j)) = Some (dump_to_string (f i))"
  shows "\<exists>w'. invoke_func (merger_handle s3 (merger_event n j)) w = (Ok (), w') \<and>
    obj w' = (obj w)((merger_bucket, slot_merged (to_string j)) \<mapsto> dump_to_string (merge_partitions (map f [0..<n]) []))"
proof -
  obtain w1 where w1: "act_collect (\<lambda>i. must_get s3 splitter_bucket (slot_split (to_string i) (to_string j))) [0..<n] w =
      (Ok (map (\<lambda>i. dump_to_string (f i)) [0..<n]), w1)" "obj w1 = obj w"
    using get_parts [OF assms(1), of "[0..<n]" w splitter_bucket "\<lambda>i. slot_split (to_string i) (to_string j)"
        "\<lambda>i. dump_to_string (f i)"] assms(2) by auto
  obtain w2 where w2: "must_put s3 merger_bucket (slot_merged (to_string j))
      (dump_to_string (merge_partitions (map f [0..<n]) [])) w1 = (Ok (), w2)"
    "obj w2 = (obj w1)((merger_bucket, slot_merged (to_string j)) \<mapsto> dump_to_string (merge_partitions (map f [0..<n]) []))"
    using must_put_kept [OF assms(1)] by blast
  have "merger_handle s3 (merger_event n j) w = (Ok (), w2)"
    using w1(1) parse_parts [of f "[0..<n]" w1] w2(1)
    by (simp add: merger_handle_def act_bind_def)
  then show ?thesis using w2(2) w1(2) by (simp add: invoke_func_def)
qed

section \<open>The groups\<close>

lemma sorter_handles_effect:
  assumes "store_keeps s3 obj" "\<forall>i < n. obj w (input_bucket, part_name i) = Some (texts i)"
    and "\<forall>i < n. parse_numbers (split_on (CHR '','') (texts i)) [] = (nums i, None)"
    and "choose_pivots (sort (nums 0)) n = Ok pivots" "0 < n"
  shows "\<exists>w'. act_each (\<lambda>i. invoke_func (sorter_handle s3 (sorter_event n i))) [0..<n] w = (Ok (), w') \<and>
    (\<forall>i < n. obj w' (sorter_bucket, part_name i) = Some (dump_to_string (sort (nums i)))) \<and>
    obj w' (sorter_bucket, ''pivots'') = Some (dump_to_string pivots)"
proof -
  let ?I = "\<lambda>ys w. (\<forall>i < n. obj w (input_bucket, part_name i) = Some (texts i)) \<and>
    (\<forall>i \<in> set ys. obj w (sorter_bucket, part_name i) = Some (dump_to_string (sort (nums i)))) \<and>
    (ys \<noteq> [] \<longrightarrow> obj w (sorter_bucket, ''pivots'') = Some (dump_to_string pivots))"
  have "\<exists>w'. act_each (\<lambda>i. invoke_func (sorter_handle s3 (sorter_event n i))) [0..<n] w = (Ok (), w') \<and> ?I [0..<n] w'"
  proof (rule act_each_invariant)
    show "?I [] w" using assms(2) by simp
    fix ys x zs w
    assume xs: "[0..<n] = ys @ x # zs" and inv: "?I ys w"
    note x = upt_split [OF xs]
    have first: "ys = [] \<longleftrightarrow> x = 0" using x by auto
    have inp: "obj w (input_bucket, part_name x) = Some (texts x)" using inv x by simp
    have num: "parse_numbers (split_on (CHR '','') (texts x)) [] = (nums x, None)" using assms(3) x by simp
    have piv: "x = 0 \<longrightarrow> choose_pivots (sort (nums x)) n = Ok pivots" using assms(4) by simp
    obtain w' where w': "invoke_func (sorter_handle s3 (sorter_event n x)) w = (Ok (), w')"
      "obj w' = (if x = 0 then (obj w)((sorter_bucket, part_name x) \<mapsto> dump_to_string (sort (nums x)),
          (sorter_bucket, ''pivots'') \<mapsto> dump_to_string pivots)
        else (obj w)((sorter_bucket, part_name x) \<mapsto> dump_to_string (sort (nums x))))"
      using sorter_handle_effect [where obj = obj and w = w, OF assms(1) inp num piv] by blast
    have "?I (ys @ [x]) w'"
    proof (cases "x = 0")
      case True
      then show ?thesis using inv first unfolding w'(2) by (simp add: buckets_differ)
    next
      case False
      then show ?thesis using inv first unfolding w'(2) by (simp add: buckets_differ)
    qed
    with w'(1) show "\<exists>w'. invoke_func (sorter_handle s3 (sorter_event n x)) w = (Ok (), w') \<and> ?I (ys @ [x]) w'" by blast
  qed
  then show ?thesis using assms(5) by auto
qed

lemma splitter_handles_effect:
  assumes "store_keeps s3 obj" "\<forall>i < n. obj w (sorter_bucket, part_name i) = Some (dump_to_string (arrays i))"
    and "obj w (sorter_bucket, ''pivots'') = Some (dump_to_string pivots)"
    and "\<forall>i < n. length (split_numbers (arrays i) pivots) = k"
  shows "\<exists>w'. act_each (\<lambda>i. invoke_func (splitter_handle s3 (splitter_event i))) [0..<n] w = (Ok (), w') \<and>
    (\<forall>i < n. \<forall>j < k. obj w' (splitter_bucket, slot_split (to_string i) (to_string j)) =
       Some (dump_to_string (split_numbers (arrays i) pivots ! j)))"
proof -
  let ?I = "\<lambda>ys w. (\<forall>i < n. obj w (sorter_bucket, part_name i) = Some (dump_to_string (arrays i))) \<and>
    obj w (sorter_bucket, ''pivots'') = Some (dump_to_string pivots) \<and>
    (\<forall>i \<in> set ys. \<forall>j < k. obj w (splitter_bucket, slot_split (to_string i) (to_string j)) =
       Some (dump_to_string (split_numbers (arrays i) pivots ! j)))"
  have "\<exists>w'. act_each (\<lambda>i. invoke_func (splitter_handle s3 (splitter_event i))) [0..<n] w = (Ok (), w') \<and> ?I [0..<n] w'"
  proof (rule act_each_invariant)
    show "?I [] w" using assms(2, 3) by simp
    fix ys x zs w
    assume xs: "[0..<n] = ys @ x # zs" and inv: "?I ys w"
    note x = upt_split [OF xs]
    have arr: "obj w (sorter_bucket, part_name x) = Some (dump_to_string (arrays x))"
      and piv: "obj w (sorter_bucket, ''pivots'') = Some (dump_to_string pivots)" using inv x by simp_all
    have len: "length (split_numbers (arrays x) pivots) = k" using assms(4) x by simp
    obtain w' where w': "invoke_func (splitter_handle s3 (splitter_event x)) w = (Ok (), w')"
      "\<forall>j < k. obj w' (splitter_bucket, slot_split (to_string x) (to_string j)) =
         Some (dump_to_string (split_numbers (arrays x) pivots ! j))"
      "\<forall>key. (\<forall>j. key \<noteq> (splitter_bucket, slot_split (to_string x) (to_string j))) \<longrightarrow> obj w' key = obj w key"
      using splitter_handle_effect [where obj = obj and w = w, OF assms(1) arr piv] unfolding len by blast
    have "obj w' (sorter_bucket, name) = obj w (sorter_bucket, name)" for name using w'(3) by (simp add: buckets_differ)
    moreover have "obj w' (splitter_bucket, slot_split (to_string i) (to_string j)) =
        Some (dump_to_string (split_numbers (arrays i) pivots ! j))" if "i \<in> set (ys @ [x])" "j < k" for i j
      using inv w'(2, 3) that by (cases "i = x") (simp_all add: slot_split_inject)
    ultimately have "?I (ys @ [x]) w'" using inv by simp
    with w'(1) show "\<exists>w'. invoke_func (splitter_handle s3 (splitter_event x)) w = (Ok (), w') \<and> ?I (ys @ [x]) w'" by blast
  qed
  then show ?thesis by auto
qed

lemma merger_handles_effect:
  assumes "store_keeps s3 obj"
    and "\<forall>i < n. \<forall>j < k. obj w (splitter_bucket, slot_split (to_string i) (to_string j)) = Some (dump_to_string (part i j))"
  shows "\<exists>w'. act_each (\<lambda>j. invoke_func (merger_handle s3 (merger_event n j))) [0..<k] w = (Ok (), w') \<and>
    (\<forall>j < k. obj w' (merger_bucket, slot_merged (to_string j)) =
       Some (dump_to_string (merge_partitions (map (\<lambda>i. part i j) [0..<n]) [])))"
proof -
  let ?I = "\<lambda>ys w. (\<forall>i < n. \<forall>j < k. obj w (splitter_bucket, slot_split (to_string i) (to_string j)) = Some (dump_to_string (part i j))) \<and>
    (\<forall>j \<in> set ys. obj w (merger_bucket, slot_merged (to_string j)) =
       Some (dump_to_string (merge_partitions (map (\<lambda>i. part i j) [0..<n]) [])))"
  have "\<exists>w'. act_each (\<lambda>j. invoke_func (merger_handle s3 (merger_event n j))) [0..<k] w = (Ok (), w') \<and> ?I [0..<k] w'"
  proof (rule act_each_invariant)
    show "?I [] w" using assms(2) by simp
    fix ys x zs w
    assume xs: "[0..<k] = ys @ x # zs" and inv: "?I ys w"
    have parts: "\<forall>i < n. obj w (splitter_bucket, slot_split (to_string i) (to_string x)) = Some (dump_to_string (part i x))"
      using inv upt_split [OF xs] by simp
    obtain w' where w': "invoke_func (merger_handle s3 (merger_event n x)) w = (Ok (), w')"
      "obj w' = (obj w)((merger_bucket, slot_merged (to_string x)) \<mapsto>
        dump_to_string (merge_partitions (map (\<lambda>i. part i x) [0..<n]) []))"
      using merger_handle_effect [where obj = obj and w = w, OF assms(1) parts] by blast
    have "?I (ys @ [x]) w'" using inv unfolding w'(2) by (simp add: buckets_differ)
    with w'(1) show "\<exists>w'. invoke_func (merger_handle s3 (merger_event n x)) w = (Ok (), w') \<and> ?I (ys @ [x]) w'" by blast
  qed
  then show ?thesis by auto
qed

section \<open>Both workflows\<close>

text \<open>C4: AlloyStack and the OpenFaaS version compute the same. On inputs on which the sorting workflow of
  AlloyStack succeeds, with as many mergers as sorters, the OpenFaaS workflow stores for every merger the text
  of exactly the array that AlloyStack's merger leaves in its slot, and the text parses back to that array.\<close>

theorem openfaas_sort_agrees:
  assumes "store_keeps s3 obj" "0 < n" "n < 2 ^ 32"
    and "\<forall>i < n. obj w (input_bucket, part_name i) = Some (texts i) \<and> read_file (sort_file i) = Ok (texts i)"
    and "\<forall>i < n. parse_numbers (split_on (CHR '','') (texts i)) [] = (nums i, None)"
    and "choose_pivots (sort (nums 0)) n = Ok pivots"
    and "\<forall>i < n. length (split_numbers (sort (nums i)) pivots) = n"
  shows "\<exists>m w'. run_sort hash read_file n n Map.empty = (Ok (), m) \<and> openfaas_workflow s3 n w = (Ok (), w') \<and>
    (\<forall>j < n. \<exists>out. array_in hash m (slot_merged (to_string j)) out \<and>
       obj w' (merger_bucket, slot_merged (to_string j)) = Some (dump_to_string out) \<and> parse_to_vec (dump_to_string out) = Ok out)"
proof -
  let ?outs = "merge_all n (split_all (map (\<lambda>i. sort (nums i)) [0..<n]) pivots)"
  have inputs: "\<forall>i < n. obj w (input_bucket, part_name i) = Some (texts i)" "\<forall>i < n. read_file (sort_file i) = Ok (texts i)"
    using assms(4) by simp_all
  obtain m where m: "run_sort hash read_file n n Map.empty = (Ok (), m)"
    "\<forall>j < n. array_in hash m (slot_merged (to_string j)) (?outs ! j)"
    using run_sort_effect [OF assms(3, 3) inputs(2) assms(5-7), of hash] by blast
  obtain w1 where w1: "act_each (\<lambda>i. invoke_func (sorter_handle s3 (sorter_event n i))) [0..<n] w = (Ok (), w1)"
    "\<forall>i < n. obj w1 (sorter_bucket, part_name i) = Some (dump_to_string (sort (nums i)))"
    "obj w1 (sorter_bucket, ''pivots'') = Some (dump_to_string pivots)"
    using sorter_handles_effect [where obj = obj and w = w, OF assms(1) inputs(1) assms(5, 6, 2)] by blast
  obtain w2 where w2: "act_each (\<lambda>i. invoke_func (splitter_handle s3 (splitter_event i))) [0..<n] w1 = (Ok (), w2)"
    "\<forall>i < n. \<forall>j < n. obj w2 (splitter_bucket, slot_split (to_string i) (to_string j)) =
       Some (dump_to_string (split_numbers (sort (nums i)) pivots ! j))"
    using splitter_handles_effect [where obj = obj and w = w1, OF assms(1) w1(2, 3) assms(7)] by blast
  obtain w3 where w3: "act_each (\<lambda>j. invoke_func (merger_handle s3 (merger_event n j))) [0..<n] w2 = (Ok (), w3)"
    "\<forall>j < n. obj w3 (merger_bucket, slot_merged (to_string j)) =
       Some (dump_to_string (merge_partitions (map (\<lambda>i. split_numbers (sort (nums i)) pivots ! j) [0..<n]) []))"
    using merger_handles_effect [where obj = obj and w = w2, OF assms(1) w2(2)] by blast
  have "openfaas_workflow s3 n w = (Ok (), w3)"
    using w1(1) w2(1) w3(1) by (simp add: openfaas_workflow_def act_bind_def)
  moreover have "\<forall>j < n. obj w3 (merger_bucket, slot_merged (to_string j)) = Some (dump_to_string (?outs ! j))"
    using w3(2) by (simp add: merge_all_def split_all_def comp_def)
  ultimately show ?thesis using m parse_dump by blast
qed

text \<open>A store that is a map.\<close>

definition map_store :: "(string \<times> string \<Rightarrow> string option) S3" where
  "map_store = \<lparr>s3_create = (\<lambda>b w. (Ok (), w)),
     s3_get = (\<lambda>b n w. (case w (b, n) of Some v \<Rightarrow> Ok v | None \<Rightarrow> Err ''NoSuchKey'', w)),
     s3_put = (\<lambda>b n v w. (Ok (), w((b, n) \<mapsto> v)))\<rparr>"

lemma map_store_keeps: "store_keeps map_store id"
  by (simp add: store_keeps_def map_store_def)

theorem openfaas_sort_agrees_witness:
  "let w = [(input_bucket, part_name 0) \<mapsto> ''7, 1'', (input_bucket, part_name 1) \<mapsto> ''9,4''];
       read_file = (\<lambda>f. Ok (if f = sort_file 0 then ''7, 1'' else ''9,4''))
   in \<exists>m w'. run_sort (\<lambda>_. 9) read_file 2 2 Map.empty = (Ok (), m) \<and> openfaas_workflow map_store 2 w = (Ok (), w') \<and>
    (\<forall>j < 2. \<exists>out. array_in (\<lambda>_. 9) m (slot_merged (to_string j)) out \<and>
       w' (merger_bucket, slot_merged (to_string j)) = Some (dump_to_string out))"
proof -
  let ?w = "[(input_bucket, part_name 0) \<mapsto> ''7, 1'', (input_bucket, part_name 1) \<mapsto> ''9,4'']"
  let ?read = "\<lambda>f. Ok (if f = sort_file 0 then ''7, 1'' else ''9,4'') :: (string, string) res"
  let ?texts = "\<lambda>i :: nat. if i = 0 then ''7, 1'' else ''9,4''"
  let ?nums = "\<lambda>i :: nat. if i = 0 then [7, 1] else [9, 4 :: u32]"
  have files: "\<forall>i < 2. id ?w (input_bucket, part_name i) = Some (?texts i) \<and> ?read (sort_file i) = Ok (?texts i)"
    by (simp add: sort_file_def less_2_cases_iff)
  have pieces: "split_on (CHR '','') ''7, 1'' = [''7'', '' 1'']" "split_on (CHR '','') ''9,4'' = [''9'', ''4'']"
    by (code_simp, code_simp)
  have "parse_numbers [''7'', '' 1''] [] = ([7, 1], None)" "parse_numbers [''9'', ''4''] [] = ([9, 4], None)"
    by (simp_all add: trim_def is_ws_def parse_uint_def is_ascii_digit_def digit_val_def)
  then have parsed: "\<forall>i < 2. parse_numbers (split_on (CHR '','') (?texts i)) [] = (?nums i, None)" using pieces by simp
  have srt: "sort [7, 1] = [1, 7 :: u32]" "sort [9, 4] = [4, 9 :: u32]" by (simp_all add: word_le_nat_alt word_less_nat_alt)
  have "choose_pivots [1, 7] 2 = Ok [7 :: u32]" by code_simp
  then have piv: "choose_pivots (sort (?nums 0)) 2 = Ok [7]" using srt by simp
  have "length (split_numbers [1, 7] [7 :: u32]) = 2" "length (split_numbers [4, 9] [7 :: u32]) = 2" by (code_simp, code_simp)
  then have len: "\<forall>i < 2. length (split_numbers (sort (?nums i)) [7]) = 2" using srt by simp
  have "(0 :: nat) < 2" "(2 :: nat) < 2 ^ 32" by simp_all
  from openfaas_sort_agrees [where obj = id and w = ?w and hash = "\<lambda>_. 9", OF map_store_keeps this files parsed piv len]
  show ?thesis unfolding Let_def id_apply by blast
qed

end
