(* ===== verification/Wasm_Functions.thy ===== *)
theory Wasm_Functions
  imports Wasi_Buffers Wasi_Services Lazy_Static Rust_Fmt
begin

text \<open>
  The functions that run a WebAssembly module (\<open>user/wasmtime_*\<close>) and the part of the WASI layer they use to
  start it (\<open>wasmtime_wasi_api/src/lib.rs\<close>). The module and wasmtime are a parameter: whether the module
  loads, the memory an instance starts with, growing it, and the run of \<open>_start\<close> as an action on the context of
  the WASI calls. A guest ends by returning or by \<open>proc_exit\<close>, which jumps back to the function; a trap is an
  error. Output and times that are only printed are left out.
\<close>

datatype guest_end = Returned | Exited

record 'w Module =
  md_deserialize :: bool
  md_instantiate :: "(string, byte list) res"
  md_memory :: bool
  md_grow :: "nat \<Rightarrow> byte list \<Rightarrow> byte list option"
  md_has_start :: "(string, unit) res"
  md_start :: "('w WasiCtx, string, guest_end) act"

text \<open>The context of the WASI calls, the static of the function, and the slots of the isolation.\<close>

record 'w FnState =
  fn_ctx :: "'w WasiCtx"
  MUST_OPEN_ROOT :: lazy
  fn_slots :: "nat slots"

type_synonym 'w fn_act = "('w FnState, string, unit) act"

definition on_ctx :: "('w WasiCtx, 'e, 'a) act \<Rightarrow> ('w FnState, 'e, 'a) act" where
  "on_ctx m = (\<lambda>s. case m (fn_ctx s) of (r, c) \<Rightarrow> (r, s\<lparr>fn_ctx := c\<rparr>))"

section \<open>Starting a module\<close>

definition build_wasm :: "'w Module \<Rightarrow> 'w fn_act" where
  "build_wasm md =
    (if \<not> md_deserialize md then act_panic
     else case import_all of Ok _ \<Rightarrow> act_ret () | _ \<Rightarrow> act_panic)"

definition set_wasi_args :: "string \<Rightarrow> string list \<Rightarrow> 'w fn_act" where
  "set_wasi_args i args = act_unwrap (on_ctx (set_wasi_state i args))"

definition open_root :: "'w WasiHost \<Rightarrow> 'w fn_act" where
  "open_root h = force_static MUST_OPEN_ROOT (\<lambda>l s. s\<lparr>MUST_OPEN_ROOT := l\<rparr>)
    (act_bind (act_unwrap (on_ctx (os_call (h_open h ''/'' 0 RD)))) (\<lambda>_. act_ret ()))"

definition grow_memory :: "'w Module \<Rightarrow> 'w fn_act" where
  "grow_memory md =
    (if \<not> md_memory md then act_panic
     else (\<lambda>s. case md_grow md 20000 (linear (fn_ctx s)) of
       Some mem \<Rightarrow> (Ok (), s\<lparr>fn_ctx := (fn_ctx s)\<lparr>linear := mem\<rparr>\<rparr>)
     | None \<Rightarrow> (Panic, s)))"

definition call_start :: "'w Module \<Rightarrow> bool \<Rightarrow> string \<Rightarrow> 'w fn_act" where
  "call_start md grow i =
    act_bind (build_wasm md) (\<lambda>_.
    act_bind (act_modify (\<lambda>s. s\<lparr>fn_ctx := (fn_ctx s)\<lparr>caller_id := i\<rparr>\<rparr>)) (\<lambda>_.
    act_bind (act_lift (md_instantiate md)) (\<lambda>mem.
    act_bind (act_modify (\<lambda>s. s\<lparr>fn_ctx := (fn_ctx s)\<lparr>linear := mem\<rparr>\<rparr>)) (\<lambda>_.
    act_bind (if grow then grow_memory md else act_ret ()) (\<lambda>_.
    act_bind (act_lift (md_has_start md)) (\<lambda>_.
    act_bind (on_ctx (md_start md)) (\<lambda>_. act_ret ())))))))"

section \<open>C and C++ programs\<close>

definition str_arg :: "(string \<Rightarrow> string option) \<Rightarrow> string \<Rightarrow> ('s, string, string) act" where
  "str_arg get_arg name = (case get_arg name of Some v \<Rightarrow> act_ret v | None \<Rightarrow> act_panic)"

definition num_arg :: "(string \<Rightarrow> string option) \<Rightarrow> string \<Rightarrow> ('s, string, nat) act" where
  "num_arg get_arg name = (case Option.bind (get_arg name) (parse_uint 64) of Some n \<Rightarrow> act_ret n | None \<Rightarrow> act_panic)"

definition fake_path :: string where
  "fake_path = ''fake system path!''"

definition wasm_body :: "'w WasiHost \<Rightarrow> 'w Module \<Rightarrow> bool \<Rightarrow> string \<Rightarrow> string list \<Rightarrow> 'w fn_act" where
  "wasm_body h md grow i wasi_args =
    act_bind (set_wasi_args i wasi_args) (\<lambda>_.
    act_bind (open_root h) (\<lambda>_. call_start md grow i))"

definition wasm_mapper_main :: "'w WasiHost \<Rightarrow> 'w Module \<Rightarrow> (string \<Rightarrow> string option) \<Rightarrow> 'w fn_act" where
  "wasm_mapper_main h md get_arg =
    act_bind (str_arg get_arg ''id'') (\<lambda>my_id.
    act_bind (num_arg get_arg ''reducer_num'') (\<lambda>reducer_num.
    wasm_body h md True my_id [fake_path, my_id, to_string reducer_num]))"

definition wasm_reducer_main :: "'w WasiHost \<Rightarrow> 'w Module \<Rightarrow> (string \<Rightarrow> string option) \<Rightarrow> 'w fn_act" where
  "wasm_reducer_main h md get_arg =
    act_bind (str_arg get_arg ''id'') (\<lambda>my_id.
    act_bind (num_arg get_arg ''mapper_num'') (\<lambda>mapper_num.
    wasm_body h md True my_id [fake_path, my_id, to_string mapper_num]))"

definition wasm_sorter_main :: "'w WasiHost \<Rightarrow> 'w Module \<Rightarrow> (string \<Rightarrow> string option) \<Rightarrow> 'w fn_act" where
  "wasm_sorter_main h md get_arg =
    act_bind (str_arg get_arg ''id'') (\<lambda>my_id.
    act_bind (num_arg get_arg ''sorter_num'') (\<lambda>sorter_num.
    act_bind (num_arg get_arg ''merger_num'') (\<lambda>merger_num.
    wasm_body h md True my_id [fake_path, my_id, to_string sorter_num, to_string merger_num])))"

definition wasm_spliter_main :: "'w WasiHost \<Rightarrow> 'w Module \<Rightarrow> (string \<Rightarrow> string option) \<Rightarrow> 'w fn_act" where
  "wasm_spliter_main h md get_arg =
    act_bind (str_arg get_arg ''id'') (\<lambda>my_id.
    act_bind (num_arg get_arg ''sorter_num'') (\<lambda>sorter_num.
    act_bind (num_arg get_arg ''merger_num'') (\<lambda>merger_num.
    wasm_body h md True my_id [fake_path, my_id, to_string sorter_num, to_string merger_num])))"

definition wasm_merger_main :: "'w WasiHost \<Rightarrow> 'w Module \<Rightarrow> (string \<Rightarrow> string option) \<Rightarrow> 'w fn_act" where
  "wasm_merger_main h md get_arg =
    act_bind (str_arg get_arg ''id'') (\<lambda>my_id.
    act_bind (num_arg get_arg ''sorter_num'') (\<lambda>sorter_num.
    act_bind (num_arg get_arg ''merger_num'') (\<lambda>merger_num.
    wasm_body h md True my_id [fake_path, my_id, to_string sorter_num, to_string merger_num])))"

definition wasm_checker_main :: "'w WasiHost \<Rightarrow> 'w Module \<Rightarrow> (string \<Rightarrow> string option) \<Rightarrow> 'w fn_act" where
  "wasm_checker_main h md get_arg =
    act_bind (str_arg get_arg ''id'') (\<lambda>my_id.
    act_bind (num_arg get_arg ''sorter_num'') (\<lambda>sorter_num.
    act_bind (num_arg get_arg ''merger_num'') (\<lambda>merger_num.
    wasm_body h md True my_id [fake_path, my_id, to_string sorter_num, to_string merger_num])))"

text \<open>The last function of a chain takes the time the first one left in the slot.\<close>

definition conference_fp :: "(string \<Rightarrow> u64) \<Rightarrow> u64" where
  "conference_fp hash = hash ''SystemTime''"

definition now_nanos :: "'w WasiHost \<Rightarrow> ('w FnState, string, nat) act" where
  "now_nanos h = (\<lambda>s. case h_nanos h (os (fn_ctx s)) of
     (t, w) \<Rightarrow> (Ok t, s\<lparr>fn_ctx := (fn_ctx s)\<lparr>os := w\<rparr>\<rparr>))"

definition on_slots :: "(nat slots, string, 'a) act \<Rightarrow> ('w FnState, string, 'a) act" where
  "on_slots m = (\<lambda>s. case m (fn_slots s) of (r, sl) \<Rightarrow> (r, s\<lparr>fn_slots := sl\<rparr>))"

definition wasm_longchain_main ::
  "(string \<Rightarrow> u64) \<Rightarrow> 'w WasiHost \<Rightarrow> 'w Module \<Rightarrow> (string \<Rightarrow> string option) \<Rightarrow> 'w fn_act" where
  "wasm_longchain_main hash h md get_arg =
    act_bind (str_arg get_arg ''id'') (\<lambda>my_id.
    act_bind (num_arg get_arg ''func_num'') (\<lambda>func_num.
    act_bind (if func_num = 0
      then act_bind (now_nanos h) (\<lambda>t. on_slots (act_modify (slot_put (conference_fp hash) ''Conference'' t)))
      else act_ret ()) (\<lambda>_.
    act_bind (wasm_body h md False my_id [fake_path, my_id, to_string func_num]) (\<lambda>_.
    if func_num = 9
    then act_bind (on_slots (slot_take (conference_fp hash) ''Conference'')) (\<lambda>data.
      case data of
        Some t \<Rightarrow> act_bind (now_nanos h) (\<lambda>now. if now < t then act_panic else act_ret ())
      | None \<Rightarrow> act_err ''buffer is none'')
    else act_ret ()))))"

text \<open>Two functions pass no arguments; the second does not open the root directory either.\<close>

definition wasm_trans_data_main :: "'w WasiHost \<Rightarrow> 'w Module \<Rightarrow> 'w fn_act" where
  "wasm_trans_data_main h md = act_bind (open_root h) (\<lambda>_. call_start md True ''0'')"

definition wasm_write_main :: "'w Module \<Rightarrow> (string \<Rightarrow> string option) \<Rightarrow> 'w fn_act" where
  "wasm_write_main md get_arg = act_bind (str_arg get_arg ''id'') (call_start md False)"

section \<open>Python programs\<close>

text \<open>The jump buffer \<open>jb\<close> is registered under the key of the guest before it starts, so that \<open>proc_exit\<close> finds it.\<close>

definition python_body ::
  "'w WasiHost \<Rightarrow> 'w Module \<Rightarrow> u64 \<Rightarrow> string \<Rightarrow> string list \<Rightarrow> 'w fn_act" where
  "python_body h md jb my_map_id wasi_args =
    act_bind (act_modify (\<lambda>s. s\<lparr>fn_ctx := (fn_ctx s)\<lparr>JMP_BUF_MAP := (JMP_BUF_MAP (fn_ctx s))(my_map_id \<mapsto> jb)\<rparr>\<rparr>)) (\<lambda>_.
    wasm_body h md False my_map_id wasi_args)"

definition cpython_main :: "'w WasiHost \<Rightarrow> 'w Module \<Rightarrow> u64 \<Rightarrow> (string \<Rightarrow> string option) \<Rightarrow> 'w fn_act" where
  "cpython_main h md jb get_arg =
    act_bind (str_arg get_arg ''id'') (\<lambda>my_id.
    act_bind (str_arg get_arg ''pyfile_path'') (\<lambda>pyfile_path.
    python_body h md jb my_id [''python.wasm'', pyfile_path]))"

definition cpython_func_main :: "'w WasiHost \<Rightarrow> 'w Module \<Rightarrow> u64 \<Rightarrow> (string \<Rightarrow> string option) \<Rightarrow> 'w fn_act" where
  "cpython_func_main h md jb get_arg =
    act_bind (str_arg get_arg ''pyfile_path'') (\<lambda>pyfile_path.
    act_bind (num_arg get_arg ''func_num'') (\<lambda>func_num.
    python_body h md jb (''func_'' @ to_string func_num) [''python.wasm'', pyfile_path, to_string func_num]))"

definition cpython_mapper_main :: "'w WasiHost \<Rightarrow> 'w Module \<Rightarrow> u64 \<Rightarrow> (string \<Rightarrow> string option) \<Rightarrow> 'w fn_act" where
  "cpython_mapper_main h md jb get_arg =
    act_bind (str_arg get_arg ''id'') (\<lambda>my_id.
    act_bind (str_arg get_arg ''pyfile_path'') (\<lambda>pyfile_path.
    act_bind (num_arg get_arg ''reducer_num'') (\<lambda>reducer_num.
    python_body h md jb (''mapper_'' @ my_id) [''python.wasm'', pyfile_path, my_id, to_string reducer_num])))"

definition cpython_reducer_main :: "'w WasiHost \<Rightarrow> 'w Module \<Rightarrow> u64 \<Rightarrow> (string \<Rightarrow> string option) \<Rightarrow> 'w fn_act" where
  "cpython_reducer_main h md jb get_arg =
    act_bind (str_arg get_arg ''id'') (\<lambda>my_id.
    act_bind (str_arg get_arg ''pyfile_path'') (\<lambda>pyfile_path.
    act_bind (num_arg get_arg ''mapper_num'') (\<lambda>mapper_num.
    python_body h md jb (''reducer_'' @ my_id) [''python.wasm'', pyfile_path, my_id, to_string mapper_num])))"

definition cpython_parallel_sort_main :: "'w WasiHost \<Rightarrow> 'w Module \<Rightarrow> u64 \<Rightarrow> (string \<Rightarrow> string option) \<Rightarrow> 'w fn_act" where
  "cpython_parallel_sort_main h md jb get_arg =
    act_bind (str_arg get_arg ''id'') (\<lambda>my_id.
    act_bind (str_arg get_arg ''pyfile_path'') (\<lambda>pyfile_path.
    act_bind (num_arg get_arg ''sorter_num'') (\<lambda>sorter_num.
    act_bind (num_arg get_arg ''merger_num'') (\<lambda>merger_num.
    python_body h md jb (''func_'' @ my_id)
      [''python.wasm'', pyfile_path, my_id, to_string sorter_num, to_string merger_num]))))"

definition cpython_wordcount_main :: "'w WasiHost \<Rightarrow> 'w Module \<Rightarrow> u64 \<Rightarrow> (string \<Rightarrow> string option) \<Rightarrow> 'w fn_act" where
  "cpython_wordcount_main h md jb get_arg =
    act_bind (str_arg get_arg ''id'') (\<lambda>my_id.
    act_bind (str_arg get_arg ''pyfile_path'') (\<lambda>pyfile_path.
    act_bind (num_arg get_arg ''reducer_num'') (\<lambda>reducer_num.
    act_bind (num_arg get_arg ''mapper_num'') (\<lambda>mapper_num.
    python_body h md jb (''wordcount_'' @ my_id)
      [''python.wasm'', pyfile_path, my_id, to_string reducer_num, to_string mapper_num]))))"

section \<open>What a guest finds\<close>

datatype wasm_fn = WMapper | WReducer | WSorter | WSpliter | WMerger | WChecker
  | WPython | WPyFunc | WPyMapper | WPyReducer | WPySort | WPyWordcount

fun wasm_main :: "wasm_fn \<Rightarrow> 'w WasiHost \<Rightarrow> 'w Module \<Rightarrow> u64 \<Rightarrow> (string \<Rightarrow> string option) \<Rightarrow> 'w fn_act" where
  "wasm_main WMapper h md jb = wasm_mapper_main h md"
| "wasm_main WReducer h md jb = wasm_reducer_main h md"
| "wasm_main WSorter h md jb = wasm_sorter_main h md"
| "wasm_main WSpliter h md jb = wasm_spliter_main h md"
| "wasm_main WMerger h md jb = wasm_merger_main h md"
| "wasm_main WChecker h md jb = wasm_checker_main h md"
| "wasm_main WPython h md jb = cpython_main h md jb"
| "wasm_main WPyFunc h md jb = cpython_func_main h md jb"
| "wasm_main WPyMapper h md jb = cpython_mapper_main h md jb"
| "wasm_main WPyReducer h md jb = cpython_reducer_main h md jb"
| "wasm_main WPySort h md jb = cpython_parallel_sort_main h md jb"
| "wasm_main WPyWordcount h md jb = cpython_wordcount_main h md jb"

text \<open>The interface of the functions: the names of the arguments that are passed on, in order, with whether they
  are numbers, and the argument the guest is known by, with a prefix.\<close>

fun fn_params :: "wasm_fn \<Rightarrow> (string \<times> bool) list" where
  "fn_params WMapper = [(''id'', False), (''reducer_num'', True)]"
| "fn_params WReducer = [(''id'', False), (''mapper_num'', True)]"
| "fn_params WPython = [(''pyfile_path'', False)]"
| "fn_params WPyFunc = [(''pyfile_path'', False), (''func_num'', True)]"
| "fn_params WPyMapper = [(''pyfile_path'', False), (''id'', False), (''reducer_num'', True)]"
| "fn_params WPyReducer = [(''pyfile_path'', False), (''id'', False), (''mapper_num'', True)]"
| "fn_params WPySort = [(''pyfile_path'', False), (''id'', False), (''sorter_num'', True), (''merger_num'', True)]"
| "fn_params WPyWordcount = [(''pyfile_path'', False), (''id'', False), (''reducer_num'', True), (''mapper_num'', True)]"
| "fn_params _ = [(''id'', False), (''sorter_num'', True), (''merger_num'', True)]"

fun fn_key :: "wasm_fn \<Rightarrow> string \<times> string" where
  "fn_key WPyFunc = (''func_'', ''func_num'')"
| "fn_key WPyMapper = (''mapper_'', ''id'')"
| "fn_key WPyReducer = (''reducer_'', ''id'')"
| "fn_key WPySort = (''func_'', ''id'')"
| "fn_key WPyWordcount = (''wordcount_'', ''id'')"
| "fn_key _ = ([], ''id'')"

definition is_python :: "wasm_fn \<Rightarrow> bool" where
  "is_python f = (f \<in> {WPython, WPyFunc, WPyMapper, WPyReducer, WPySort, WPyWordcount})"

definition arg_text :: "(string \<Rightarrow> string option) \<Rightarrow> string \<times> bool \<Rightarrow> string option" where
  "arg_text get_arg p =
    (if snd p then map_option to_string (Option.bind (get_arg (fst p)) (parse_uint 64)) else get_arg (fst p))"

definition module_ok :: "'w Module \<Rightarrow> bool" where
  "module_ok md = (md_deserialize md \<and> md_memory md \<and> md_has_start md = Ok () \<and>
     (\<exists>mem mem'. md_instantiate md = Ok mem \<and> md_grow md 20000 mem = Some mem'))"

definition root_opens :: "'w WasiHost \<Rightarrow> 'w FnState \<Rightarrow> bool" where
  "root_opens h s = (MUST_OPEN_ROOT s = Ready \<or>
     MUST_OPEN_ROOT s = Uninit \<and> (\<exists>fd w. h_open h ''/'' 0 RD (os (fn_ctx s)) = (Ok fd, w)))"

lemma open_root_ok:
  assumes "root_opens h s"
  shows "\<exists>w. open_root h s = (Ok (), s\<lparr>MUST_OPEN_ROOT := Ready, fn_ctx := (fn_ctx s)\<lparr>os := w\<rparr>\<rparr>) \<and>
    (MUST_OPEN_ROOT s = Ready \<and> w = os (fn_ctx s) \<or>
     MUST_OPEN_ROOT s = Uninit \<and> w = snd (h_open h ''/'' 0 RD (os (fn_ctx s))))"
proof -
  consider "MUST_OPEN_ROOT s = Ready" | fd w where "MUST_OPEN_ROOT s = Uninit" "h_open h ''/'' 0 RD (os (fn_ctx s)) = (Ok fd, w)"
    using assms by (auto simp: root_opens_def)
  then show ?thesis
  proof cases
    case 1
    then have "s\<lparr>MUST_OPEN_ROOT := Ready, fn_ctx := (fn_ctx s)\<lparr>os := os (fn_ctx s)\<rparr>\<rparr> = s" by simp
    with 1 show ?thesis by (intro exI [of _ "os (fn_ctx s)"]) (simp add: open_root_def force_static_def)
  next
    case 2
    then show ?thesis by (intro exI [of _ w])
      (simp add: open_root_def force_static_def act_on_panic_def act_defs on_ctx_def os_call_def)
  qed
qed

text \<open>The state in which the guest starts to run.\<close>

definition started ::
  "string \<Rightarrow> string list \<Rightarrow> 'w \<Rightarrow> ('w FnState \<Rightarrow> bool)" where
  "started key args w s = (caller_id (fn_ctx s) = key \<and> WASI_STATE (fn_ctx s) key = Some args \<and> os (fn_ctx s) = w)"

lemma call_start_ok:
  assumes "module_ok md"
  shows "\<exists>mem. call_start md grow i s =
    act_bind (on_ctx (md_start md)) (\<lambda>_. act_ret ()) (s\<lparr>fn_ctx := (fn_ctx s)\<lparr>caller_id := i, linear := mem\<rparr>\<rparr>)"
proof -
  obtain mem mem' where md: "md_deserialize md" "md_memory md" "md_has_start md = Ok ()" "md_instantiate md = Ok mem"
    "md_grow md 20000 mem = Some mem'" using assms by (auto simp: module_ok_def)
  show ?thesis
    by (rule exI [of _ "if grow then mem' else mem"])
       (simp add: call_start_def build_wasm_def import_all_succeeds md grow_memory_def act_defs)
qed

lemma wasm_body_ok:
  assumes "module_ok md" "root_opens h s"
  shows "\<exists>s0. wasm_body h md grow key args s = act_bind (on_ctx (md_start md)) (\<lambda>_. act_ret ()) s0 \<and>
    started key args (if MUST_OPEN_ROOT s = Ready then os (fn_ctx s) else snd (h_open h ''/'' 0 RD (os (fn_ctx s)))) s0 \<and>
    JMP_BUF_MAP (fn_ctx s0) = JMP_BUF_MAP (fn_ctx s)"
proof -
  let ?s1 = "s\<lparr>fn_ctx := (fn_ctx s)\<lparr>WASI_STATE := (WASI_STATE (fn_ctx s))(key \<mapsto> args)\<rparr>\<rparr>"
  have set: "set_wasi_args key args s = (Ok (), ?s1)"
    by (simp add: set_wasi_args_def set_wasi_state_def on_ctx_def act_defs)
  have "root_opens h ?s1" using assms(2) by (simp add: root_opens_def)
  from open_root_ok [OF this] obtain w where
    w: "open_root h ?s1 = (Ok (), ?s1\<lparr>MUST_OPEN_ROOT := Ready, fn_ctx := (fn_ctx ?s1)\<lparr>os := w\<rparr>\<rparr>)"
    "w = (if MUST_OPEN_ROOT s = Ready then os (fn_ctx s) else snd (h_open h ''/'' 0 RD (os (fn_ctx s))))" by auto
  let ?s2 = "?s1\<lparr>MUST_OPEN_ROOT := Ready, fn_ctx := (fn_ctx ?s1)\<lparr>os := w\<rparr>\<rparr>"
  obtain mem where "call_start md grow key ?s2 =
      act_bind (on_ctx (md_start md)) (\<lambda>_. act_ret ()) (?s2\<lparr>fn_ctx := (fn_ctx ?s2)\<lparr>caller_id := key, linear := mem\<rparr>\<rparr>)"
    using call_start_ok [OF assms(1)] by blast
  then show ?thesis
    unfolding wasm_body_def act_bind_def [of "set_wasi_args key args"] act_bind_def [of "open_root h"]
    by (intro exI [of _ "?s2\<lparr>fn_ctx := (fn_ctx ?s2)\<lparr>caller_id := key, linear := mem\<rparr>\<rparr>"]) (simp add: set w started_def)
qed

lemma bind_ret: "act_bind (act_ret a) f = f a"
  by (simp add: act_bind_def act_ret_def)

lemma bind_modify: "act_bind (act_modify g) f s = f () (g s)"
  by (simp add: act_bind_def act_modify_def)

lemma python_body_ok:
  assumes "module_ok md" "root_opens h s"
  shows "\<exists>s0. python_body h md jb key args s = act_bind (on_ctx (md_start md)) (\<lambda>_. act_ret ()) s0 \<and>
    started key args (if MUST_OPEN_ROOT s = Ready then os (fn_ctx s) else snd (h_open h ''/'' 0 RD (os (fn_ctx s)))) s0 \<and>
    JMP_BUF_MAP (fn_ctx s0) key = Some jb"
proof -
  let ?s = "s\<lparr>fn_ctx := (fn_ctx s)\<lparr>JMP_BUF_MAP := (JMP_BUF_MAP (fn_ctx s))(key \<mapsto> jb)\<rparr>\<rparr>"
  have "root_opens h ?s" using assms(2) by (simp add: root_opens_def)
  from wasm_body_ok [OF assms(1) this, of False key args] show ?thesis
    by (auto simp: python_body_def bind_modify)
qed

lemma wasm_main_body:
  assumes "\<forall>p \<in> set (fn_params f). arg_text get_arg p = Some (value_of (fst p))" "f = WPython \<longrightarrow> get_arg ''id'' = Some (value_of ''id'')"
  shows "wasm_main f h md jb get_arg s =
    (if is_python f then python_body h md jb (fst (fn_key f) @ value_of (snd (fn_key f))) (''python.wasm'' # map (\<lambda>p. value_of (fst p)) (fn_params f))
     else wasm_body h md True (fst (fn_key f) @ value_of (snd (fn_key f))) (fake_path # map (\<lambda>p. value_of (fst p)) (fn_params f))) s"
  using assms
  by (cases f) (auto simp: wasm_mapper_main_def wasm_reducer_main_def wasm_sorter_main_def wasm_spliter_main_def
      wasm_merger_main_def wasm_checker_main_def cpython_main_def cpython_func_main_def cpython_mapper_main_def
      cpython_reducer_main_def cpython_parallel_sort_main_def cpython_wordcount_main_def is_python_def arg_text_def
      str_arg_def num_arg_def bind_ret)

text \<open>C22: A guest finds what the function was called with. For each of the twelve functions \<open>wasmtime_mapper\<close>,
  \<open>reducer\<close>, \<open>sorter\<close>, \<open>spliter\<close>, \<open>merger\<close>, \<open>checker\<close>, \<open>cpython\<close> and \<open>cpython_func\<close>, \<open>_mapper\<close>, \<open>_reducer\<close>,
  \<open>_parallel_sort\<close>, \<open>_wordcount\<close>: if the arguments are there and well formed, the module loads and the root
  directory opens, \<open>_start\<close> runs in a context that is known by the key of the function, in which \<open>args_get\<close>
  finds the program name followed by the arguments in their order, numbers printed in decimal, and, for a
  Python program, \<open>proc_exit\<close> finds the jump buffer of this very function. The functions \<open>wasmtime_write\<close> and
  \<open>wasmtime_trans_data\<close>, which pass no arguments on, \<open>wasmtime_longchain\<close> and \<open>wasmtime_hello\<close> are not among them.\<close>

theorem wasm_guest_finds_arguments:
  assumes "\<forall>p \<in> set (fn_params f). arg_text get_arg p = Some (value_of (fst p))" "f = WPython \<longrightarrow> get_arg ''id'' = Some (value_of ''id'')"
    and "module_ok md" "root_opens h s"
  shows "\<exists>s0. wasm_main f h md jb get_arg s = act_bind (on_ctx (md_start md)) (\<lambda>_. act_ret ()) s0 \<and>
    caller_id (fn_ctx s0) = fst (fn_key f) @ value_of (snd (fn_key f)) \<and>
    get_wasi_state (fn_ctx s0) =
      (Ok ((if is_python f then ''python.wasm'' else fake_path) # map (\<lambda>p. value_of (fst p)) (fn_params f)), fn_ctx s0) \<and>
    (is_python f \<longrightarrow> wasi_proc_exit 0 (fn_ctx s0) = (Ok jb, fn_ctx s0))"
proof -
  let ?key = "fst (fn_key f) @ value_of (snd (fn_key f))" and ?params = "map (\<lambda>p. value_of (fst p)) (fn_params f)"
  note main = wasm_main_body [OF assms(1, 2), of h md jb s]
  show ?thesis
  proof (cases "is_python f")
    case True
    with main python_body_ok [OF assms(3, 4), of jb ?key "''python.wasm'' # ?params"] show ?thesis
      by (auto simp: started_def get_wasi_state_def wasi_proc_exit_def)
  next
    case False
    with main wasm_body_ok [OF assms(3, 4), of True ?key "fake_path # ?params"] show ?thesis
      by (auto simp: started_def get_wasi_state_def)
  qed
qed

definition small_module :: "unit Module" where
  "small_module = \<lparr>md_deserialize = True, md_instantiate = Ok [0, 0], md_memory = True, md_grow = (\<lambda>n m. Some (m @ [0])),
     md_has_start = Ok (), md_start = act_ret Returned\<rparr>"

definition small_host :: "unit WasiHost" where
  "small_host = \<lparr>h_read = (\<lambda>_ _. act_ret []), h_write = (\<lambda>_ _. act_ret 0), h_open = (\<lambda>_ _ _. act_ret 3), h_close = (\<lambda>_. act_ret ()),
     h_stat = (\<lambda>_. act_panic), h_readdir = (\<lambda>_. act_ret []), h_nanos = (\<lambda>w. (0, w)), h_pad = (\<lambda>_. 0)\<rparr>"

definition small_state :: "'w \<Rightarrow> 'w FnState" where
  "small_state w = \<lparr>fn_ctx = \<lparr>caller_id = [], linear = [], WASI_STATE = Map.empty, FD2PATH = Map.empty, JMP_BUF_MAP = Map.empty,
     os = w\<rparr>, MUST_OPEN_ROOT = Uninit, fn_slots = Map.empty\<rparr>"

theorem wasm_guest_finds_arguments_witness:
  "let get_arg = [''id'' \<mapsto> ''2'', ''pyfile_path'' \<mapsto> ''/map.py'', ''reducer_num'' \<mapsto> to_string 7] in
   \<exists>s0. wasm_main WPyMapper small_host small_module 99 get_arg (small_state ()) =
      act_bind (on_ctx (md_start small_module)) (\<lambda>_. act_ret ()) s0 \<and>
    caller_id (fn_ctx s0) = ''mapper_2'' \<and>
    fst (get_wasi_state (fn_ctx s0)) = Ok [''python.wasm'', ''/map.py'', ''2'', to_string 7] \<and>
    fst (wasi_proc_exit 0 (fn_ctx s0)) = Ok 99"
proof -
  let ?get = "[''id'' \<mapsto> ''2'', ''pyfile_path'' \<mapsto> ''/map.py'', ''reducer_num'' \<mapsto> to_string 7]"
  have "parse_uint 64 (to_string 7) = Some 7" by (rule parse_uint_to_string) simp
  then have args: "\<forall>p \<in> set (fn_params WPyMapper). arg_text ?get p = Some (the (?get (fst p)))" by (simp add: arg_text_def)
  have "module_ok small_module" "root_opens small_host (small_state ())"
    by (simp_all add: module_ok_def small_module_def root_opens_def small_host_def small_state_def act_ret_def)
  from wasm_guest_finds_arguments [where value_of = "\<lambda>n. the (?get n)" and jb = 99, OF args _ this]
  show ?thesis by (auto simp: Let_def is_python_def)
qed

end
