(* ===== verification/Proc_Maps.thy ===== *)
theory Proc_Maps
  imports Visor_Model Rust_Fmt
begin

text \<open>
  Reading the memory map of the process, from which the visor learns what to protect with a
  key (\<open>parse_memory_segments\<close> of \<open>libasvisor/src/utils.rs\<close>). The text of
  \<open>/proc/self/maps\<close> is the argument; the segments found are what \<open>segments\<close> of the visor's
  environment stands for. The length of a segment is a wrapping subtraction, as in the release build.
\<close>

section \<open>Hexadecimal numbers\<close>

definition hex_val :: "char \<Rightarrow> nat option" where
  "hex_val c = (let n = (of_char c :: nat) in
    if 48 \<le> n \<and> n \<le> 57 then Some (n - 48)
    else if 97 \<le> n \<and> n \<le> 102 then Some (n - 87)
    else if 65 \<le> n \<and> n \<le> 70 then Some (n - 55)
    else None)"

fun parse_hex_digits :: "nat \<Rightarrow> nat \<Rightarrow> string \<Rightarrow> nat option" where
  "parse_hex_digits w acc [] = Some acc"
| "parse_hex_digits w acc (c # cs) =
    (case hex_val c of
       None \<Rightarrow> None
     | Some d \<Rightarrow> if acc * 16 + d < 2 ^ w then parse_hex_digits w (acc * 16 + d) cs else None)"

text \<open>\<open>usize::from_str_radix(_, 16)\<close>.\<close>

definition parse_hex :: "nat \<Rightarrow> string \<Rightarrow> nat option" where
  "parse_hex w s =
    (case s of
       [] \<Rightarrow> None
     | c # cs \<Rightarrow>
        if c = CHR ''+'' then (if cs = [] then None else parse_hex_digits w 0 cs)
        else parse_hex_digits w 0 s)"

section \<open>The parser\<close>

text \<open>\<open>str::lines\<close>.\<close>

definition lines_of :: "string \<Rightarrow> string list" where
  "lines_of s = (let ps = split_on CHR 0x0A s in
    map (\<lambda>l. if l \<noteq> [] \<and> last l = CHR 0x0D then butlast l else l)
      (if last ps = [] then butlast ps else ps))"

definition PROT_READ :: nat where "PROT_READ = 1"
definition PROT_WRITE :: nat where "PROT_WRITE = 2"
definition PROT_EXEC :: nat where "PROT_EXEC = 4"

definition parse_segment :: "string \<Rightarrow> (string, MemorySegment) res" where
  "parse_segment line =
    (let parts = split_whitespace line;
         path = (if length parts = 6 then Some (parts ! 5) else None)
     in bind_res (unwrap_opt (vec_get parts 0)) (\<lambda>range.
        let items = split_on CHR ''-'' range in
        bind_res (unwrap_opt (vec_get items 0)) (\<lambda>item.
        bind_res (unwrap_opt (parse_hex 64 item)) (\<lambda>start.
        bind_res (unwrap_opt (vec_get parts 1)) (\<lambda>flags.
        let perm = (if CHR ''r'' \<in> set flags then PROT_READ else 0)
                 + (if CHR ''w'' \<in> set flags then PROT_WRITE else 0)
                 + (if CHR ''x'' \<in> set flags then PROT_EXEC else 0) in
        bind_res (unwrap_opt (vec_get items 1)) (\<lambda>item.
        bind_res (unwrap_opt (parse_hex 64 item)) (\<lambda>end_addr.
        Ok \<lparr>start_addr = word_of_nat start, seg_length = word_of_nat end_addr - word_of_nat start,
            seg_perm = perm, seg_path = path\<rparr>)))))))"

fun parse_segments :: "string list \<Rightarrow> MemorySegment list \<Rightarrow> (string, MemorySegment list) res" where
  "parse_segments [] segs = Ok segs"
| "parse_segments (line # rest) segs =
    bind_res (parse_segment line) (\<lambda>seg. parse_segments rest (segs @ [seg]))"

definition parse_memory_segments :: "string \<Rightarrow> (string, MemorySegment list) res" where
  "parse_memory_segments maps_str = parse_segments (lines_of maps_str) []"

section \<open>What the kernel prints\<close>

text \<open>The layout of a line of \<open>/proc/self/maps\<close> (\<open>proc_pid_maps(5)\<close>): range, four flags, offset, device and
  inode, each followed by one blank; a mapping with a name is then padded with blanks to column
  72, and the name comes after one more. The numbers are hexadecimal with leading zeros, the inode is
  decimal. A name may have blanks in it.\<close>

record Mapping_line =
  m_start :: nat
  m_end :: nat
  m_read :: bool
  m_write :: bool
  m_exec :: bool
  m_shared :: bool
  m_offset :: nat
  m_major :: nat
  m_minor :: nat
  m_inode :: nat
  m_name :: string

definition hex_char :: "nat \<Rightarrow> char" where
  "hex_char d = char_of (if d < 10 then 48 + d else 87 + d)"

fun to_hex :: "nat \<Rightarrow> string" where
  "to_hex n = (if n < 16 then [hex_char n] else to_hex (n div 16) @ [hex_char (n mod 16)])"

declare to_hex.simps [simp del]

definition hex_pad :: "nat \<Rightarrow> nat \<Rightarrow> string" where
  "hex_pad k n = replicate (k - length (to_hex n)) CHR ''0'' @ to_hex n"

definition print_range :: "Mapping_line \<Rightarrow> string" where
  "print_range m = hex_pad 8 (m_start m) @ ''-'' @ hex_pad 8 (m_end m)"

definition print_flags :: "Mapping_line \<Rightarrow> string" where
  "print_flags m =
    [if m_read m then CHR ''r'' else CHR ''-'', if m_write m then CHR ''w'' else CHR ''-'',
     if m_exec m then CHR ''x'' else CHR ''-'', if m_shared m then CHR ''s'' else CHR ''p'']"

definition print_dev :: "Mapping_line \<Rightarrow> string" where
  "print_dev m = hex_pad 2 (m_major m) @ '':'' @ hex_pad 2 (m_minor m)"

definition print_head :: "Mapping_line \<Rightarrow> string" where
  "print_head m = print_range m @ '' '' @ print_flags m @ '' '' @ hex_pad 8 (m_offset m) @ '' '' @
    print_dev m @ '' '' @ to_string (m_inode m) @ '' ''"

definition print_line :: "Mapping_line \<Rightarrow> string" where
  "print_line m = print_head m @
    (if m_name m = [] then []
     else replicate (72 - length (print_head m)) CHR '' '' @ '' '' @ m_name m)"

definition is_word :: "string \<Rightarrow> bool" where
  "is_word w = (w \<noteq> [] \<and> (\<forall>c \<in> set w. \<not> is_ws c))"

text \<open>A name that does not begin or end with a blank; the kernel prints a line break in a name as an
  escape sequence.\<close>

definition mapping_ok :: "Mapping_line \<Rightarrow> bool" where
  "mapping_ok m = (m_start m \<le> m_end m \<and> m_end m < 2 ^ 64 \<and> CHR 0x0A \<notin> set (m_name m) \<and>
    (m_name m \<noteq> [] \<longrightarrow> \<not> is_ws (hd (m_name m)) \<and> \<not> is_ws (last (m_name m))))"

definition segment_of :: "Mapping_line \<Rightarrow> MemorySegment" where
  "segment_of m =
    \<lparr>start_addr = word_of_nat (m_start m), seg_length = word_of_nat (m_end m - m_start m),
     seg_perm = (if m_read m then 1 else 0) + (if m_write m then 2 else 0) + (if m_exec m then 4 else 0),
     seg_path = (if is_word (m_name m) then Some (m_name m) else None)\<rparr>"

section \<open>Splitting at blanks\<close>

lemma split_ws_blank [simp]: "is_ws c \<Longrightarrow> split_whitespace (c # s) = split_whitespace s"
  by (simp add: split_whitespace_def)

lemma split_ws_blanks [simp]: "split_whitespace (replicate k CHR '' '' @ s) = split_whitespace s"
  by (induction k) (simp_all add: is_ws_def)

lemma split_ws_word:
  assumes "is_word w" "s = [] \<or> is_ws (hd s)"
  shows "split_whitespace (w @ s) = w # split_whitespace s"
proof -
  let ?f = "\<lambda>c. if is_ws c then CHR '' '' else c"
  have w: "map ?f w = w" "CHR '' '' \<notin> set w" "w \<noteq> []"
    using assms(1) map_no_ws [of w] by (auto simp: is_word_def is_ws_def)
  show ?thesis
  proof (cases s)
    case Nil
    with w show ?thesis by (simp add: split_whitespace_def split_on_whole)
  next
    case (Cons c cs)
    with assms(2) have "map ?f (w @ s) = w @ CHR '' '' # map ?f cs" "is_ws c" using w(1) by auto
    with w Cons show ?thesis by (simp add: split_whitespace_def split_on_first)
  qed
qed

lemma split_ws_some: "c \<in> set s \<Longrightarrow> \<not> is_ws c \<Longrightarrow> split_whitespace s \<noteq> []"
proof (induction s)
  case (Cons d s)
  show ?case
  proof (cases "is_ws d")
    case True
    with Cons show ?thesis by auto
  next
    case False
    let ?w = "takeWhile (\<lambda>c. \<not> is_ws c) (d # s)" and ?r = "dropWhile (\<lambda>c. \<not> is_ws c) (d # s)"
    have "is_word ?w" using False by (auto simp: is_word_def dest: set_takeWhileD)
    moreover have "?r = [] \<or> is_ws (hd ?r)" using hd_dropWhile [of "\<lambda>c. \<not> is_ws c" "d # s"] by blast
    ultimately have "split_whitespace (?w @ ?r) = ?w # split_whitespace ?r" by (rule split_ws_word)
    then show ?thesis by (simp only: takeWhile_dropWhile_id) simp
  qed
qed simp

text \<open>A name with a blank inside is at least two words.\<close>

lemma split_ws_name:
  assumes "name \<noteq> []" "\<not> is_ws (hd name)" "\<not> is_ws (last name)"
  shows "length (split_whitespace name) = 1 \<longleftrightarrow> is_word name"
proof (cases "is_word name")
  case True
  then show ?thesis using split_ws_word [of name "[]"] by (simp add: split_whitespace_def)
next
  case False
  let ?w = "takeWhile (\<lambda>c. \<not> is_ws c) name" and ?r = "dropWhile (\<lambda>c. \<not> is_ws c) name"
  have w: "is_word ?w" using assms by (cases name) (auto simp: is_word_def dest: set_takeWhileD)
  have "?r \<noteq> []" using False assms(1) by (auto simp: is_word_def dropWhile_eq_Nil_conv)
  then have r: "is_ws (hd ?r)" "last ?r = last name"
    using hd_dropWhile [of "\<lambda>c. \<not> is_ws c" name] last_appendR [of ?r ?w] by auto
  have "split_whitespace ?r \<noteq> []"
    using split_ws_some [OF last_in_set [OF \<open>?r \<noteq> []\<close>]] r(2) assms(3) by (simp only: simp_thms)
  moreover have "split_whitespace name = ?w # split_whitespace ?r"
    using split_ws_word [OF w, of ?r] r(1) by (simp only: takeWhile_dropWhile_id simp_thms)
  ultimately show ?thesis using False by simp
qed

section \<open>Reading back\<close>

lemma hex_char_val: "d < 16 \<Longrightarrow> hex_val (hex_char d) = Some d"
  by (auto simp: hex_val_def hex_char_def Let_def)

lemma hex_char_no: "d < 16 \<Longrightarrow> \<not> is_ws (hex_char d) \<and> hex_char d \<noteq> CHR ''-'' \<and> hex_char d \<noteq> CHR ''+''"
proof -
  assume d: "d < 16"
  have "hex_val (CHR ''-'') = None" "hex_val (CHR ''+'') = None" by (simp_all add: hex_val_def)
  moreover have "\<not> is_ws (hex_char d)"
  proof
    assume "is_ws (hex_char d)"
    then have "hex_val (hex_char d) = None" by (auto simp: is_ws_def hex_val_def Let_def)
    with hex_char_val [OF d] show False by simp
  qed
  ultimately show ?thesis using hex_char_val [OF d] by auto
qed

lemma parse_hex_digits_append:
  "parse_hex_digits w acc (xs @ ys) =
    (case parse_hex_digits w acc xs of None \<Rightarrow> None | Some a \<Rightarrow> parse_hex_digits w a ys)"
  by (induction w acc xs rule: parse_hex_digits.induct) (auto split: option.splits)

lemma to_hex_chars: "c \<in> set (to_hex n) \<Longrightarrow> \<exists>d<16. c = hex_char d"
proof (induction n rule: to_hex.induct)
  case (1 n)
  have last: "\<exists>d<16. hex_char (n mod 16) = hex_char d" by (intro exI [of _ "n mod 16"]) simp
  from 1 show ?case using to_hex.simps [of n] last by (cases "n < 16") auto
qed

lemma to_hex_not_Nil [simp]: "to_hex n \<noteq> []"
  by (subst to_hex.simps) simp

lemma parse_to_hex: "n < 2 ^ w \<Longrightarrow> parse_hex_digits w 0 (to_hex n) = Some n"
proof (induction n rule: to_hex.induct)
  case (1 n)
  show ?case
  proof (cases "n < 16")
    case True
    with 1(2) show ?thesis using to_hex.simps [of n] hex_char_val [of n] by simp
  next
    case False
    have "n div 16 < 2 ^ w" using 1(2) by (meson div_le_dividend le_less_trans)
    with False 1(1) have "parse_hex_digits w 0 (to_hex (n div 16)) = Some (n div 16)" by simp
    moreover have "hex_val (hex_char (n mod 16)) = Some (n mod 16)" by (simp add: hex_char_val)
    ultimately show ?thesis
      using False 1(2) to_hex.simps [of n] by (simp add: parse_hex_digits_append)
  qed
qed

lemma parse_hex_zeros: "parse_hex_digits w 0 (replicate k CHR ''0'' @ s) = parse_hex_digits w 0 s"
  by (induction k) (simp_all add: hex_val_def)

lemma hex_pad_chars: "c \<in> set (hex_pad k n) \<Longrightarrow> \<not> is_ws c \<and> c \<noteq> CHR ''-'' \<and> c \<noteq> CHR ''+''"
proof -
  assume "c \<in> set (hex_pad k n)"
  then consider "c = CHR ''0''" | "c \<in> set (to_hex n)"
    by (auto simp: hex_pad_def split: if_splits)
  then show ?thesis
  proof cases
    case 1
    then show ?thesis by (simp add: is_ws_def)
  next
    case 2
    then obtain d where "d < 16" "c = hex_char d" using to_hex_chars by blast
    then show ?thesis using hex_char_no [of d] by simp
  qed
qed

lemma hex_pad_not_Nil [simp]: "hex_pad k n \<noteq> []"
  by (simp add: hex_pad_def)

lemma hex_pad_word [simp]: "is_word (hex_pad k n)"
  using hex_pad_chars by (auto simp: is_word_def)

lemma parse_hex_pad: "n < 2 ^ w \<Longrightarrow> parse_hex w (hex_pad k n) = Some n"
proof -
  assume "n < 2 ^ w"
  then have "parse_hex_digits w 0 (hex_pad k n) = Some n"
    by (simp add: hex_pad_def parse_hex_zeros parse_to_hex)
  moreover have "hd (hex_pad k n) \<noteq> CHR ''+''"
    using hex_pad_chars [of "hd (hex_pad k n)" k n] by simp
  ultimately show ?thesis by (cases "hex_pad k n") (simp_all add: parse_hex_def)
qed

lemma print_flags_set:
  "CHR ''r'' \<in> set (print_flags m) \<longleftrightarrow> m_read m" "CHR ''w'' \<in> set (print_flags m) \<longleftrightarrow> m_write m"
  "CHR ''x'' \<in> set (print_flags m) \<longleftrightarrow> m_exec m"
  by (auto simp: print_flags_def split: if_splits)

lemma split_range: "split_on CHR ''-'' (print_range m) = [hex_pad 8 (m_start m), hex_pad 8 (m_end m)]"
proof -
  have no: "CHR ''-'' \<notin> set (hex_pad k n)" for k n using hex_pad_chars by blast
  show ?thesis
    using split_on_first [OF no, of 8 "m_start m" "hex_pad 8 (m_end m)"] split_on_whole [OF no, of 8 "m_end m"]
    by (simp add: print_range_def)
qed

lemma field_words:
  "is_word (print_range m)" "is_word (print_flags m)" "is_word (print_dev m)" "is_word (to_string n)"
proof -
  show "is_word (print_range m)" using hex_pad_chars by (auto simp: is_word_def print_range_def is_ws_def)
  show "is_word (print_flags m)" by (simp add: is_word_def print_flags_def is_ws_def)
  show "is_word (print_dev m)" using hex_pad_chars by (auto simp: is_word_def print_dev_def is_ws_def)
  have "\<not> is_ws c" if "is_ascii_digit c" for c using that by (auto simp: is_ws_def is_ascii_digit_def)
  then show "is_word (to_string n)" using to_string_digits [of _ n] by (auto simp: is_word_def)
qed

lemma blank_ws [simp]: "is_ws CHR '' ''"
  by (simp add: is_ws_def)

lemma split_head:
  "split_whitespace (print_head m @ s) =
    [print_range m, print_flags m, hex_pad 8 (m_offset m), print_dev m, to_string (m_inode m)] @ split_whitespace s"
  by (simp add: print_head_def split_ws_word field_words)

lemma split_print_line:
  "split_whitespace (print_line m) =
    [print_range m, print_flags m, hex_pad 8 (m_offset m), print_dev m, to_string (m_inode m)] @ split_whitespace (m_name m)"
  by (simp add: print_line_def split_head split_whitespace_def [of "[]"])

lemma name_words:
  assumes "mapping_ok m"
  shows "length (split_whitespace (m_name m)) = 1 \<longleftrightarrow> is_word (m_name m)"
    "is_word (m_name m) \<Longrightarrow> split_whitespace (m_name m) = [m_name m]"
proof -
  show "length (split_whitespace (m_name m)) = 1 \<longleftrightarrow> is_word (m_name m)"
    using assms split_ws_name [of "m_name m"]
    by (cases "m_name m = []") (simp_all add: mapping_ok_def split_whitespace_def is_word_def)
  show "is_word (m_name m) \<Longrightarrow> split_whitespace (m_name m) = [m_name m]"
    using split_ws_word [of "m_name m" "[]"] by (simp add: split_whitespace_def)
qed

lemma parse_print_line:
  assumes "mapping_ok m"
  shows "parse_segment (print_line m) = Ok (segment_of m)"
proof -
  have bounds: "m_start m < 2 ^ 64" "m_end m < 2 ^ 64" "m_start m \<le> m_end m"
    using assms by (auto simp: mapping_ok_def)
  have path: "(if length (split_whitespace (print_line m)) = 6 then Some (split_whitespace (print_line m) ! 5) else None) =
      (if is_word (m_name m) then Some (m_name m) else None)"
    using name_words [OF assms] by (simp add: split_print_line)
  have parts: "vec_get (split_whitespace (print_line m)) 0 = Some (print_range m)"
    "vec_get (split_whitespace (print_line m)) 1 = Some (print_flags m)"
    by (simp_all add: split_print_line vec_get_def)
  show ?thesis
    unfolding parse_segment_def path parts Let_def
    using bounds
    by (simp add: vec_get_def split_range parse_hex_pad print_flags_set segment_of_def
        PROT_READ_def PROT_WRITE_def PROT_EXEC_def)
qed

lemma parse_segments_all:
  "list_all mapping_ok ms \<Longrightarrow>
   parse_segments (map print_line ms) segs = Ok (segs @ map segment_of ms)"
  by (induction ms arbitrary: segs) (simp_all add: parse_print_line)

lemma print_line_breaks:
  assumes "mapping_ok m"
  shows "CHR 0x0A \<notin> set (print_line m)" "last (print_line m) \<noteq> CHR 0x0D"
proof -
  have ws: "is_ws CHR 0x0A" "is_ws CHR 0x0D" by (simp_all add: is_ws_def)
  with field_words(1-3) [of m] field_words(4) [of "m_inode m"] hex_pad_word [of 8 "m_offset m"]
  have "CHR 0x0A \<notin> set (print_head m)" by (auto simp: print_head_def is_word_def)
  then show "CHR 0x0A \<notin> set (print_line m)" using assms by (simp add: print_line_def mapping_ok_def)
  show "last (print_line m) \<noteq> CHR 0x0D"
    using assms ws(2) by (auto simp: print_line_def mapping_ok_def print_head_def)
qed

lemma split_printed:
  "list_all mapping_ok ms \<Longrightarrow>
   split_on CHR 0x0A (concat (map (\<lambda>m. print_line m @ [CHR 0x0A]) ms)) = map print_line ms @ [[]]"
proof (induction ms)
  case (Cons m ms)
  then show ?case
    using split_on_first [OF print_line_breaks(1) [of m], of "concat (map (\<lambda>m. print_line m @ [CHR 0x0A]) ms)"]
    by simp
qed simp

lemma lines_of_printed:
  assumes "list_all mapping_ok ms"
  shows "lines_of (concat (map (\<lambda>m. print_line m @ [CHR 0x0A]) ms)) = map print_line ms"
proof -
  let ?strip = "\<lambda>l. if l \<noteq> [] \<and> last l = CHR 0x0D then butlast l else l"
  have "\<forall>m \<in> set ms. last (print_line m) \<noteq> CHR 0x0D"
    using print_line_breaks(2) assms by (auto simp: list_all_iff)
  then have "map ?strip (map print_line ms) = map print_line ms" by simp
  then show ?thesis by (simp only: lines_of_def split_printed [OF assms] Let_def last_snoc butlast_snoc if_True simp_thms)
qed

section \<open>Properties\<close>

lemma unnamed_skipped:
  "protect_segments env needs pkey (map segment_of ms) =
   protect_segments env needs pkey (map segment_of (filter (\<lambda>m. is_word (m_name m)) ms))"
  by (induction ms) (simp_all add: segment_of_def)

text \<open>C27: What the kernel prints for a list of mappings, with the blanks that align the names, is read
  back as their segments, with their ranges and protections. The name is kept only if it has no blank
  in it: a mapping of a file whose name has one (the kernel marks a library that was replaced on disk
  with a blank and \<open>(deleted)\<close>) becomes a segment without a path, like a mapping of no file, and
  protecting the libraries with a key passes over it whatever names are asked for. Names are taken not
  to begin or end with a blank.\<close>

theorem maps_text_parsed:
  assumes "list_all mapping_ok ms"
  shows "parse_memory_segments (concat (map (\<lambda>m. print_line m @ [CHR 0x0A]) ms)) = Ok (map segment_of ms)
    \<and> protect_segments env needs pkey (map segment_of ms) =
        protect_segments env needs pkey (map segment_of (filter (\<lambda>m. is_word (m_name m)) ms))"
  using parse_segments_all [OF assms, of "[]"] lines_of_printed [OF assms] unnamed_skipped
  by (simp add: parse_memory_segments_def)

definition sample_mapping :: "string \<Rightarrow> Mapping_line" where
  "sample_mapping name =
    \<lparr>m_start = 4096, m_end = 12288, m_read = True, m_write = False, m_exec = True, m_shared = False,
     m_offset = 0, m_major = 8, m_minor = 1, m_inode = 42, m_name = name\<rparr>"

definition sample_segment :: "string option \<Rightarrow> MemorySegment" where
  "sample_segment path = \<lparr>start_addr = 4096, seg_length = 8192, seg_perm = 5, seg_path = path\<rparr>"

lemma sample_head: "print_head (sample_mapping name) = ''00001000-00003000 r-xp 00000000 08:01 42 ''"
proof -
  have "to_hex 4096 = ''1000''" "to_hex 12288 = ''3000''" "to_hex 0 = ''0''" "to_hex 8 = ''8''" "to_hex 1 = ''1''"
    by (simp_all add: to_hex.simps hex_char_def char_of_def bit_0)
  moreover have "replicate 4 CHR ''0'' = ''0000''" "replicate 7 CHR ''0'' = ''0000000''"
    by (simp_all add: numeral_eq_Suc)
  ultimately have "hex_pad 8 4096 = ''00001000''" "hex_pad 8 12288 = ''00003000''" "hex_pad 8 0 = ''00000000''"
    "hex_pad 2 8 = ''08''" "hex_pad 2 1 = ''01''"
    by (simp_all add: hex_pad_def)
  moreover have "to_string 42 = ''42''" by (simp add: to_string.simps digit_char_def char_of_def bit_0)
  ultimately show ?thesis
    by (simp add: print_head_def print_range_def print_flags_def print_dev_def sample_mapping_def)
qed

lemma sample_name: "m_name (sample_mapping name) = name"
  by (simp add: sample_mapping_def)

theorem maps_text_parsed_witness:
  "parse_memory_segments (concat
     [''00001000-00003000 r-xp 00000000 08:01 42                                 /lib/libhello.so\<newline>'',
      ''00001000-00003000 r-xp 00000000 08:01 42                                 /lib/libfdtab.so (deleted)\<newline>'',
      ''00001000-00003000 r-xp 00000000 08:01 42 \<newline>'']) =
    Ok [sample_segment (Some ''/lib/libhello.so''), sample_segment None, sample_segment None]"
proof -
  let ?ms = "[sample_mapping ''/lib/libhello.so'', sample_mapping ''/lib/libfdtab.so (deleted)'', sample_mapping []]"
  have ok: "list_all mapping_ok ?ms"
    by (simp add: mapping_ok_def sample_mapping_def is_ws_def)
  have pad: "replicate 31 (CHR '' '') = ''                               ''" by (simp add: numeral_eq_Suc)
  have "map (\<lambda>m. print_line m @ [CHR 0x0A]) ?ms =
     [''00001000-00003000 r-xp 00000000 08:01 42                                 /lib/libhello.so\<newline>'',
      ''00001000-00003000 r-xp 00000000 08:01 42                                 /lib/libfdtab.so (deleted)\<newline>'',
      ''00001000-00003000 r-xp 00000000 08:01 42 \<newline>'']"
    by (simp add: print_line_def sample_head sample_name pad)
  moreover have "map segment_of ?ms = [sample_segment (Some ''/lib/libhello.so''), sample_segment None, sample_segment None]"
    by (simp add: segment_of_def sample_segment_def sample_mapping_def is_word_def is_ws_def)
  ultimately show ?thesis using maps_text_parsed [OF ok, THEN conjunct1] by (simp only:)
qed

end
