(* ===== verification/Asvisor.thy ===== *)
theory Asvisor
  imports Visor_Props
begin

text \<open>
  The two programs that host workflows: the command line tool (\<open>bins/asvisor/src/main.rs\<close>)
  and the HTTP daemon (\<open>bins/asvisor-d/src/main.rs\<close>). Both load configurations, create
  isolations, run them and let them go; the isolation is dropped where the last \<open>Arc\<close> to it
  is. The file system, the JSON parser and path joining are the fields of \<open>Host\<close>; the
  answers of the kernel to \<open>pkey_alloc\<close> are given per isolation. A panic while another
  one unwinds aborts the process; both are \<open>Panic\<close> here.
\<close>

section \<open>Loading a configuration\<close>

record Host =
  is_file :: "string \<Rightarrow> bool"
  config_join :: "string \<Rightarrow> string"
  read_config :: "string \<Rightarrow> (string, IsolationConfig) res"
  path_join :: "string \<Rightarrow> string \<Rightarrow> string"
  debug_assertions :: bool
  namespace_feature :: bool

text \<open>\<open>config_join\<close> is \<open>ISOL_CONFIG_PATH.join\<close>; \<open>read_config\<close> opens the file and parses it.\<close>

definition from_file :: "Host \<Rightarrow> string \<Rightarrow> (string, IsolationConfig) res" where
  "from_file host p =
    (let p = (if \<not> is_file host p then config_join host p else p) in
     map_ok (config_from_parsed (path_join host) (debug_assertions host) (namespace_feature host))
       (read_config host p))"

section \<open>The command line tool\<close>

datatype CliMetricOpt = CliNone | CliAll | CliTotalDur | CliMem

fun to_analyze :: "CliMetricOpt \<Rightarrow> MetricOpt" where
  "to_analyze CliNone = MNone"
| "to_analyze CliAll = MAll"
| "to_analyze CliMem = MMem"
| "to_analyze CliTotalDur = MTotalDur"

record Args =
  files :: "string list"
  preload_all :: bool
  metrics :: CliMetricOpt
  non_exit :: bool

definition build_all_isol ::
  "Host \<Rightarrow> ('l, 'u) Env \<Rightarrow> (nat \<Rightarrow> nat \<Rightarrow> int) \<Rightarrow> Args \<Rightarrow> (('l, 'u) Visor, string, u64 list) act" where
  "build_all_isol host env pk a =
    act_bind (act_collect (\<lambda>f. act_unwrap (act_lift (from_file host f)))
      (if files a \<noteq> [] then files a else [''base_config.json''])) (\<lambda>configs.
    act_bind (act_collect (\<lambda>(k, config). Isolation_new env (pk k) config) (List.enumerate 0 configs)) (\<lambda>isols.
    act_bind (if preload_all a
              then act_each (\<lambda>(i, config). act_unwrap (preload env i config)) (zip isols configs)
              else act_ret ()) (\<lambda>_.
    act_ret isols)))"

definition msvisor_start :: "Host \<Rightarrow> ('l, 'u) Env \<Rightarrow> u64 \<Rightarrow> (('l, 'u) Visor, string, unit) act" where
  "msvisor_start host env i =
    act_bind (act_unwrap (get_isol i)) (\<lambda>this_isol. \<lambda>v.
    (case isol_run env this_isol v of
       (Err e, v') \<Rightarrow> (if debug_assertions host then Panic else Ok (), v')
     | (r, v') \<Rightarrow> (r, v')))"

text \<open>With the feature \<open>multi_workflow\<close> each isolation runs on a thread of its own and all of
  them are joined; without it more than one file is refused.\<close>

definition async_msvisor_start ::
  "Host \<Rightarrow> ('l, 'u) Env \<Rightarrow> u64 list \<Rightarrow> (('l, 'u) Visor, string, unit) act" where
  "async_msvisor_start host env ids = (\<lambda>v.
    (case schedule env (map (msvisor_start host env) ids) v of
       (rs, v') \<Rightarrow> (if list_all is_ok rs then Ok () else Panic, v')))"

definition start_all ::
  "bool \<Rightarrow> Host \<Rightarrow> ('l, 'u) Env \<Rightarrow> u64 list \<Rightarrow> (('l, 'u) Visor, string, unit) act" where
  "start_all multi_workflow host env ids =
    (if multi_workflow then async_msvisor_start host env ids
     else if 1 < length ids then act_panic
     else (case ids of [] \<Rightarrow> act_panic | i # _ \<Rightarrow> msvisor_start host env i))"

datatype Exit = Exited "MetricReport list" | Blocked "MetricReport list"

definition report :: "Args \<Rightarrow> u64 \<Rightarrow> (('l, 'u) Visor, string, MetricReport list) act" where
  "report a i = (if metrics a = CliNone then act_ret [] else with_isol i (\<lambda>this_isol.
    case analyze (to_analyze (metrics a)) (metric this_isol) of
      Ok r \<Rightarrow> act_ret [r]
    | _ \<Rightarrow> act_panic))"

definition asvisor_main ::
  "bool \<Rightarrow> Host \<Rightarrow> ('l, 'u) Env \<Rightarrow> (nat \<Rightarrow> nat \<Rightarrow> int) \<Rightarrow> Args \<Rightarrow> (('l, 'u) Visor, string, Exit) act" where
  "asvisor_main multi_workflow host env pk a =
    act_bind (build_all_isol host env pk a) (\<lambda>isols.
    act_bind (start_all multi_workflow host env isols) (\<lambda>_.
    act_bind (act_collect (report a) isols) (\<lambda>reports.
    if non_exit a then act_ret (Blocked (concat reports))
    else act_bind (act_each drop_isol isols) (\<lambda>_. act_ret (Exited (concat reports))))))"

section \<open>The daemon\<close>





section \<open>What a run of a workflow leaves of the table\<close>

text \<open>Functions reach the visor through its handlers only, and a schedule interleaves what the
  threads do.\<close>

definition functions_grow :: "('l, 'u) Env \<Rightarrow> bool" where
  "functions_grow env =
    ((\<forall>a items. within visor_grows (run_symbol env a items)) \<and>
     (\<forall>ts v. (\<forall>t \<in> set ts. within visor_grows t) \<longrightarrow> visor_grows v (snd (schedule env ts v))))"

lemma set_libs_grows: "within visor_grows (set_libs_with_pkey env needs pkey)"
  by (rule within_same_grows [OF set_libs_same])

lemma mark_grows:
  "within visor_grows (isol_mark env i ev)" "within visor_grows (service_mark env i m ev)"
  using within_same_grows [OF isol_mark_same] within_same_grows [OF service_mark_same] by auto

lemma protected_grows: "within visor_grows (enter_protected env elf)"
  unfolding enter_protected_def by (intro grows.within_intros)

lemma svc_run_grows: "functions_grow env \<Longrightarrow> within visor_grows (svc_run env i svc a)"
  unfolding svc_run_def elf_run_def
  by (intro grows.within_intros mark_grows protected_grows) (simp add: functions_grow_def)

lemma group_grows:
  assumes "functions_grow env"
  shows "within visor_grows (run_group_in_parallel env i grp)"
  unfolding run_group_in_parallel_def
proof (intro grows.within_bind grows.within_collect app_or_load_grows withinI)
  fix loaded :: "'a Service list" and v r v'
  let ?ts = "map (\<lambda>(app, cfg). act_map_err (\<lambda>e. ''app '' @ elf_name (svc_elf app) @ '' run failed. '' @ e)
    (svc_run env i app (app_args cfg))) (zip loaded grp)"
  assume "(case schedule env ?ts v of (rs, v') \<Rightarrow> (join_all rs, v')) = (r, v')"
  then have "v' = snd (schedule env ?ts v)" by (simp split: prod.splits)
  moreover have "\<forall>t \<in> set ?ts. within visor_grows t"
    by (auto intro!: grows.within_map_err svc_run_grows assms)
  ultimately show "visor_grows v v'" using assms by (simp add: functions_grow_def)
qed

lemma isol_run_grows: "functions_grow env \<Longrightarrow> within visor_grows (isol_run env i)"
  unfolding isol_run_def run_as_sequence_def run_group_step_def
  by (intro grows.within_intros mark_grows set_libs_grows service_or_load_grows with_isol_grows
      app_or_load_grows svc_run_grows group_grows)

lemma preload_grows: "within visor_grows (preload env i config)"
  unfolding preload_def
  by (intro grows.within_intros with_isol_grows app_or_load_grows service_or_load_grows)

section \<open>The daemon serves one workflow\<close>


lemma Isolation_new_panics:
  assumes "Isolation_new env pk config v = (r, v')" "\<And>n. r \<noteq> Ok n"
  shows "r = Panic \<and> ((ID_KEEPER v' = ID_KEEPER v \<or> ID_KEEPER v \<noteq> - 1 \<and> ID_KEEPER v' = ID_KEEPER v + 1) \<and>
    ISOL_TABLE v' = ISOL_TABLE v \<and> table_poisoned v' = table_poisoned v
    \<and> (\<not> table_poisoned v \<longrightarrow> isols v' = isols v))"
  using assms
  by (auto simp: Isolation_new_def gen_new_id_def read_clock_def act_defs Let_def
      split: if_splits res.splits)

lemma poisoned_new: "table_poisoned v \<Longrightarrow> \<exists>v'. Isolation_new env pk config v = (Panic, v') \<and> table_poisoned v'"
  using Isolation_new_effect [of env pk config v] Isolation_new_panics [of env pk config v]
  by (metis prod.exhaust)

lemma table_inv_new_panics:
  assumes "table_inv d v" "Isolation_new env pk config v = (Panic, v')"
  shows "table_inv d v' \<or> table_inv (Suc d) v'"
  using Isolation_new_panics [OF assms(2)] assms(1)
  by (auto simp: table_inv_def unat_succ less_Suc_eq)













definition sample_host :: Host where
  "sample_host = \<lparr>is_file = (\<lambda>p. p = ''hello.json''), config_join = (\<lambda>p. ''isol_config/'' @ p),
     read_config = (\<lambda>p. if p = ''hello.json'' then Ok sample_config else Err ''No such file''),
     path_join = (\<lambda>p q. q), debug_assertions = True, namespace_feature = False\<rparr>"



lemma run_in_order_grows:
  "\<forall>t \<in> set ts. within visor_grows t \<Longrightarrow> visor_grows v (snd (run_in_order ts v))"
proof (induction ts arbitrary: v)
  case (Cons t ts)
  obtain r v1 where t: "t v = (r, v1)" by (cases "t v")
  have "visor_grows v v1" using Cons.prems t withinD [of visor_grows t v r v1] by simp
  moreover have "visor_grows v1 (snd (run_in_order ts v1))" using Cons by simp
  ultimately show ?case using t grows.R_trans by (auto split: prod.splits)
qed (simp add: grows.R_refl)

lemma sample_grows: "functions_grow sample_env"
proof -
  have "within visor_grows (run_symbol sample_env a items)" for a items
    by (rule withinI) (auto simp: sample_env_def visor_grows_def)
  moreover have "schedule sample_env = run_in_order" by (simp add: sample_env_def)
  ultimately show ?thesis by (simp add: functions_grow_def run_in_order_grows)
qed


section \<open>The command line tool hosts one workflow\<close>

lemma configs_pure:
  "act_collect (\<lambda>f. act_unwrap (act_lift (g f))) xs v = (Ok ys, v') \<Longrightarrow> v' = v \<and> length ys = length xs"
  by (induction xs arbitrary: ys v v') (auto simp: act_simps)

lemma collect_new:
  "act_collect (\<lambda>(k, c). Isolation_new env (pk k) c) kcs v = (Ok ids, v') \<Longrightarrow> table_inv 0 v \<Longrightarrow>
   table_inv 0 v' \<and> ISOL_TABLE v' = ISOL_TABLE v @ ids \<and> length ids = length kcs"
proof (induction kcs arbitrary: v ids)
  case (Cons kc kcs)
  obtain k c where kc: "kc = (k, c)" by (rule prod.exhaust)
  obtain n v1 ids' where new: "Isolation_new env (pk k) c v = (Ok n, v1)"
    and rest: "act_collect (\<lambda>(k, c). Isolation_new env (pk k) c) kcs v1 = (Ok ids', v')" "ids = n # ids'"
    using Cons.prems(1) kc by (auto simp: act_simps)
  from Cons.IH [OF rest(1) table_inv_new [OF Cons.prems(2) new]] Isolation_new_effect [OF new] rest(2)
  show ?case by simp
qed (simp add: act_simps)

lemma built_table:
  assumes "build_all_isol host env pk a (visor_start statics u) = (Ok ids, v)"
  shows "table_inv 0 v \<and> ISOL_TABLE v = ids \<and> length ids = max 1 (length (files a))"
proof -
  define fs where "fs = (if files a \<noteq> [] then files a else [''base_config.json''])"
  obtain configs v0 v1 and q :: "(string, unit) res" where
    configs: "act_collect (\<lambda>f. act_unwrap (act_lift (from_file host f))) fs (visor_start statics u) =
      (Ok configs :: (string, IsolationConfig list) res, v0)"
    and new: "act_collect (\<lambda>(k, c). Isolation_new env (pk k) c) (List.enumerate 0 configs) v0 = (Ok ids, v1)"
    and pre: "(if preload_all a then act_each (\<lambda>(i, config). act_unwrap (preload env i config)) (zip ids configs)
       else act_ret ()) v1 = (q, v)"
    using assms unfolding build_all_isol_def fs_def [symmetric] act_bind_apply act_ret_apply by auto
  note c = configs_pure [OF configs]
  then have n: "table_inv 0 v1 \<and> ISOL_TABLE v1 = ids \<and> length ids = length configs"
    using collect_new [OF new] by (simp add: table_inv_start) (simp add: visor_start_def)
  have "within visor_grows (if preload_all a
      then act_each (\<lambda>(i, config). act_unwrap (preload env i config)) (zip ids configs) else act_ret ())"
    by (intro grows.within_intros) (auto intro!: grows.within_unwrap preload_grows)
  from withinD [OF this pre] have g: "visor_grows v1 v" .
  have "length fs = max 1 (length (files a))" by (cases "files a") (simp_all add: fs_def)
  with c n g table_inv_grows [OF _ g, of 0] show ?thesis by (simp add: visor_grows_def)
qed

lemma msvisor_start_grows:
  assumes "functions_grow env" "i \<noteq> 0"
  shows "within visor_grows (msvisor_start host env i)"
  unfolding msvisor_start_def
proof (intro grows.within_bind grows.within_unwrap get_isol_grows [OF assms(2)] withinI)
  fix j v r v'
  assume "(case isol_run env j v of (Err e, v') \<Rightarrow> (if debug_assertions host then Panic else Ok (), v')
    | (r, v') \<Rightarrow> (r, v')) = (r, v')"
  then have "snd (isol_run env j v) = v'" by (auto split: prod.splits res.splits)
  then show "visor_grows v v'"
    using withinD [OF isol_run_grows [OF assms(1)], of j v "fst (isol_run env j v)" v'] by (metis prod.collapse)
qed

lemma async_start_grows:
  assumes "functions_grow env" "\<forall>i \<in> set ids. i \<noteq> 0"
  shows "within visor_grows (async_msvisor_start host env ids)"
proof (rule withinI)
  fix v r v'
  assume "async_msvisor_start host env ids v = (r, v')"
  then have "v' = snd (schedule env (map (msvisor_start host env) ids) v)"
    by (auto simp: async_msvisor_start_def split: prod.splits)
  moreover have "\<forall>t \<in> set (map (msvisor_start host env) ids). within visor_grows t"
    using assms msvisor_start_grows by auto
  ultimately show "visor_grows v v'" using assms(1) unfolding functions_grow_def by blast
qed

lemma report_grows: "within visor_grows (report a i)"
  unfolding report_def by (intro grows.within_intros with_isol_grows)

lemma drop_shrinks:
  assumes "drop_isol x v = (Ok (), v')"
  shows "length (ISOL_TABLE v) = Suc (length (ISOL_TABLE v'))"
proof -
  note eff = drop_isol_effect [OF assms]
  then have "0 < unat x" by (simp add: unat_gt_0)
  with eff show ?thesis by auto
qed

lemma each_drop_shrinks:
  "act_each drop_isol xs v = (Ok (), v') \<Longrightarrow> length (ISOL_TABLE v') + length xs = length (ISOL_TABLE v)"
proof (induction xs arbitrary: v)
  case (Cons x xs)
  then obtain v1 where "drop_isol x v = (Ok (), v1)" "act_each drop_isol xs v1 = (Ok (), v')"
    by (auto simp: act_simps)
  with Cons.IH [of v1] drop_shrinks [of x v v1] show ?case by simp
qed (simp add: act_simps)

lemma each_drop_last:
  "act_each drop_isol (xs @ [n]) v = (Ok (), v') \<Longrightarrow> unat n + length xs \<le> length (ISOL_TABLE v)"
proof (induction xs arbitrary: v)
  case Nil
  then obtain v1 where "drop_isol n v = (Ok (), v1)" by (auto simp: act_simps)
  then show ?case using drop_isol_effect [of n v v1] by (auto simp: Suc_le_eq)
next
  case (Cons x xs)
  then obtain v1 where "drop_isol x v = (Ok (), v1)" "act_each drop_isol (xs @ [n]) v1 = (Ok (), v')"
    by (auto simp: act_simps)
  with Cons.IH [of v1] drop_shrinks [of x v v1] show ?case by simp
qed

text \<open>C31: The tool ends normally only when it was given at most one workflow, and then no
  isolation is left in the table; with \<open>multi_workflow\<close> and several files the workflows run,
  but letting the isolations go at the end of \<open>main\<close> panics.\<close>

theorem asvisor_exits_with_one_workflow:
  assumes "functions_grow env"
    and "asvisor_main multi host env pk a (visor_start statics u) = (Ok (Exited reports), v')"
  shows "length (files a) \<le> 1 \<and> ISOL_TABLE v' = []"
proof -
  have "\<not> non_exit a" using assms(2) by (auto simp: asvisor_main_def act_simps)
  with assms(2) obtain ids v1 v2 v3 rs where
    build: "build_all_isol host env pk a (visor_start statics u) = (Ok ids, v1)"
    and run: "start_all multi host env ids v1 = (Ok (), v2)"
    and rep: "act_collect (report a) ids v2 = (Ok rs :: (string, MetricReport list list) res, v3)"
    and drop: "act_each drop_isol ids v3 = (Ok (), v')"
    by (auto simp: asvisor_main_def act_simps)
  note b = built_table [OF build]
  then have nz: "\<forall>i \<in> set ids. i \<noteq> 0" by (auto simp: table_inv_def)
  have "within visor_grows (start_all multi host env ids)"
    unfolding start_all_def using nz
    by (cases ids) (auto intro!: grows.within_pure async_start_grows msvisor_start_grows assms(1))
  from withinD [OF this run] have "visor_grows v1 v2" .
  moreover have "visor_grows v2 v3"
    by (rule withinD [OF grows.within_collect [OF report_grows] rep])
  ultimately have table: "ISOL_TABLE v3 = ids" using b by (simp add: visor_grows_def)
  obtain xs n where ids: "ids = xs @ [n]" using b by (cases ids rule: rev_cases) auto
  have "unat (ID_KEEPER v1) = Suc (length ids)" using b by (auto simp: table_inv_def)
  then have "map unat ids = [1..<Suc (length ids)]"
    using table_full [OF b [THEN conjunct1]] b by (simp only:)
  then have "unat n = length ids" using ids by simp
  then have "length ids \<le> 1" using each_drop_last [of xs n v3 v'] drop ids table by simp
  then show ?thesis using b each_drop_shrinks [OF drop] table by simp
qed

definition plain_config :: IsolationConfig where
  "plain_config = \<lparr>services = [], apps = [LoadableUnit ''hello'' ''libhello.so''], fs_image = None,
     with_libos = Some False, groups = []\<rparr>"

definition plain_host :: Host where
  "plain_host = sample_host\<lparr>read_config := (\<lambda>p. Ok plain_config)\<rparr>"

definition plain_args :: Args where
  "plain_args = \<lparr>files = [''hello.json''], preload_all = False, metrics = CliNone, non_exit = False\<rparr>"

theorem asvisor_exits_with_one_workflow_witness:
  "\<exists>v'. asvisor_main False plain_host sample_env (\<lambda>_ _. 0) plain_args sample_start = (Ok (Exited []), v')
     \<and> ISOL_TABLE v' = []"
proof -
  have id0: "length (to_string 0) \<le> 32" by (subst to_string.simps) simp
  have conf: "from_file plain_host ''hello.json'' = Ok plain_config"
    by (simp add: from_file_def plain_host_def sample_host_def config_from_parsed_def Let_def plain_config_def)
  have "\<exists>v'. asvisor_main False plain_host sample_env (\<lambda>_ _. 0) plain_args (visor_start (\<lambda>_. fresh_statics) 0) =
      (Ok (Exited []), v')"
    unfolding visor_start_def
    by (simp add: asvisor_main_def build_all_isol_def plain_args_def conf id0 start_all_def msvisor_start_def
      get_isol_def vec_get_def report_def drop_isol_def enumerate_simps
      Isolation_new_def gen_new_id_def sample_env_def plain_config_def
      act_defs read_clock_def Let_def MetricBucket_new_def register_def register_unit_def
      ServiceLoader_new_def isol_run_def isol_mark_def with_isol_def set_isol_def run_as_sequence_def
      app_or_load_def load_app_def load_def load_dynlib_def Service_new_def add_module_def svc_run_def elf_run_def
      service_mark_def mark_svc_def new_svc_metric_def SvcMetricBucket_new_def from_kv_def)
  then show ?thesis
    using asvisor_exits_with_one_workflow [OF sample_grows] by (metis sample_start_def)
qed

end
