(* ===== verification/Chain_Functions.thy ===== *)
theory Chain_Functions
  imports Sort_Functions
begin

text \<open>
  The functions of the chain measurements: \<open>user/array_sum\<close>, which passes a counter from one
  link to the next, and the pair \<open>user/func_a\<close>, \<open>user/func_b\<close>, which passes one large array.
  \<open>sz\<close> is the constant of the configuration file that is included; \<open>fresh\<close> is what a new
  buffer reads as. Output and timing are left out.
\<close>

section \<open>Typed data\<close>

datatype chain_value = Arraysum (raw_data: string) (count: int) | VecArg "u64 list"

definition fp_arraysum :: "(string \<Rightarrow> u64) \<Rightarrow> u64" where
  "fp_arraysum hash = fingerprint hash [''String'', ''i32'']"

definition fp_vecarg :: "(string \<Rightarrow> u64) \<Rightarrow> u64" where
  "fp_vecarg hash = fingerprint hash [''Vec < u64 >'']"

definition fp_mycomplexdata :: "(string \<Rightarrow> u64) \<Rightarrow> u64" where
  "fp_mycomplexdata hash = fingerprint hash [''Vec < u64 >'']"

type_synonym chain_func = "(chain_value slots, string, unit) act"

text \<open>\<open>str::parse\<close> to \<open>i32\<close> and printing an \<open>i32\<close>.\<close>

definition parse_i32 :: "string \<Rightarrow> int option" where
  "parse_i32 s =
    (case s of
       [] \<Rightarrow> None
     | c # cs \<Rightarrow>
        if c = CHR ''-'' then
          (if cs = [] then None
           else case parse_digits 32 0 cs of
             Some n \<Rightarrow> if n \<le> 2 ^ 31 then Some (- int n) else None
           | None \<Rightarrow> None)
        else (case parse_uint 31 s of Some n \<Rightarrow> Some (int n) | None \<Rightarrow> None))"

definition show_i32 :: "int \<Rightarrow> string" where
  "show_i32 i = (if i < 0 then CHR ''-'' # to_string (nat (- i)) else to_string (nat i))"

section \<open>The counting chain\<close>

definition take_count :: "(string \<Rightarrow> u64) \<Rightarrow> string \<Rightarrow> (chain_value slots, string, int) act" where
  "take_count hash slot = act_bind (slot_take (fp_arraysum hash) slot) (\<lambda>taken.
    case taken of Some (Arraysum _ cnt) \<Rightarrow> act_ret cnt | _ \<Rightarrow> act_panic)"

definition array_sum_main ::
  "(string \<Rightarrow> u64) \<Rightarrow> nat \<Rightarrow> string \<times> int \<Rightarrow> (string \<Rightarrow> string option) \<Rightarrow> chain_func" where
  "array_sum_main hash sz fresh get_arg =
    (case get_arg ''n'' of
       None \<Rightarrow> act_panic
     | Some n \<Rightarrow>
       (case parse_i32 n of
          None \<Rightarrow> act_panic
        | Some i \<Rightarrow>
          act_bind (if i = 0 then act_ret 0
                    else if i = - (2 ^ 31) then act_panic
                    else take_count hash (''slot_'' @ show_i32 (i - 1))) (\<lambda>previous_cnt.
          let put = (\<lambda>raw cnt. act_modify (slot_put (fp_arraysum hash) (''slot_'' @ n) (Arraysum raw cnt)));
              raw = concat (replicate sz n)
          in act_bind (put (fst fresh) (snd fresh)) (\<lambda>_.
             act_bind (put raw (snd fresh)) (\<lambda>_.
             if previous_cnt = 2 ^ 31 - 1 then act_panic else put raw (previous_cnt + 1))))))"

section \<open>The large array\<close>

text \<open>\<open>resize\<close> and the loop over the elements.\<close>

definition func_a_main :: "(string \<Rightarrow> u64) \<Rightarrow> nat \<Rightarrow> u64 list \<Rightarrow> chain_func" where
  "func_a_main hash sz fresh =
    act_bind (act_modify (slot_put (fp_vecarg hash) ''Conference'' (VecArg fresh))) (\<lambda>_.
    let resized = take sz fresh @ replicate (sz - length fresh) 0;
        filled = map (\<lambda>(idx, _). word_of_nat (idx mod (2 ^ 64 - 2))) (List.enumerate 0 resized)
    in act_modify (slot_put (fp_vecarg hash) ''Conference'' (VecArg filled)))"

definition func_b_main :: "(string \<Rightarrow> u64) \<Rightarrow> (chain_value slots, string, nat) act" where
  "func_b_main hash =
    act_bind (slot_take (fp_mycomplexdata hash) ''Conference'') (\<lambda>data.
    case data of
      Some (VecArg xs) \<Rightarrow> act_ret (length xs * 8)
    | Some _ \<Rightarrow> act_panic
    | None \<Rightarrow> act_err ''buffer is none'')"

section \<open>Properties\<close>

lemma parse_i32_to_string: "k < 2 ^ 31 \<Longrightarrow> parse_i32 (to_string k) = Some (int k)"
proof -
  assume "k < 2 ^ 31"
  then have "parse_uint 31 (to_string k) = Some k" by (rule parse_uint_to_string)
  moreover have "hd (to_string k) \<noteq> CHR ''-''"
    using to_string_digits [of "hd (to_string k)" k] by (auto simp: is_ascii_digit_def)
  ultimately show ?thesis by (cases "to_string k") (simp_all add: parse_i32_def)
qed

definition link_args :: "nat \<Rightarrow> string \<Rightarrow> string option" where
  "link_args k name = (if name = ''n'' then Some (to_string k) else None)"

definition link_slot :: "nat \<Rightarrow> string" where
  "link_slot k = ''slot_'' @ to_string k"

definition link_value :: "nat \<Rightarrow> nat \<Rightarrow> chain_value" where
  "link_value sz k = Arraysum (concat (replicate sz (to_string k))) (int k + 1)"

lemma link_slot_inject [simp]: "link_slot j = link_slot k \<longleftrightarrow> j = k"
  by (simp add: link_slot_def)

lemma act_each_continue:
  "act_each f xs s = (Ok (), s') \<Longrightarrow> act_each f (xs @ ys) s = act_each f ys s'"
proof (induction xs arbitrary: s)
  case (Cons x xs)
  then obtain s1 where "f x s = (Ok (), s1)" "act_each f xs s1 = (Ok (), s')" by (auto simp: act_simps)
  with Cons.IH show ?case by (simp add: act_bind_def)
qed (simp add: act_defs)

lemma first_link:
  "array_sum_main hash sz fresh (link_args 0) m = (Ok (), m(link_slot 0 \<mapsto> (fp_arraysum hash, link_value sz 0)))"
  using parse_i32_to_string [of 0]
  by (simp add: array_sum_main_def link_args_def act_defs slot_put_def link_slot_def link_value_def Let_def)

lemma next_link:
  assumes "Suc (Suc k) < 2 ^ 31" "m (link_slot k) = Some (fp_arraysum hash, link_value sz k)"
  shows "array_sum_main hash sz fresh (link_args (Suc k)) m =
    (Ok (), m(link_slot k := None, link_slot (Suc k) \<mapsto> (fp_arraysum hash, link_value sz (Suc k))))"
proof -
  have parse: "parse_i32 (to_string (Suc k)) = Some (int (Suc k))" using assms(1) by (intro parse_i32_to_string) simp
  have slot: "''slot_'' @ show_i32 (int (Suc k) - 1) = link_slot k" by (simp add: show_i32_def link_slot_def)
  have take: "take_count hash (link_slot k) m = (Ok (int (Suc k)), m(link_slot k := None))"
    using assms(2) by (simp add: take_count_def slot_take_def act_defs link_value_def)
  have b: "int (Suc k) \<noteq> 0" "int (Suc k) \<noteq> - (2 ^ 31)" "int (Suc k) \<noteq> 2 ^ 31 - 1"
    using assms(1) by simp_all
  show ?thesis
    unfolding array_sum_main_def link_args_def
    using b take slot by (simp add: parse act_defs slot_put_def link_slot_def link_value_def Let_def)
qed

text \<open>C39: A chain of links 0 to n ends with the count n + 1 in the slot of the last link, the
  slots of the links before it empty and no other slot touched, as long as the count fits an
  \<open>i32\<close>.\<close>

theorem array_sum_counts:
  assumes "Suc n < 2 ^ 31"
  shows "\<exists>m'. act_each (\<lambda>k. array_sum_main hash sz fresh (link_args k)) [0..<Suc n] m = (Ok (), m')
    \<and> m' (link_slot n) = Some (fp_arraysum hash, Arraysum (concat (replicate sz (to_string n))) (int n + 1))
    \<and> (\<forall>j<n. m' (link_slot j) = None)
    \<and> (\<forall>slot. (\<forall>j\<le>n. slot \<noteq> link_slot j) \<longrightarrow> m' slot = m slot)"
  using assms
proof (induction n)
  case 0
  then show ?case using first_link [of hash sz fresh m] by (simp add: act_defs link_value_def)
next
  case (Suc n)
  let ?f = "\<lambda>k. array_sum_main hash sz fresh (link_args k)"
  from Suc obtain m' where IH: "act_each ?f [0..<Suc n] m = (Ok (), m')"
    "m' (link_slot n) = Some (fp_arraysum hash, link_value sz n)"
    "\<forall>j<n. m' (link_slot j) = None" "\<forall>slot. (\<forall>j\<le>n. slot \<noteq> link_slot j) \<longrightarrow> m' slot = m slot"
    by (auto simp: link_value_def)
  let ?m = "m'(link_slot n := None, link_slot (Suc n) \<mapsto> (fp_arraysum hash, link_value sz (Suc n)))"
  have "act_each ?f [0..<Suc (Suc n)] m = act_each ?f [Suc n] m'"
    using act_each_continue [OF IH(1), of "[Suc n]"] by simp
  also have "\<dots> = (Ok (), ?m)"
    using next_link [where hash = hash and fresh = fresh and m = m' and k = n, OF Suc.prems IH(2)] by (simp add: act_defs)
  finally have run: "act_each ?f [0..<Suc (Suc n)] m = (Ok (), ?m)" .
  have "\<forall>j<Suc n. ?m (link_slot j) = None" using IH(3) by (auto simp: less_Suc_eq)
  moreover have "\<forall>slot. (\<forall>j\<le>Suc n. slot \<noteq> link_slot j) \<longrightarrow> ?m slot = m slot" using IH(4) by simp
  moreover have "?m (link_slot (Suc n)) = Some (fp_arraysum hash, Arraysum (concat (replicate sz (to_string (Suc n)))) (int (Suc n) + 1))"
    by (simp add: link_value_def)
  ultimately show ?case using run by blast
qed

theorem array_sum_counts_witness:
  "\<exists>m'. act_each (\<lambda>k. array_sum_main (\<lambda>s. 7) 2 ([], 0) (link_args k)) [0..<Suc 2] Map.empty = (Ok (), m')
    \<and> m' (link_slot 2) = Some (fp_arraysum (\<lambda>s. 7), Arraysum (concat (replicate 2 (to_string 2))) 3)"
  using array_sum_counts [of 2 "\<lambda>s. 7" 2 "([], 0)" Map.empty] by auto

text \<open>The fingerprint does not see the names of the structs: \<open>func_b\<close> gets the array of \<open>func_a\<close> at a
  type of another name, and all of it, whatever the new buffer held.\<close>

lemma func_b_gets_array:
  "fst (act_bind (func_a_main hash sz fresh) (\<lambda>_. func_b_main hash) m) = Ok (sz * 8)"
  by (simp add: func_a_main_def func_b_main_def act_defs Let_def slot_put_def slot_take_def
      fp_vecarg_def fp_mycomplexdata_def)

end
