(* ===== verification/Spec2Isabelle.thy ===== *)
theory Spec2Isabelle
  imports Visor_Props Sort_Functions Fd_Services Ext4_Fdtab Wasi_Services Wasi_Buffers As_Io_Props Word_Count_Props
    Fault_Threads Socket_Props Rux_Props Sort_Workflow File_Buffers Baseline_Sort Wasm_Functions
    Proc_Maps Asvisor Chain_Functions
begin

text \<open>
  AlloyStack is a library operating system for serverless workflows. A \<^emph>\<open>visor\<close>
  (\<open>libasvisor\<close>, started by \<open>bins/asvisor\<close> or \<open>bins/asvisor-d\<close>) reads the description of a workflow,
  creates an \<^emph>\<open>isolation\<close> for it and runs its functions group by group, the functions of a group in
  parallel. Functions (\<open>user/\<close>) are linked against \<open>as_std\<close>; what they need of an operating system they
  get from \<^emph>\<open>services\<close> (\<open>common_service/\<close>), libraries that are loaded at the first \<^emph>\<open>host call\<close>
  (\<open>as_hostcall\<close>) to them. Functions pass intermediate data by reference through named slots of the
  memory service. WebAssembly guests are hosted by functions over a WASI layer (\<open>wasmtime_wasi_api\<close>).

  \<^bold>\<open>How Rust is modelled.\<close> A fallible call ends in \<open>Ok\<close>, \<open>Err\<close> or \<open>Panic\<close> (type \<open>res\<close>, theory
  \<open>Rust_Prelude\<close>); a call that changes state is a function from the state to its outcome and the state it
  leaves (type \<open>act\<close>, theory \<open>Effects\<close>), so that what an early return or a panic leaves behind is visible.
  Every \<open>unwrap\<close>, failed index and failed assertion is a branch that panics. Machine integers that can wrap
  are words or are reduced modulo \<open>2 ^ 64\<close> (\<open>usize\<close>), as in the release build that the \<open>justfile\<close> makes; only the visor's
  counter of isolations and the handle 0, which it never gives out, panic as in a build with overflow checks. Poisoned locks and lazily created statics are part of
  the state (\<open>Lazy_Static\<close>). Loops that need not end (\<open>run\<close> of \<open>Loops\<close>, \<open>read_to_end\<close> of \<open>As_Io\<close>) give an option that is
  \<open>None\<close> when the loop goes on forever; a theorem about such a loop shows that the value is \<open>Some\<close>. There is no fuel:
  every other recursion is structural or has a termination proof. Code outside the repository, such as
  the \<open>fatfs\<close>, \<open>rcore-fs\<close>, \<open>ext4_rs\<close>, \<open>ruxfs\<close>, \<open>smoltcp\<close> and \<open>wasmtime\<close> crates, the kernel, the dynamic
  linker and the clock, is an argument of the definitions that use it (the records \<open>Env\<close>, \<open>Host\<close>,
  \<open>FatCrate\<close>, \<open>FdBackend\<close>, \<open>MmOs\<close>, \<open>WasiHost\<close>, \<open>Module\<close>, \<open>S3\<close> and others), with what is relied on as named
  hypotheses and concrete functions in the witnesses.

  \<^bold>\<open>Shared theories.\<close> \<open>Rust_Prelude\<close>, \<open>Effects\<close> (with the locale \<open>step_relation\<close>, which carries a
  relation between states through a whole call), \<open>Loops\<close>, \<open>Lazy_Static\<close>, \<open>Rust_Fmt\<close> (printing, parsing and
  splitting text), \<open>Btree_Map\<close> (ordered maps behind a locale), \<open>Handle_Table\<close> (the three kinds of tables of
  open files behind one locale, each shown to be a map from handles to files, in which a new file gets a
  handle that is free and that the numbering of the table determines).

  \<^bold>\<open>Visor.\<close> \<open>Isol_Config\<close> (\<open>isolation/config.rs\<close>), \<open>Metric\<close> (\<open>metric.rs\<close>), \<open>Mpk\<close> (\<open>mpk.rs\<close> of visor and
  \<open>as_std\<close>), \<open>Paging\<close> and \<open>Proc_Maps\<close> (\<open>utils.rs\<close>), \<open>User_Stack\<close> (arguments on the stack,
  \<open>service/elf_service.rs\<close> and \<open>as_std/src/args.rs\<close>), \<open>Hostcall\<close> (\<open>as_hostcall\<close>,
  \<open>as_std/src/init_context.rs\<close>, \<open>libos/mod.rs\<close>), \<open>Visor_Model\<close>, \<open>Visor\<close>, \<open>Visor_Props\<close> (\<open>isolation/mod.rs\<close>,
  \<open>handler.rs\<close>, \<open>service/loader.rs\<close>), \<open>Asvisor\<close> (the two programs). Shown: arguments are found again by
  the function; the address a host call resolves to is the visor's; a workflow stops at the first group that
  fails; the keys a function can write with are its own; the memory map, in the layout the kernel prints, is read back;
  the table of isolations finds every isolation until one is dropped and no later one after that, with what
  follows for the daemon and for several workflows in one process.

  \<^bold>\<open>Intermediate data.\<close> \<open>Data_Buffer\<close> (\<open>common_service/mm/src/faas_buffer\<close>, \<open>as_std/src/agent.rs\<close>) refines a
  map from slots to typed values; \<open>File_Buffers\<close> is the variant over files; \<open>Wasi_Buffers\<close> is the exchange between guests.

  \<^bold>\<open>Files.\<close> \<open>Fs_Types\<close>, \<open>Fatfs\<close>, \<open>Fdtab\<close> and \<open>Fd_Services\<close> (\<open>fatfs\<close>, \<open>fdtab\<close>), \<open>Vfs_Fdtab\<close>
  (\<open>rcorefdtab\<close>, \<open>rcore_sfsfdtab\<close>), \<open>Block_Device\<close>, \<open>Disk_Props\<close>, \<open>Ext4_Fdtab\<close> (\<open>ext4fdtab\<close> and the block
  drivers), \<open>Rux_Fdtab\<close>, \<open>Rux_Props\<close> (\<open>ruxfdtab\<close>), \<open>As_Io\<close>, \<open>As_Io_Props\<close> (\<open>as_std/src/fs.rs\<close>, \<open>io.rs\<close>,
  \<open>net.rs\<close>, \<open>time.rs\<close>). Shown: every call acts on the table of descriptors as promised and on no other entry,
  no descriptor refers to a closed file, a closed handle stays closed, the disks under their adapters are
  arrays of bytes (up to bytes that a short transfer of the stream below loses silently), and
  \<open>read_to_end\<close> ends with the rest of the file.

  \<^bold>\<open>Memory and network.\<close> \<open>Mmap\<close> and \<open>Fault_Threads\<close> (\<open>mm/src/mmap.rs\<close>, \<open>mmap_file_backend\<close>; the
  threads are an inductive step relation with an invariant over all interleavings), \<open>Tap\<close>, \<open>Socket\<close>,
  \<open>Socket_Props\<close> (\<open>socket\<close>).

  \<^bold>\<open>WebAssembly.\<close> \<open>Wasi_Errno\<close>, \<open>Wasi_Abi\<close>, \<open>Wasi\<close>, \<open>Wasi_Readdir\<close>, \<open>Wasi_Props\<close>, \<open>Wasi_Services\<close>
  (\<open>wasmtime_wasi_api\<close>) and \<open>Wasm_Functions\<close> (\<open>user/wasmtime_*\<close>): what a guest finds in its memory after a
  call, and that its host function starts it with its arguments.

  \<^bold>\<open>Workflows.\<close> \<open>Sort_Algorithms\<close>, \<open>Sort_Functions\<close>, \<open>Sort_Workflow\<close> (\<open>user/file_reader\<close>, \<open>sorter\<close>,
  \<open>splitter\<close>, \<open>merger\<close>, \<open>checker\<close>), \<open>Word_Count\<close>, \<open>Word_Count_Props\<close> (\<open>user/mapper\<close>, \<open>reducer\<close>),
  \<open>Chain_Functions\<close> (\<open>user/array_sum\<close>, \<open>func_a\<close>, \<open>func_b\<close>), \<open>Baseline_Sort\<close> (\<open>baseline/parallel_sort\<close>): the
  workflows compute the sorted numbers (without \<open>u32::MAX\<close>, which the merger uses as its end mark), the number
  of occurrences of every word modulo 2^32, and the length of the chain, and the OpenFaaS version agrees with
  the one for AlloyStack.

  \<^bold>\<open>Not modelled.\<close> Code that only wraps one system call or prints (the signal, console and clock services,
  logging, the sample functions that call one library function each); assembly (the trampolines of key
  switching and of the user stack appear by their effect on registers and memory); the ELF loader and the
  start of the fault handler thread, which are parameters; generated C bindings; unused copies of the drivers
  and modules that are commented out; floating point inference (\<open>user/nn_conv\<close>); the guest programs in C, C++
  and Python; JSON, whose parsed values are the arguments; build, measurement and plotting scripts, the
  remaining baselines and the integration tests. Functions of a group run one after the other in the
  workflow theorems: they work on slots of their own, and \<open>Visor_Model\<close> leaves the schedule of the
  threads open.
\<close>

end
